(* ===== verification/Prelude.thy ===== *)
theory Prelude
  imports Main "HOL-Library.Word" "HOL-Library.Monad_Syntax"
begin

unbundle bit_operations_syntax

text \<open>
  Shared vocabulary of the development: the C integer types at their width, the byte order
  of the little-endian target, bounds-checked reads and writes of C buffers, and the generic
  list and word lemmas that the component theories rely on.

  A C buffer is the list of the bytes that were allocated for it.  A read or a write outside
  that list is the value \<open>None\<close>: the C program has left defined behaviour there, and no
  property holds of what follows.
\<close>

named_theorems frame_simps \<open>fields an operation leaves alone\<close>
named_theorems wf_intros \<open>preservation of the well-formedness invariant\<close>

section \<open>Machine integers\<close>

type_synonym u8 = "8 word"
type_synonym u16 = "16 word"
type_synonym u32 = "32 word"

definition htons :: "u16 \<Rightarrow> u16" where
  "htons w = push_bit 8 w OR drop_bit 8 w"

definition htonl :: "u32 \<Rightarrow> u32" where
  "htonl w = push_bit 24 w OR (push_bit 8 w AND 0x00FF0000)
             OR (drop_bit 8 w AND 0x0000FF00) OR drop_bit 24 w"

text \<open>The bytes a U16 or U32 object occupies in memory, lowest address first.\<close>

definition le16 :: "u16 \<Rightarrow> u8 list" where
  "le16 w = [ucast w, ucast (drop_bit 8 w)]"

definition le32 :: "u32 \<Rightarrow> u8 list" where
  "le32 w = [ucast w, ucast (drop_bit 8 w), ucast (drop_bit 16 w), ucast (drop_bit 24 w)]"

fun of_le16 :: "u8 list \<Rightarrow> u16" where
  "of_le16 [a, b] = ucast a OR push_bit 8 (ucast b)"
| "of_le16 _ = 0"

fun of_le32 :: "u8 list \<Rightarrow> u32" where
  "of_le32 [a, b, c, d] =
     ucast a OR push_bit 8 (ucast b) OR push_bit 16 (ucast c) OR push_bit 24 (ucast d)"
| "of_le32 _ = 0"

lemma length_le16 [simp]: "length (le16 w) = 2"
  by (simp add: le16_def)

lemma length_le32 [simp]: "length (le32 w) = 4"
  by (simp add: le32_def)

lemma bit_u8_high: "bit (a :: u8) n \<Longrightarrow> n < 8"
  using bit_imp_le_length [of a n] by simp

lemma of_le16_le16 [simp]: "of_le16 (le16 w) = w"
  by (rule bit_word_eqI) (auto simp: le16_def bit_simps)

lemma of_le32_le32 [simp]: "of_le32 (le32 w) = w"
proof (rule bit_word_eqI)
  fix n assume "n < LENGTH(32)"
  then consider "n < 8" | "8 \<le> n" "n < 16" | "16 \<le> n" "n < 24" | "24 \<le> n" "n < 32"
    by force
  then show "bit (of_le32 (le32 w)) n \<longleftrightarrow> bit w n"
    by cases (auto simp: le32_def bit_simps)
qed

lemma htons_htons [simp]: "htons (htons w) = w"
  by (rule bit_word_eqI) (auto simp: htons_def bit_simps dest: bit_imp_le_length)

lemma unat_u8_less [simp]: "unat (x :: u8) < 256"
  using unsigned_less [of x, where 'a = nat] by simp

lemma unat_u16_less [simp]: "unat (x :: u16) < 65536"
  using unsigned_less [of x, where 'a = nat] by simp

section \<open>Buffers\<close>

definition rd :: "u8 list \<Rightarrow> nat \<Rightarrow> u8 option" where
  "rd buf i = (if i < length buf then Some (buf ! i) else None)"

definition rds :: "u8 list \<Rightarrow> nat \<Rightarrow> nat \<Rightarrow> u8 list option" where
  "rds buf off n = (if off + n \<le> length buf then Some (take n (drop off buf)) else None)"

definition wrs :: "u8 list \<Rightarrow> nat \<Rightarrow> u8 list \<Rightarrow> u8 list option" where
  "wrs buf off bs =
     (if off + length bs \<le> length buf
      then Some (take off buf @ bs @ drop (off + length bs) buf) else None)"

text \<open>
  A C string in a buffer: the bytes before the first zero, or \<open>None\<close> when the buffer holds
  no zero (\<open>strlen\<close> then reads past its end).
\<close>

definition cstr :: "u8 list \<Rightarrow> u8 list option" where
  "cstr buf = (if 0 \<in> set buf then Some (takeWhile (\<lambda>b. b \<noteq> 0) buf) else None)"

lemma rd_Some [simp]: "i < length buf \<Longrightarrow> rd buf i = Some (buf ! i)"
  by (simp add: rd_def)

lemma length_rds: "rds buf off n = Some bs \<Longrightarrow> length bs = n"
  by (auto simp: rds_def split: if_splits)

lemma length_wrs: "wrs buf off bs = Some buf' \<Longrightarrow> length buf' = length buf"
  by (auto simp: wrs_def split: if_splits)

lemma cstr_eq_takeWhile: "cstr buf = Some s \<Longrightarrow> s = takeWhile (\<lambda>b. b \<noteq> 0) buf"
  by (simp add: cstr_def split: if_splits)

lemma cstr_nonzero: "cstr buf = Some s \<Longrightarrow> 0 \<notin> set s"
  by (auto simp: cstr_def split: if_splits dest: set_takeWhileD)

lemma takeWhile_length_less:
  "x \<in> set xs \<Longrightarrow> \<not> P x \<Longrightarrow> length (takeWhile P xs) < length xs"
  by (induction xs) auto

lemma cstr_length: "cstr buf = Some s \<Longrightarrow> length s < length buf"
  by (auto simp: cstr_def split: if_splits intro!: takeWhile_length_less [of 0])

lemma takeWhile_append_zero:
  "0 \<notin> set s \<Longrightarrow> takeWhile (\<lambda>b. b \<noteq> (0 :: u8)) (s @ 0 # t) = s"
  by (induction s) auto

section \<open>ASCII literals\<close>

definition ascii :: "string \<Rightarrow> u8 list" where
  "ascii s = map (\<lambda>c. of_nat (of_char c)) s"

lemma length_ascii [simp]: "length (ascii s) = length s"
  by (simp add: ascii_def)

end
