(* ===== verification/Calendar.thy ===== *)
theory Calendar
  imports Prelude
begin

text \<open>
  The calendar arithmetic of \<open>lumTimeData.c\<close>: \<open>lum_gmtime\<close> splits a count of seconds since
  1970 into calendar fields with two subtraction loops and \<open>lum_getDayOfWeek\<close> computes the
  weekday.  The specification is the proleptic Gregorian calendar, given as the number of
  seconds before a date; \<open>lum_gmtime\<close> is shown to be its inverse on every 32-bit count.
\<close>

section \<open>The code\<close>

record time_data_info =
  year :: u16
  month :: u8
  day :: u8
  week :: u8
  hour :: u8
  minute :: u8
  second :: u8

definition lum_bLeapYear :: "u16 \<Rightarrow> bool" where
  "lum_bLeapYear yearData =
     (if yearData mod 100 = 0 then yearData mod 400 = 0 else yearData mod 4 = 0)"

definition LUM_SEC_PER_YR :: "bool \<Rightarrow> u32" where
  "LUM_SEC_PER_YR leap = (if leap then 31622400 else 31536000)"

definition LUM_SEC_PER_MT :: "bool \<Rightarrow> u32 list" where
  "LUM_SEC_PER_MT leap =
     (if leap then
        [2678400, 2505600, 2678400, 2592000, 2678400, 2592000,
         2678400, 2678400, 2592000, 2678400, 2592000, 2678400]
      else
        [2678400, 2419200, 2678400, 2592000, 2678400, 2592000,
         2678400, 2678400, 2592000, 2678400, 2592000, 2678400])"

definition LUM_WEEK_DAY_INFO :: "int list" where
  "LUM_WEEK_DAY_INFO = [0, 3, 2, 5, 0, 3, 5, 1, 4, 6, 2, 4]"

text \<open>
  \<open>year -= month < 3\<close> works on the U16 parameter; the sum below it is computed in \<open>int\<close> and
  its remainder stored in a U8.
\<close>

definition lum_getDayOfWeek :: "u8 \<Rightarrow> u8 \<Rightarrow> u16 \<Rightarrow> u8" where
  "lum_getDayOfWeek m d y =
     (let y' = uint (if m < 3 then y - 1 else y)
      in of_int ((y' + y' div 4 - y' div 100 + y' div 400
                  + LUM_WEEK_DAY_INFO ! (unat m - 1) + uint d) mod 7))"

function gm_year_loop :: "u16 \<Rightarrow> u32 \<Rightarrow> u16 \<times> u32" where
  "gm_year_loop y s =
     (let n = LUM_SEC_PER_YR (lum_bLeapYear y)
      in if s < n then (y, s) else gm_year_loop (y + 1) (s - n))"
  by pat_completeness auto
termination
proof (relation "measure (\<lambda>(y, s). unat s)")
  fix y :: u16 and s n :: u32
  assume n: "n = LUM_SEC_PER_YR (lum_bLeapYear y)" and "\<not> s < n"
  then have "unat n \<le> unat s" "0 < unat n"
    by (auto simp: LUM_SEC_PER_YR_def word_le_nat_alt not_less split: if_splits)
  then show "((y + 1, s - n), (y, s)) \<in> measure (\<lambda>(y, s). unat s)"
    by (simp add: unat_sub word_le_nat_alt)
qed simp

text \<open>
  The month loop indexes \<open>LUM_SEC_PER_MT\<close> with a month that it increments; a thirteenth
  month would read past the table.
\<close>

function gm_month_loop :: "bool \<Rightarrow> nat \<Rightarrow> u32 \<Rightarrow> (nat \<times> u32) option" where
  "gm_month_loop leap m s =
     (if m \<ge> 12 then None
      else let n = LUM_SEC_PER_MT leap ! m
           in if s < n then Some (m, s) else gm_month_loop leap (Suc m) (s - n))"
  by pat_completeness auto
termination
  by (relation "measure (\<lambda>(leap, m, s). 12 - m)") auto

declare gm_year_loop.simps [simp del] gm_month_loop.simps [simp del]

definition LUM_SEC_PER_DY :: u32 where "LUM_SEC_PER_DY = 86400"
definition LUM_SEC_PER_HR :: u32 where "LUM_SEC_PER_HR = 3600"

definition lum_gmtime :: "u32 \<Rightarrow> time_data_info option" where
  "lum_gmtime sec = do {
     let (y, s1) = gm_year_loop 1970 sec;
     (m, s2) \<leftarrow> gm_month_loop (lum_bLeapYear y) 0 s1;
     let d = ucast (s2 div LUM_SEC_PER_DY) + 1;
     let s3 = s2 mod LUM_SEC_PER_DY;
     let h = ucast (s3 div LUM_SEC_PER_HR);
     let s4 = s3 mod LUM_SEC_PER_HR;
     Some \<lparr>year = y, month = of_nat m, day = d,
           week = lum_getDayOfWeek (of_nat m + 1) d y,
           hour = h, minute = ucast (s4 div 60), second = ucast (s4 mod 60)\<rparr>
   }"


section \<open>The Gregorian calendar\<close>

definition leap_year :: "nat \<Rightarrow> bool" where
  "leap_year y = (y mod 4 = 0 \<and> (y mod 100 \<noteq> 0 \<or> y mod 400 = 0))"

definition days_in_year :: "nat \<Rightarrow> nat" where
  "days_in_year y = (if leap_year y then 366 else 365)"

definition month_lengths :: "bool \<Rightarrow> nat list" where
  "month_lengths leap = [31, if leap then 29 else 28, 31, 30, 31, 30, 31, 31, 30, 31, 30, 31]"

definition days_before_year :: "nat \<Rightarrow> nat" where
  "days_before_year y = (\<Sum>k = 1970..<y. days_in_year k)"

definition days_before_month :: "bool \<Rightarrow> nat \<Rightarrow> nat" where
  "days_before_month leap m = sum_list (take m (month_lengths leap))"

text \<open>Days and seconds from 1970-01-01 00:00:00 to a date; \<open>month\<close> counts from 0.\<close>

definition days_of :: "time_data_info \<Rightarrow> nat" where
  "days_of t = days_before_year (unat (year t))
     + days_before_month (leap_year (unat (year t))) (unat (month t)) + (unat (day t) - 1)"

definition seconds_of :: "time_data_info \<Rightarrow> nat" where
  "seconds_of t = days_of t * 86400 + unat (hour t) * 3600 + unat (minute t) * 60
     + unat (second t)"

definition valid_date :: "time_data_info \<Rightarrow> bool" where
  "valid_date t \<longleftrightarrow> 1970 \<le> unat (year t) \<and> unat (month t) < 12 \<and> 1 \<le> unat (day t)
     \<and> unat (day t) \<le> month_lengths (leap_year (unat (year t))) ! unat (month t)
     \<and> unat (hour t) < 24 \<and> unat (minute t) < 60 \<and> unat (second t) < 60"

section \<open>The loops\<close>

lemma lum_bLeapYear_eq: "lum_bLeapYear y = leap_year (unat y)"
proof -
  have m: "(y mod k = 0) = (unat y mod unat k = 0)" for k
    by (metis unat_eq_zero unat_mod_distrib)
  have "unat y mod 100 = 0 \<longrightarrow> unat y mod 4 = 0" "unat y mod 400 = 0 \<longrightarrow> unat y mod 4 = 0"
    "unat y mod 400 = 0 \<longrightarrow> unat y mod 100 = 0"
    by (auto simp: mod_eq_0_iff_dvd intro: dvd_trans [of 4 100] dvd_trans [of 4 400]
        dvd_trans [of 100 400])
  then show ?thesis by (auto simp: lum_bLeapYear_def leap_year_def m)
qed

lemma unat_LUM_SEC_PER_YR:
  "unat (LUM_SEC_PER_YR (lum_bLeapYear y)) = days_in_year (unat y) * 86400"
  by (simp add: LUM_SEC_PER_YR_def lum_bLeapYear_eq days_in_year_def)

lemma days_before_year_Suc:
  "1970 \<le> y \<Longrightarrow> days_before_year (Suc y) = days_before_year y + days_in_year y"
  by (simp add: days_before_year_def)

lemma gm_year_loop_spec:
  assumes "gm_year_loop y s = (y', s')" "1970 \<le> unat y" "unat y + unat s div 31536000 < 65000"
  shows "unat s' < days_in_year (unat y') * 86400 \<and> 1970 \<le> unat y'
    \<and> days_before_year (unat y) * 86400 + unat s = days_before_year (unat y') * 86400 + unat s'"
  using assms
proof (induction y s rule: gm_year_loop.induct)
  case (1 y s)
  let ?n = "LUM_SEC_PER_YR (lum_bLeapYear y)"
  show ?case
  proof (cases "s < ?n")
    case True
    with 1 show ?thesis
      by (auto simp: gm_year_loop.simps [of y s] word_less_nat_alt unat_LUM_SEC_PER_YR)
  next
    case False
    then have le: "days_in_year (unat y) * 86400 \<le> unat s"
      by (simp add: word_less_nat_alt unat_LUM_SEC_PER_YR)
    have sub: "unat (s - ?n) = unat s - days_in_year (unat y) * 86400"
      using False by (simp add: unat_sub word_le_nat_alt not_less unat_LUM_SEC_PER_YR)
    have big: "31536000 \<le> days_in_year (unat y) * 86400"
      by (simp add: days_in_year_def)
    have "unat (y + 1) = Suc (unat y)"
      using "1.prems"(3) by (simp add: unat_word_ariths)
    moreover have "unat (s - ?n) div 31536000 + 1 \<le> unat s div 31536000"
    proof -
      have "(unat (s - ?n) + 31536000) div 31536000 \<le> unat s div 31536000"
        using sub le big by (intro div_le_mono) linarith
      then show ?thesis by simp
    qed
    ultimately show ?thesis
      using 1 False le sub by (auto simp: gm_year_loop.simps [of y s] days_before_year_Suc)
  qed
qed

lemma length_month_lengths [simp]: "length (month_lengths leap) = 12"
  by (simp add: month_lengths_def)

lemma month_lengths_le: "m < 12 \<Longrightarrow> month_lengths leap ! m \<le> 31"
proof -
  assume "m < 12"
  then have "month_lengths leap ! m \<in> set (month_lengths leap)" by simp
  moreover have "\<forall>d \<in> set (month_lengths leap). d \<le> 31"
    by (simp add: month_lengths_def)
  ultimately show ?thesis by blast
qed

lemma LUM_SEC_PER_MT_eq:
  "LUM_SEC_PER_MT leap = map (\<lambda>d. word_of_nat (d * 86400)) (month_lengths leap)"
  by (simp add: LUM_SEC_PER_MT_def month_lengths_def)

lemma LUM_SEC_PER_MT_nth:
  assumes "m < 12"
  shows "unat (LUM_SEC_PER_MT leap ! m) = month_lengths leap ! m * 86400"
proof -
  have "month_lengths leap ! m * 86400 < 2 ^ 32"
    using month_lengths_le [OF assms, of leap] by simp
  moreover have "LUM_SEC_PER_MT leap ! m = word_of_nat (month_lengths leap ! m * 86400)"
    using assms by (simp add: LUM_SEC_PER_MT_eq del: of_nat_mult)
  ultimately show ?thesis
    by (simp only: unat_of_nat len_num0 len_bit0 len_num1 mod_less) simp
qed

lemma days_before_month_Suc:
  "m < 12 \<Longrightarrow> days_before_month leap (Suc m) = days_before_month leap m + month_lengths leap ! m"
  by (simp add: days_before_month_def take_Suc_conv_app_nth)

lemma days_before_month_12: "days_before_month leap 12 = (if leap then 366 else 365)"
  by (simp add: days_before_month_def month_lengths_def)

lemma gm_month_loop_spec:
  assumes "m \<le> 12" "days_before_month leap m * 86400 + unat s < days_before_month leap 12 * 86400"
  shows "\<exists>m' s'. gm_month_loop leap m s = Some (m', s') \<and> m' < 12
    \<and> unat s' < month_lengths leap ! m' * 86400
    \<and> days_before_month leap m * 86400 + unat s = days_before_month leap m' * 86400 + unat s'"
  using assms
proof (induction leap m s rule: gm_month_loop.induct)
  case (1 leap m s)
  then have m: "m < 12" by (cases "m = 12") auto
  let ?n = "LUM_SEC_PER_MT leap ! m"
  show ?case
  proof (cases "s < ?n")
    case True
    with m show ?thesis
      by (auto simp: gm_month_loop.simps [of leap m s] word_less_nat_alt LUM_SEC_PER_MT_nth)
  next
    case False
    then have "unat (s - ?n) + month_lengths leap ! m * 86400 = unat s"
      using m by (simp add: unat_sub word_le_nat_alt not_less LUM_SEC_PER_MT_nth)
    with 1 m False show ?thesis
      by (auto simp: gm_month_loop.simps [of leap m s] days_before_month_Suc algebra_simps)
  qed
qed


section \<open>The weekday\<close>

lemma leap_div_step:
  "Suc k div 4 + Suc k div 400 + k div 100
     = k div 4 + k div 400 + Suc k div 100 + of_bool (leap_year (Suc k))"
proof -
  have q: "Suc k div n = k div n + of_bool (Suc k mod n = 0)" for n
    by (simp add: div_Suc)
  have "Suc k mod 100 = 0 \<longrightarrow> Suc k mod 4 = 0" "Suc k mod 400 = 0 \<longrightarrow> Suc k mod 100 = 0"
    by (auto simp: mod_eq_0_iff_dvd intro: dvd_trans [of 4 100] dvd_trans [of 100 400])
  then show ?thesis
    unfolding q [of 4] q [of 100] q [of 400] leap_year_def by (auto simp: of_bool_def)
qed

lemma days_before_year_closed:
  "1970 \<le> y \<Longrightarrow> days_before_year y + 719162 + (y - 1) div 100
     = 365 * (y - 1) + (y - 1) div 4 + (y - 1) div 400"
proof (induction y rule: nat_induct_at_least)
  case base
  then show ?case by (simp add: days_before_year_def)
next
  case (Suc y)
  have dy: "days_in_year y = 365 + of_bool (leap_year y)" by (simp add: days_in_year_def)
  obtain k where k: "y = Suc k" using Suc.hyps by (cases y) auto
  have sum: "a + c + b' = a' + c' + b + e \<Longrightarrow> d + 719162 + b' = 365 * k + a' + c' \<Longrightarrow>
      d + (365 + e) + 719162 + b = 365 * Suc k + a + c" for a b c a' b' c' d e :: nat
    by simp
  show ?case
    using sum [OF leap_div_step [of k] Suc.IH [unfolded k diff_Suc_1]] Suc.hyps
    unfolding k by (simp only: days_before_year_Suc dy [unfolded k] diff_Suc_1)
qed

definition century_days :: "int \<Rightarrow> int" where
  "century_days y = y + y div 4 - y div 100 + y div 400"

lemma century_days_step:
  assumes "1970 \<le> y"
  shows "century_days (int y) = century_days (int (y - 1)) + 1 + (if leap_year y then 1 else 0)"
proof -
  obtain k where k: "y = Suc k" using assms by (cases y) auto
  have c: "century_days (int n) = int n + int (n div 4) - int (n div 100) + int (n div 400)" for n
    by (simp add: century_days_def zdiv_int)
  have sum: "a + c' + b' = a' + d + b + e \<Longrightarrow>
      int (Suc k) + int a - int b + int c' = int k + int a' - int b' + int d + 1 + int e"
    for a b c' a' b' d e :: nat by simp
  show ?thesis
    using sum [OF leap_div_step [of k]] unfolding k c diff_Suc_1 of_bool_def of_nat_of_bool
    by (cases "leap_year (Suc k)") (simp_all only: if_True if_False of_nat_0 of_nat_1)
qed

lemma days_before_year_mod_7:
  assumes "1970 \<le> y"
  shows "(int (days_before_year y) + 3) mod 7 = century_days (int (y - 1)) mod 7"
proof -
  define k where "k = y - 1"
  have "int (days_before_year y) + 719162 = 364 * int k + century_days (int k)"
    using arg_cong [OF days_before_year_closed [OF assms, folded k_def], of int]
    by (simp add: century_days_def zdiv_int)
  then have "int (days_before_year y) + 3 =
    century_days (int k) + 7 * (52 * int k - 102737)" by simp
  then show ?thesis unfolding k_def by (simp only: mod_mult_self2)
qed

lemma week_table:
  assumes "m < 12"
  shows "((if m + 1 < 3 then 0 else 1 + (if leap then 1 else 0)) + LUM_WEEK_DAY_INFO ! m) mod 7
    = int (days_before_month leap m) mod 7"
proof -
  have "m \<in> {0, 1, 2, 3, 4, 5, 6, 7, 8, 9, 10, 11}"
    using assms by (simp only: insert_iff empty_iff) arith
  then show ?thesis
    by (elim insertE emptyE)
      (simp_all add: LUM_WEEK_DAY_INFO_def days_before_month_def month_lengths_def numeral_eq_Suc)
qed

lemma lum_getDayOfWeek_eq:
  assumes y: "1970 \<le> unat y" and m: "mm < 12" and d: "1 \<le> unat d"
  shows "unat (lum_getDayOfWeek (of_nat mm + 1) d y)
    = (days_before_year (unat y) + days_before_month (leap_year (unat y)) mm + (unat d - 1) + 4) mod 7"
proof -
  let ?c = "century_days (int (unat y - 1))"
  let ?adj = "(if mm + 1 < 3 then 0 else 1 + (if leap_year (unat y) then 1 else 0)) :: int"
  have mm: "unat (of_nat mm + 1 :: u8) = mm + 1"
    using m by (simp add: unat_word_ariths unat_of_nat)
  have y1: "unat (y - 1) = unat y - 1"
    using y by (simp add: unat_sub word_le_nat_alt)
  have iu: "uint (w :: u16) = int (unat w)" "uint d = int (unat d)" for w by simp_all
  have "((of_nat mm + 1 :: u8) < 3) = (mm + 1 < 3)"
    by (simp add: word_less_nat_alt mm)
  then have "lum_getDayOfWeek (of_nat mm + 1) d y
    = of_int ((century_days (int (if mm + 1 < 3 then unat y - 1 else unat y))
        + LUM_WEEK_DAY_INFO ! mm + int (unat d)) mod 7)"
    by (simp add: lum_getDayOfWeek_def Let_def mm century_days_def iu y1 del: of_nat_unat)
  also have "(century_days (int (if mm + 1 < 3 then unat y - 1 else unat y))
        + LUM_WEEK_DAY_INFO ! mm + int (unat d)) mod 7
    = (?c + (?adj + LUM_WEEK_DAY_INFO ! mm) + int (unat d)) mod 7"
    using century_days_step [OF y] by (simp add: algebra_simps)
  also have "\<dots> = (int (days_before_year (unat y)) + 3
      + int (days_before_month (leap_year (unat y)) mm) + int (unat d)) mod 7"
    using days_before_year_mod_7 [OF y] week_table [OF m, of "leap_year (unat y)"]
    by (intro mod_add_cong) simp_all
  also have "\<dots> = int ((days_before_year (unat y) + days_before_month (leap_year (unat y)) mm
      + (unat d - 1) + 4) mod 7)"
    using d by (simp add: zmod_int algebra_simps)
  finally show ?thesis by (simp add: unat_of_nat)
qed


section \<open>Correctness of the conversion\<close>

lemma gm_loops:
  obtains y s1 m s2 where "gm_year_loop 1970 sec = (y, s1)" "1970 \<le> unat y"
    "gm_month_loop (lum_bLeapYear y) 0 s1 = Some (m, s2)" "m < 12"
    "unat s2 < month_lengths (leap_year (unat y)) ! m * 86400"
    "unat sec = (days_before_year (unat y) + days_before_month (leap_year (unat y)) m) * 86400
       + unat s2"
proof -
  obtain y s1 where y: "gm_year_loop 1970 sec = (y, s1)" by (cases "gm_year_loop 1970 sec") auto
  have "unat sec div 31536000 < 137"
    using unsigned_less [of sec, where 'a = nat] by simp
  then have ys: "unat s1 < days_in_year (unat y) * 86400" "1970 \<le> unat y"
    "unat sec = days_before_year (unat y) * 86400 + unat s1"
    using gm_year_loop_spec [OF y] by (auto simp: days_before_year_def)
  let ?l = "leap_year (unat y)"
  have z: "days_before_month ?l 0 = 0" by (simp add: days_before_month_def)
  have "days_before_month ?l 0 * 86400 + unat s1 < days_before_month ?l 12 * 86400"
    using ys(1) z by (simp add: days_before_month_12 days_in_year_def)
  from gm_month_loop_spec [OF _ this] obtain m s2 where
    ms: "gm_month_loop ?l 0 s1 = Some (m, s2)" "m < 12"
    "unat s2 < month_lengths ?l ! m * 86400"
    "days_before_month ?l 0 * 86400 + unat s1 = days_before_month ?l m * 86400 + unat s2"
    by auto
  show thesis
    using that [OF y ys(2)] ms ys(3) z by (simp add: lum_bLeapYear_eq algebra_simps)
qed

lemma split_day:
  fixes s2 :: u32
  assumes "unat s2 < n * 86400" "n \<le> 31"
  defines "d \<equiv> ucast (s2 div LUM_SEC_PER_DY) + 1 :: u8"
    and "h \<equiv> ucast (s2 mod LUM_SEC_PER_DY div LUM_SEC_PER_HR) :: u8"
    and "mi \<equiv> ucast (s2 mod LUM_SEC_PER_DY mod LUM_SEC_PER_HR div 60) :: u8"
    and "se \<equiv> ucast (s2 mod LUM_SEC_PER_DY mod LUM_SEC_PER_HR mod 60) :: u8"
  shows "1 \<le> unat d \<and> unat d \<le> n \<and> unat h < 24 \<and> unat mi < 60 \<and> unat se < 60
    \<and> unat s2 = (unat d - 1) * 86400 + unat h * 3600 + unat mi * 60 + unat se"
proof -
  let ?s = "unat s2"
  note defs = LUM_SEC_PER_DY_def LUM_SEC_PER_HR_def
  have q: "?s div 86400 < n" using assms(1) by (simp add: less_mult_imp_div_less)
  have d: "unat d = Suc (?s div 86400)"
    using q assms(2) unfolding d_def defs
    by (simp add: unat_word_ariths unat_div_distrib unsigned_ucast_eq take_bit_eq_mod)
  have u: "unat (ucast w :: u8) = unat w" if "unat w < 256" for w :: u32
    using that by (simp add: unsigned_ucast_eq take_bit_eq_mod)
  have h: "unat h = ?s mod 86400 div 3600"
    unfolding h_def defs
    by (subst u) (simp_all add: unat_div_distrib unat_mod_distrib less_mult_imp_div_less)
  have mi: "unat mi = ?s mod 86400 mod 3600 div 60"
    unfolding mi_def defs
    by (subst u) (simp_all add: unat_div_distrib unat_mod_distrib less_mult_imp_div_less)
  have se: "unat se = ?s mod 86400 mod 3600 mod 60"
    unfolding se_def defs
    by (subst u) (simp_all add: unat_mod_distrib)
  have "x = x div k * k + x mod k" for x k :: nat by simp
  from this [of ?s 86400] this [of "?s mod 86400" 3600] this [of "?s mod 86400 mod 3600" 60]
  have "?s = ?s div 86400 * 86400 + ?s mod 86400 div 3600 * 3600
      + ?s mod 86400 mod 3600 div 60 * 60 + ?s mod 86400 mod 3600 mod 60" by linarith
  then show ?thesis
    using q unfolding d h mi se
    by (simp add: less_mult_imp_div_less)
qed

lemma gmtime_calendar:
  "\<exists>t. lum_gmtime sec = Some t \<and> valid_date t \<and> seconds_of t = unat sec
     \<and> unat (week t) = (days_of t + 4) mod 7"
proof -
  obtain y s1 m s2 where l: "gm_year_loop 1970 sec = (y, s1)" "1970 \<le> unat y"
    "gm_month_loop (lum_bLeapYear y) 0 s1 = Some (m, s2)" "m < 12"
    "unat s2 < month_lengths (leap_year (unat y)) ! m * 86400"
    "unat sec = (days_before_year (unat y) + days_before_month (leap_year (unat y)) m) * 86400
       + unat s2" by (rule gm_loops)
  define t where "t = \<lparr>year = y, month = of_nat m, day = ucast (s2 div LUM_SEC_PER_DY) + 1,
      week = lum_getDayOfWeek (of_nat m + 1) (ucast (s2 div LUM_SEC_PER_DY) + 1) y,
      hour = ucast (s2 mod LUM_SEC_PER_DY div LUM_SEC_PER_HR),
      minute = ucast (s2 mod LUM_SEC_PER_DY mod LUM_SEC_PER_HR div 60),
      second = ucast (s2 mod LUM_SEC_PER_DY mod LUM_SEC_PER_HR mod 60)\<rparr>"
  have m: "unat (of_nat m :: u8) = m" using l(4) by (simp add: unat_of_nat)
  have t: "lum_gmtime sec = Some t"
    unfolding lum_gmtime_def Let_def l(1) prod.case l(3) Option.bind.simps t_def by simp
  note sd = split_day [OF l(5) month_lengths_le [OF l(4)]]
  have v: "valid_date t" "unat s2 = (unat (day t) - 1) * 86400 + unat (hour t) * 3600
      + unat (minute t) * 60 + unat (second t)" "1 \<le> unat (day t)" "unat (month t) = m"
    using sd l(2,4) by (simp_all add: t_def valid_date_def m)
  then have "seconds_of t = unat sec"
    using l(6) by (simp add: seconds_of_def days_of_def t_def algebra_simps)
  moreover have "unat (week t) = (days_of t + 4) mod 7"
    using lum_getDayOfWeek_eq [OF l(2,4), of "day t"] v(3,4) by (simp add: t_def days_of_def)
  ultimately show ?thesis using t v(1) by blast
qed

lemma lum_gmtime_total: "lum_gmtime sec \<noteq> None"
  using gmtime_calendar [of sec] by auto

lemma lum_gmtime_ranges:
  assumes "lum_gmtime sec = Some t"
  shows "unat (hour t) < 24" "unat (minute t) < 60" "unat (second t) < 60" "unat (week t) < 7"
  using gmtime_calendar [of sec] assms by (auto simp: valid_date_def)

text \<open>
  Property C23: on every 32-bit second count \<open>lum_gmtime\<close> terminates without indexing past
  the month table, and the fields it fills in are the Gregorian date and time of that second:
  the date is valid, converting it back gives the second count, and the weekday is the day
  count plus four modulo seven (1970-01-01 was a Thursday).
\<close>

theorem lum_gmtime_correct:
  "\<exists>t. lum_gmtime sec = Some t \<and> valid_date t \<and> seconds_of t = unat sec
     \<and> unat (week t) = (days_of t + 4) mod 7"
  by (rule gmtime_calendar)

end
