(* ===== verification/Device_Types.thy ===== *)
theory Device_Types
  imports Prelude
begin

text \<open>
  The data of \<open>itoCommon.h\<close> for the configured product (\<open>lumitekConfig.h\<close> selects
  \<open>P3_Config.h\<close>): the saved configuration, the run-time data and their parts.  A one-byte
  bit-field structure is its byte, bit 0 first as on the little-endian target.
\<close>

section \<open>Constants\<close>

abbreviation (input) "MAX_ALARM_COUNT \<equiv> 32"
abbreviation (input) "MAX_ABSENCE_COUNT \<equiv> 10"
abbreviation (input) "MAX_COUNTDOWN_COUNT \<equiv> 1"
abbreviation (input) "ADD_ALARM_INDEX_EMPTY \<equiv> 0xFE"
abbreviation (input) "INVALID_ALARM_FLAG \<equiv> 0xFF"
abbreviation (input) "DEVICE_NAME_LEN \<equiv> 20"
abbreviation (input) "MAX_USER_NAME_LEN \<equiv> 50"
abbreviation (input) "MAX_UPGRADE_URL_LEN \<equiv> 110"
abbreviation (input) "AES_KEY_LEN \<equiv> 16"
abbreviation (input) "DEVICE_MAC_LEN \<equiv> 6"
abbreviation (input) "INVALID_SN_NUM \<equiv> 0xFFFF"
abbreviation (input) "SOFTWARE_UPGRADE_FLAG \<equiv> 0xEE"
abbreviation (input) "LUMITEK_SW_FLAG \<equiv> 0xDCBA"
abbreviation (input) "SEC_2014_01_01_00_00_00 \<equiv> 1388505600"
abbreviation (input) "SEC_2015_01_01_00_00_00 \<equiv> 1420041600"
abbreviation (input) "ONE_DAY_SECOND \<equiv> 86400"

section \<open>Enumerations\<close>

datatype msg_origin = MSG_LOCAL_EVENT | MSG_FROM_UDP | MSG_FROM_TCP

datatype aes_key_type = AES_KEY_DEFAULT | AES_KEY_LOCAL | AES_KEY_SERVER | AES_KEY_OPEN

datatype device_conn_type = DHPC_OK_BIT | BALANCE_CONN_BIT | SERVER_ADDR_BIT | SERVER_CONN_BIT

datatype switch_status = SWITCH_CLOSE | SWITCH_OPEN

section \<open>The saved configuration\<close>

text \<open>\<open>ALARM_REPEAT_DATA\<close>: Monday is bit 0, Sunday bit 6, \<open>bActive\<close> bit 7.\<close>

record alarm_data_info =
  repeatData :: u8
  startHour :: u8
  startMinute :: u8
  stopHour :: u8
  stopMinute :: u8
  reserved :: u8

record absence_data_info =
  absRepeatData :: u8
  absStartHour :: u8
  absStartMinute :: u8
  endHour :: u8
  endMinute :: u8
  timeData :: u8

record countdown_data_info =
  cdFlag :: u8
  cdAction :: u8
  cdCount :: u32

definition bActive :: "u8 \<Rightarrow> bool" where
  "bActive flags = bit flags 7"

definition set_bActive :: "bool \<Rightarrow> u8 \<Rightarrow> u8" where
  "set_bActive b flags = (if b then flags OR 0x80 else flags AND 0x7F)"

record device_name_data =
  nameLen :: u8
  nameData :: "u8 list"

record sw_upgrade_data =
  upgradeFlag :: u8
  urlData :: "u8 list"

record device_config_data =
  bLocked :: u8
  swVersion :: u8
  udpLogFlag :: u8
  deviceName :: device_name_data
  alarmData :: "alarm_data_info list"
  absenceData :: "absence_data_info list"
  countDownData :: "countdown_data_info list"
  upgradeData :: sw_upgrade_data
  needSmartLink :: u8
  userName :: "u8 list"
  lumitekFlag :: u16

text \<open>What \<open>memset(..., 0, ...)\<close> makes of each structure.\<close>

definition zero_alarm :: alarm_data_info where
  "zero_alarm = \<lparr>repeatData = 0, startHour = 0, startMinute = 0, stopHour = 0, stopMinute = 0,
     reserved = 0\<rparr>"

definition zero_absence :: absence_data_info where
  "zero_absence = \<lparr>absRepeatData = 0, absStartHour = 0, absStartMinute = 0, endHour = 0,
     endMinute = 0, timeData = 0\<rparr>"

definition zero_countdown :: countdown_data_info where
  "zero_countdown = \<lparr>cdFlag = 0, cdAction = 0, cdCount = 0\<rparr>"

definition zero_config :: device_config_data where
  "zero_config = \<lparr>bLocked = 0, swVersion = 0, udpLogFlag = 0,
     deviceName = \<lparr>nameLen = 0, nameData = replicate DEVICE_NAME_LEN 0\<rparr>,
     alarmData = replicate MAX_ALARM_COUNT zero_alarm,
     absenceData = replicate MAX_ABSENCE_COUNT zero_absence,
     countDownData = replicate MAX_COUNTDOWN_COUNT zero_countdown,
     upgradeData = \<lparr>upgradeFlag = 0, urlData = replicate MAX_UPGRADE_URL_LEN 0\<rparr>,
     needSmartLink = 0, userName = replicate MAX_USER_NAME_LEN 0, lumitekFlag = 0\<rparr>"

section \<open>Run-time data\<close>

record aes_key_data =
  localAesKeyValid :: bool
  serverAesKeyValid :: bool
  serverKey :: "u8 list"
  localKey :: "u8 list"

record socket_addr =
  port :: u16
  addrIp :: u32

record device_conn_info =
  dhcpOK :: bool
  balanceOK :: bool
  serverAdd :: bool
  serverConn :: bool

record global_run_data =
  macAddr :: "u8 list"
  devIpAddr :: u32
  keyData :: aes_key_data
  mallocCount :: u16
  socketSn :: u16
  tcpServerAddr :: socket_addr
  connInfo :: device_conn_info

definition zero_global :: global_run_data where
  "zero_global = \<lparr>macAddr = replicate DEVICE_MAC_LEN 0, devIpAddr = 0,
     keyData = \<lparr>localAesKeyValid = False, serverAesKeyValid = False,
       serverKey = replicate AES_KEY_LEN 0, localKey = replicate AES_KEY_LEN 0\<rparr>,
     mallocCount = 0, socketSn = 0, tcpServerAddr = \<lparr>port = 0, addrIp = 0\<rparr>,
     connInfo = \<lparr>dhcpOK = False, balanceOK = False, serverAdd = False, serverConn = False\<rparr>\<rparr>"

text \<open>The sizes of the arrays; the code never changes them.\<close>

definition config_shape :: "device_config_data \<Rightarrow> bool" where
  "config_shape c \<longleftrightarrow> length (alarmData c) = MAX_ALARM_COUNT
     \<and> length (absenceData c) = MAX_ABSENCE_COUNT
     \<and> length (countDownData c) = MAX_COUNTDOWN_COUNT
     \<and> length (nameData (deviceName c)) = DEVICE_NAME_LEN
     \<and> length (urlData (upgradeData c)) = MAX_UPGRADE_URL_LEN
     \<and> length (userName c) = MAX_USER_NAME_LEN"

lemma config_shape_zero [simp]: "config_shape zero_config"
  by (simp add: config_shape_def zero_config_def)

lemma bActive_set [simp]: "bActive (set_bActive b r) = b"
  by (auto simp: bActive_def set_bActive_def bit_simps)

lemma set_bActive_low: "n < 7 \<Longrightarrow> bit (set_bActive b r) n = bit r n"
proof -
  assume "n < 7"
  then have "n \<in> {0, 1, 2, 3, 4, 5, 6}" by auto
  then show ?thesis by (auto simp: set_bActive_def bit_simps)
qed

section \<open>Byte images\<close>

text \<open>The structures as they are copied into and out of packets.\<close>

definition alarm_bytes :: "alarm_data_info \<Rightarrow> u8 list" where
  "alarm_bytes a = [repeatData a, startHour a, startMinute a, stopHour a, stopMinute a, reserved a]"

fun alarm_of :: "u8 list \<Rightarrow> alarm_data_info option" where
  "alarm_of [r, sh, sm, eh, em, x] = Some \<lparr>repeatData = r, startHour = sh, startMinute = sm,
     stopHour = eh, stopMinute = em, reserved = x\<rparr>"
| "alarm_of _ = None"

definition absence_bytes :: "absence_data_info \<Rightarrow> u8 list" where
  "absence_bytes a =
     [absRepeatData a, absStartHour a, absStartMinute a, endHour a, endMinute a, timeData a]"

fun absence_of :: "u8 list \<Rightarrow> absence_data_info option" where
  "absence_of [r, sh, sm, eh, em, x] = Some \<lparr>absRepeatData = r, absStartHour = sh,
     absStartMinute = sm, endHour = eh, endMinute = em, timeData = x\<rparr>"
| "absence_of _ = None"

lemma alarm_of_bytes [simp]: "alarm_of (alarm_bytes a) = Some a"
  by (simp add: alarm_bytes_def)

lemma absence_of_bytes [simp]: "absence_of (absence_bytes a) = Some a"
  by (simp add: absence_bytes_def)

lemma length_alarm_bytes [simp]: "length (alarm_bytes a) = 6"
  by (simp add: alarm_bytes_def)

lemma length_absence_bytes [simp]: "length (absence_bytes a) = 6"
  by (simp add: absence_bytes_def)

end
