(* ===== verification/Linked_List.thy ===== *)
theory Linked_List
  imports Prelude
begin

text \<open>
  The singly linked lists of \<open>asyncMessage.c\<close> (received messages) and \<open>socketSendList.c\<close>
  (packets waiting to be sent) at the level of nodes and \<open>pNodeNext\<close> pointers.  The loops that
  walk the pointers are partial: on a cyclic or dangling list the C code does not return or
  reads a freed node, which is \<open>None\<close> here.  \<open>list_ok\<close> relates a pointer structure to
  the sequence of its nodes; both components' operations are refinements of the queue
  interface of the locale \<open>node_queue\<close>.
\<close>

section \<open>Nodes and pointers\<close>

type_synonym 'b node_heap = "nat \<Rightarrow> ('b \<times> nat option) option"

record ('b, 'n) linked_list =
  cells :: "'b node_heap"
  firstNodePtr :: "nat option"
  noteCount :: 'n

text \<open>\<open>while (p->pNodeNext != NULL) p = p->pNodeNext;\<close>\<close>

partial_function (option) last_node :: "'b node_heap \<Rightarrow> nat \<Rightarrow> nat option" where
  "last_node h a =
     Option.bind (h a) (\<lambda>c. case snd c of None \<Rightarrow> Some a | Some n \<Rightarrow> last_node h n)"

text \<open>
  The search for the node whose successor is \<open>t\<close>: \<open>Some None\<close> when the end of the list is
  reached without finding it.
\<close>

partial_function (option) pred_node :: "'b node_heap \<Rightarrow> nat \<Rightarrow> nat \<Rightarrow> nat option option" where
  "pred_node h t a =
     Option.bind (h a) (\<lambda>c. case snd c of None \<Rightarrow> Some None
       | Some n \<Rightarrow> if n = t then Some (Some a) else pred_node h t n)"

definition set_next :: "nat \<Rightarrow> nat option \<Rightarrow> 'b node_heap \<Rightarrow> 'b node_heap option" where
  "set_next a nx h = map_option (\<lambda>c. h(a \<mapsto> (fst c, nx))) (h a)"

text \<open>A node that has just been allocated, zero-filled and given its body.\<close>

definition new_node :: "nat \<Rightarrow> 'b \<Rightarrow> ('b, 'n) linked_list \<Rightarrow> ('b, 'n) linked_list" where
  "new_node a b l = l\<lparr>cells := (cells l)(a \<mapsto> (b, None))\<rparr>"

text \<open>
  The pointer work of \<open>insertListNode\<close>: whether the list is empty is decided by the U8
  counter, and insertion at the head links the new node to the second node.
\<close>

definition link_msg_node ::
    "bool \<Rightarrow> nat \<Rightarrow> ('b, u8) linked_list \<Rightarrow> ('b, u8) linked_list option" where
  "link_msg_node insetToHeader p l =
     (if noteCount l = 0 then do {
        h \<leftarrow> set_next p None (cells l);
        Some (l\<lparr>cells := h, firstNodePtr := Some p, noteCount := noteCount l + 1\<rparr>)
      } else if insetToHeader then do {
        f \<leftarrow> firstNodePtr l;
        c \<leftarrow> cells l f;
        h \<leftarrow> set_next p (snd c) (cells l);
        Some (l\<lparr>cells := h, firstNodePtr := Some p, noteCount := noteCount l + 1\<rparr>)
      } else do {
        f \<leftarrow> firstNodePtr l;
        q \<leftarrow> last_node (cells l) f;
        h \<leftarrow> set_next q (Some p) (cells l);
        h' \<leftarrow> set_next p None h;
        Some (l\<lparr>cells := h', noteCount := noteCount l + 1\<rparr>)
      })"

text \<open>The pointer work of \<open>insertSendListNode\<close>: the head pointer decides.\<close>

definition link_send_node :: "nat \<Rightarrow> ('b, u16) linked_list \<Rightarrow> ('b, u16) linked_list option" where
  "link_send_node p l =
     (case firstNodePtr l of
        None \<Rightarrow> do {
          h \<leftarrow> set_next p None (cells l);
          Some (l\<lparr>cells := h, firstNodePtr := Some p, noteCount := noteCount l + 1\<rparr>)
        }
      | Some f \<Rightarrow> do {
          q \<leftarrow> last_node (cells l) f;
          h \<leftarrow> set_next q (Some p) (cells l);
          h' \<leftarrow> set_next p None h;
          Some (l\<lparr>cells := h', noteCount := noteCount l + 1\<rparr>)
        })"

text \<open>
  The pointer work shared by \<open>deleteListNode\<close> and \<open>deleteSendListNode\<close>, and the release of
  the node: \<open>(False, l)\<close> when the list is empty or does not hold the node.
\<close>

definition unlink_node ::
    "nat \<Rightarrow> ('b, 'n::len word) linked_list \<Rightarrow> (bool \<times> ('b, 'n word) linked_list) option" where
  "unlink_node p l =
     (case firstNodePtr l of
        None \<Rightarrow> Some (False, l)
      | Some f \<Rightarrow>
          if f = p then do {
            c \<leftarrow> cells l p;
            Some (True, l\<lparr>cells := (cells l)(p := None), firstNodePtr := snd c,
                          noteCount := noteCount l - 1\<rparr>)
          } else do {
            q \<leftarrow> pred_node (cells l) p f;
            case q of None \<Rightarrow> Some (False, l)
            | Some r \<Rightarrow> do {
                c \<leftarrow> cells l p;
                h \<leftarrow> set_next r (snd c) (cells l);
                Some (True, l\<lparr>cells := h(p := None), noteCount := noteCount l - 1\<rparr>)
              }
          })"

section \<open>Chains of nodes\<close>

primrec chain :: "'b node_heap \<Rightarrow> nat option \<Rightarrow> nat list \<Rightarrow> bool" where
  "chain h p [] = (p = None)"
| "chain h p (a # as) =
     (p = Some a \<and> (case h a of None \<Rightarrow> False | Some c \<Rightarrow> chain h (snd c) as))"

definition list_ok :: "('b, 'n::len word) linked_list \<Rightarrow> nat list \<Rightarrow> bool" where
  "list_ok l as \<longleftrightarrow> chain (cells l) (firstNodePtr l) as \<and> distinct as
     \<and> noteCount l = of_nat (length as)"

definition node_body :: "('b, 'n) linked_list \<Rightarrow> nat \<Rightarrow> 'b option" where
  "node_body l a = map_option fst (cells l a)"

lemma chain_update: "a \<notin> set as \<Longrightarrow> chain (h(a := c)) p as = chain h p as"
  by (induction as arbitrary: p) (auto split: option.splits)

lemma chain_ConsD:
  "chain h p (a # as) \<Longrightarrow> \<exists>b n. p = Some a \<and> h a = Some (b, n) \<and> chain h n as"
  by (cases "h a") auto

lemma chain_alloc: "chain h p as \<Longrightarrow> a \<in> set as \<Longrightarrow> \<exists>b n. h a = Some (b, n)"
  by (induction as arbitrary: p) (auto split: option.splits)

lemma chain_Nil_iff: "chain h None as \<longleftrightarrow> as = []"
  by (cases as) auto

lemma last_node_chain:
  "chain h (Some a) as \<Longrightarrow> last_node h a = Some (last as)"
proof (induction as arbitrary: a)
  case (Cons x xs)
  then obtain b n where h: "h a = Some (b, n)" "chain h n xs" "x = a"
    using chain_ConsD [OF Cons.prems] by blast
  show ?case
  proof (cases n)
    case None
    with h show ?thesis by (subst last_node.simps) (simp add: chain_Nil_iff)
  next
    case (Some m)
    then have "last_node h m = Some (last xs)" "xs \<noteq> []"
      using Cons.IH [of m] h(2) by auto
    with h Some show ?thesis by (subst last_node.simps) simp
  qed
qed simp

lemma chain_snoc:
  assumes "chain h p as" "as \<noteq> []" "distinct as" "a \<notin> set as" "h (last as) = Some (b, n)"
    "h a = Some (c, m)"
  shows "chain (h(last as \<mapsto> (b, Some a), a \<mapsto> (c, None))) p (as @ [a])"
  using assms
proof (induction as arbitrary: p)
  case (Cons x xs)
  obtain b' n' where x: "p = Some x" "h x = Some (b', n')" "chain h n' xs"
    using chain_ConsD [OF Cons.prems(1)] by blast
  show ?case
  proof (cases "xs = []")
    case True
    with Cons.prems x show ?thesis by auto
  next
    case False
    then have "x \<noteq> last xs" "x \<noteq> a" using Cons.prems(3,4) by auto
    with Cons.IH [OF x(3)] Cons.prems False x show ?thesis by simp
  qed
qed simp

lemma pred_node_absent:
  "chain h (Some a) as \<Longrightarrow> t \<notin> set as \<Longrightarrow> pred_node h t a = Some None"
proof (induction as arbitrary: a)
  case (Cons x xs)
  then obtain b n where h: "h a = Some (b, n)" "chain h n xs" "x = a"
    using chain_ConsD [OF Cons.prems(1)] by blast
  show ?case
  proof (cases n)
    case None
    with h show ?thesis by (subst pred_node.simps) simp
  next
    case (Some m)
    then have "m \<in> set xs" using h(2) by (cases xs) auto
    with Some Cons.IH [of m] Cons.prems(2) h show ?thesis by (subst pred_node.simps) auto
  qed
qed simp

lemma pred_node_chain:
  assumes "chain h (Some a) (xs @ r # t # ys)" "distinct (xs @ r # t # ys)"
  shows "pred_node h t a = Some (Some r)"
  using assms
proof (induction xs arbitrary: a)
  case Nil
  then obtain b where "a = r" "h r = Some (b, Some t)"
    by (auto split: option.splits)
  then show ?case by (subst pred_node.simps) simp
next
  case (Cons x xs)
  obtain b n where h: "h a = Some (b, n)" "chain h n (xs @ r # t # ys)"
    using chain_ConsD [of h "Some a" x "xs @ r # t # ys"] Cons.prems(1) by auto
  obtain m where m: "n = Some m" "m \<noteq> t"
    using h(2) Cons.prems(2) by (cases xs) auto
  have "pred_node h t m = Some (Some r)"
    by (rule Cons.IH) (use h(2) m(1) Cons.prems(2) in auto)
  with h(1) m show ?case by (subst pred_node.simps) simp
qed

lemma chain_cut:
  assumes "chain h p (xs @ r # t # ys)" "distinct (xs @ r # t # ys)"
    "h r = Some (b, Some t)" "h t = Some (c, n)"
  shows "chain (h(r \<mapsto> (b, n), t := None)) p (xs @ r # ys)"
  using assms
proof (induction xs arbitrary: p)
  case Nil
  have "chain h n ys" "p = Some r" "t \<noteq> r" "t \<notin> set ys" "r \<notin> set ys"
    using Nil.prems by auto
  moreover have "chain (h(r \<mapsto> (b, n), t := None)) n ys = chain h n ys"
    using calculation by (simp only: chain_update not_False_eq_True)
  ultimately show ?case by (simp add: fun_upd_def)
next
  case (Cons x xs)
  obtain b' n' where h: "p = Some x" "h x = Some (b', n')" "chain h n' (xs @ r # t # ys)"
    using chain_ConsD [of h p x "xs @ r # t # ys"] Cons.prems(1) by auto
  have "chain (h(r \<mapsto> (b, n), t := None)) n' (xs @ r # ys)"
    by (rule Cons.IH) (use h(3) Cons.prems in auto)
  with h Cons.prems(2) show ?case by (simp add: fun_upd_def)
qed

lemma chain_next:
  "chain h p (xs @ r # t # ys) \<Longrightarrow> \<exists>b c n. h r = Some (b, Some t) \<and> h t = Some (c, n)"
proof (induction xs arbitrary: p)
  case Nil
  then show ?case by (auto split: option.splits)
next
  case (Cons x xs)
  show ?case
    using chain_ConsD [of h p x "xs @ r # t # ys"] Cons.prems Cons.IH by auto
qed

section \<open>What the list operations do to the sequence of nodes\<close>

lemma list_okD:
  assumes "list_ok l as"
  shows "chain (cells l) (firstNodePtr l) as" "distinct as" "noteCount l = of_nat (length as)"
  using assms by (auto simp: list_ok_def)

lemma node_body_Some: "node_body l a = Some b \<longleftrightarrow> (\<exists>n. cells l a = Some (b, n))"
  by (auto simp: node_body_def)

lemma new_node_ok:
  assumes "list_ok l as" "a \<notin> set as"
  shows "list_ok (new_node a b l) as" "node_body (new_node a b l) a = Some b"
  using assms by (auto simp: list_ok_def new_node_def node_body_def chain_update)

lemma length_word_zero:
  "length as < 2 ^ LENGTH('n::len) \<Longrightarrow> (of_nat (length as) = (0 :: 'n word)) = (as = [])"
  using unat_of_nat [of "length as", where 'a = 'n] by (auto simp: unat_eq_zero)

lemma link_at_end:
  assumes ok: "list_ok (l :: ('b, 'n::len word) linked_list) as" and fresh: "a \<notin> set as"
    and a: "cells l a = Some (c, m)" and ne: "as \<noteq> []"
  shows "\<exists>f q h h'. firstNodePtr l = Some f \<and> last_node (cells l) f = Some q
    \<and> set_next q (Some a) (cells l) = Some h \<and> set_next a None h = Some h'
    \<and> list_ok (l\<lparr>cells := h', noteCount := noteCount l + 1\<rparr>) (as @ [a])
    \<and> (\<forall>x. map_option fst (h' x) = map_option fst (cells l x))"
proof -
  obtain f where f: "firstNodePtr l = Some f"
    using list_okD(1) [OF ok] ne by (cases as) auto
  obtain b n where q: "cells l (last as) = Some (b, n)"
    using chain_alloc [OF list_okD(1) [OF ok]] last_in_set [OF ne] by blast
  have la: "last as \<noteq> a" using fresh ne last_in_set by metis
  have "chain ((cells l)(last as \<mapsto> (b, Some a), a \<mapsto> (c, None))) (firstNodePtr l) (as @ [a])"
    by (rule chain_snoc [OF list_okD(1) [OF ok] ne list_okD(2) [OF ok] fresh q a])
  then have "list_ok (l\<lparr>cells := (cells l)(last as \<mapsto> (b, Some a), a \<mapsto> (c, None)),
      noteCount := noteCount l + 1\<rparr>) (as @ [a])"
    using list_okD [OF ok] fresh by (simp add: list_ok_def)
  then show ?thesis
    using f q a la last_node_chain [of "cells l" f as] list_okD(1) [OF ok]
    by (auto simp: set_next_def)
qed

lemma link_first:
  assumes "list_ok (l :: ('b, 'n::len word) linked_list) []" "cells l a = Some (c, m)"
  shows "list_ok (l\<lparr>cells := (cells l)(a \<mapsto> (c, None)), firstNodePtr := Some a,
    noteCount := noteCount l + 1\<rparr>) [a]"
  using assms by (auto simp: list_ok_def)

lemma link_msg_node_ok:
  assumes ok: "list_ok l as" and fresh: "a \<notin> set as" and a: "cells l a = Some (c, m)"
    and cap: "length as < 256"
  shows "\<exists>l'. link_msg_node False a l = Some l' \<and> list_ok l' (as @ [a])
    \<and> node_body l' = node_body l"
proof (cases "as = []")
  case True
  then have "noteCount l = 0" using list_okD(3) [OF ok] by simp
  then show ?thesis
    using True link_first [of l a c m] ok a
    by (auto simp: link_msg_node_def set_next_def node_body_def)
next
  case False
  have "noteCount l \<noteq> 0"
    using list_okD(3) [OF ok] False cap by (simp add: length_word_zero)
  then show ?thesis
    using link_at_end [OF ok fresh a False]
    by (auto simp: link_msg_node_def node_body_def fun_eq_iff)
qed

lemma link_send_node_ok:
  assumes ok: "list_ok l as" and fresh: "a \<notin> set as" and a: "cells l a = Some (c, m)"
  shows "\<exists>l'. link_send_node a l = Some l' \<and> list_ok l' (as @ [a])
    \<and> node_body l' = node_body l"
proof (cases "as = []")
  case True
  then have "firstNodePtr l = None" using list_okD(1) [OF ok] by simp
  then show ?thesis
    using True link_first [of l a c m] ok a
    by (auto simp: link_send_node_def set_next_def node_body_def)
next
  case False
  then show ?thesis
    using link_at_end [OF ok fresh a False]
    by (auto simp: link_send_node_def node_body_def fun_eq_iff)
qed

lemma unlink_node_absent:
  assumes ok: "list_ok l as" and a: "a \<notin> set as"
  shows "unlink_node a l = Some (False, l)"
proof (cases "firstNodePtr l")
  case (Some f)
  then have "f \<noteq> a" using list_okD(1) [OF ok] a by (cases as) auto
  then show ?thesis
    using Some pred_node_absent [of "cells l" f as a] list_okD(1) [OF ok] a
    by (simp add: unlink_node_def)
qed (simp add: unlink_node_def)

lemma unlink_node_ok:
  assumes ok: "list_ok l as" and a: "a \<in> set as"
  shows "\<exists>l'. unlink_node a l = Some (True, l') \<and> list_ok l' (remove1 a as)
    \<and> node_body l' = (node_body l)(a := None)"
proof -
  have ch: "chain (cells l) (firstNodePtr l) as" and di: "distinct as"
    using list_okD [OF ok] by auto
  obtain f where f: "firstNodePtr l = Some f" using ch a by (cases as) auto
  have cnt: "noteCount l - 1 = of_nat (length (remove1 a as))"
  proof -
    have "length as = Suc (length (remove1 a as))"
      using a length_pos_if_in_set [OF a] by (simp add: length_remove1)
    then show ?thesis using list_okD(3) [OF ok] by simp
  qed
  show ?thesis
  proof (cases "f = a")
    case True
    obtain as' where as: "as = a # as'" using ch f True a by (cases as) auto
    obtain b n where c: "cells l a = Some (b, n)" "chain (cells l) n as'"
      using chain_ConsD [OF ch [unfolded as]] by blast
    have "chain ((cells l)(a := None)) n as'" using c(2) di as by (simp add: chain_update)
    then show ?thesis using True f c as di cnt
      by (auto simp: unlink_node_def list_ok_def node_body_def fun_eq_iff)
  next
    case False
    obtain xs ys where "as = xs @ a # ys" "a \<notin> set xs" using a by (meson split_list_first)
    moreover from this have "xs \<noteq> []" using ch f False by auto
    ultimately obtain zs r where as: "as = zs @ r # a # ys" and nz: "a \<notin> set (zs @ [r])"
      by (metis append.assoc append_Cons append_Nil rev_exhaust)
    obtain b c n where h: "cells l r = Some (b, Some a)" "cells l a = Some (c, n)"
      using chain_next ch as by metis
    have "pred_node (cells l) a f = Some (Some r)"
      using pred_node_chain [of "cells l" f zs r a ys] ch f di as by simp
    moreover have "chain ((cells l)(r \<mapsto> (b, n), a := None)) (firstNodePtr l) (zs @ r # ys)"
      using chain_cut [OF ch [unfolded as] _ h] di as by simp
    moreover have "remove1 a as = zs @ r # ys" using as nz by (auto simp: remove1_append)
    ultimately show ?thesis using f False h di as cnt nz
      by (auto simp: unlink_node_def list_ok_def node_body_def set_next_def fun_eq_iff)
  qed
qed

section \<open>The queue both lists implement\<close>

text \<open>
  What the clients of the lists rely on: a list stands for a sequence of nodes and their
  bodies, a fresh node goes to the end as long as there is room, deletion removes exactly the
  node it is given, and reports whether it was there.
\<close>

datatype 'b list_op = Add nat 'b | Del nat

primrec queue_step :: "'b list_op \<Rightarrow> (nat \<times> 'b) list \<Rightarrow> (nat \<times> 'b) list" where
  "queue_step (Add a b) q = q @ [(a, b)]"
| "queue_step (Del a) q = filter (\<lambda>x. fst x \<noteq> a) q"

primrec queue_admits :: "(nat \<Rightarrow> bool) \<Rightarrow> 'b list_op list \<Rightarrow> (nat \<times> 'b) list \<Rightarrow> bool" where
  "queue_admits room [] q = True"
| "queue_admits room (x # xs) q =
     ((case x of Add a b \<Rightarrow> a \<notin> fst ` set q \<and> room (length q) | Del a \<Rightarrow> True)
      \<and> queue_admits room xs (queue_step x q))"

primrec run_list_ops ::
    "(nat \<Rightarrow> 'b \<Rightarrow> 's \<Rightarrow> 's option) \<Rightarrow> (nat \<Rightarrow> 's \<Rightarrow> (bool \<times> 's) option)
     \<Rightarrow> 'b list_op list \<Rightarrow> 's \<Rightarrow> 's option" where
  "run_list_ops add del [] s = Some s"
| "run_list_ops add del (x # xs) s =
     Option.bind (case x of Add a b \<Rightarrow> add a b s | Del a \<Rightarrow> map_option snd (del a s))
       (run_list_ops add del xs)"

locale node_queue =
  fixes repr :: "'s \<Rightarrow> nat list \<Rightarrow> bool"
    and body :: "'s \<Rightarrow> nat \<Rightarrow> 'b option"
    and add :: "nat \<Rightarrow> 'b \<Rightarrow> 's \<Rightarrow> 's option"
    and del :: "nat \<Rightarrow> 's \<Rightarrow> (bool \<times> 's) option"
    and room :: "nat \<Rightarrow> bool"
  assumes repr_distinct: "repr s as \<Longrightarrow> distinct as"
    and repr_body: "repr s as \<Longrightarrow> a \<in> set as \<Longrightarrow> \<exists>b. body s a = Some b"
    and add_repr: "repr s as \<Longrightarrow> a \<notin> set as \<Longrightarrow> room (length as) \<Longrightarrow>
      \<exists>s'. add a b s = Some s' \<and> repr s' (as @ [a]) \<and> body s' = (body s)(a \<mapsto> b)"
    and del_repr: "repr s as \<Longrightarrow> a \<in> set as \<Longrightarrow>
      \<exists>s'. del a s = Some (True, s') \<and> repr s' (remove1 a as) \<and> body s' = (body s)(a := None)"
    and del_absent: "repr s as \<Longrightarrow> a \<notin> set as \<Longrightarrow> del a s = Some (False, s)"
begin

definition contents :: "'s \<Rightarrow> (nat \<times> 'b) list \<Rightarrow> bool" where
  "contents s q \<longleftrightarrow> repr s (map fst q) \<and> (\<forall>x \<in> set q. body s (fst x) = Some (snd x))"

lemma contents_distinct: "contents s q \<Longrightarrow> distinct (map fst q)"
  using repr_distinct by (auto simp: contents_def)

lemma add_contents:
  assumes c: "contents s q" and fresh: "a \<notin> fst ` set q" and r: "room (length q)"
  shows "\<exists>s'. add a b s = Some s' \<and> contents s' (q @ [(a, b)])"
proof -
  obtain s' where s': "add a b s = Some s'" "repr s' (map fst q @ [a])" "body s' = (body s)(a \<mapsto> b)"
    using add_repr [of s "map fst q" a b] assms by (auto simp: contents_def)
  have "contents s' (q @ [(a, b)])"
    using s'(2,3) c fresh by (auto simp: contents_def)
  with s'(1) show ?thesis by blast
qed

lemma filter_fst:
  "distinct (map fst q) \<Longrightarrow> map fst (filter (\<lambda>x. fst x \<noteq> a) q) = remove1 a (map fst q)"
  by (simp add: distinct_remove1_removeAll removeAll_filter_not_eq filter_map comp_def eq_commute)

lemma del_contents:
  assumes c: "contents s q"
  shows "\<exists>s'. del a s = Some (a \<in> fst ` set q, s')
    \<and> contents s' (filter (\<lambda>x. fst x \<noteq> a) q)"
proof (cases "a \<in> set (map fst q)")
  case True
  obtain s' where s': "del a s = Some (True, s')" "repr s' (remove1 a (map fst q))"
    "body s' = (body s)(a := None)"
    using del_repr [of s "map fst q" a] c True by (auto simp: contents_def)
  have "contents s' (filter (\<lambda>x. fst x \<noteq> a) q)"
    using s'(2,3) c filter_fst [OF contents_distinct [OF c], of a] by (auto simp: contents_def)
  with s'(1) True show ?thesis by auto
next
  case False
  then have q: "filter (\<lambda>x. fst x \<noteq> a) q = q" by (auto simp: filter_id_conv)
  have "del a s = Some (False, s)"
    using del_absent [of s "map fst q" a] False c by (simp add: contents_def)
  then show ?thesis using False c q by simp
qed

lemma run_contents:
  "contents s q \<Longrightarrow> queue_admits room xs q \<Longrightarrow>
    \<exists>s'. run_list_ops add del xs s = Some s' \<and> contents s' (fold queue_step xs q)"
proof (induction xs arbitrary: s q)
  case (Cons x xs)
  have "\<exists>s'. (case x of Add a b \<Rightarrow> add a b s | Del a \<Rightarrow> map_option snd (del a s)) = Some s'
      \<and> contents s' (queue_step x q)"
  proof (cases x)
    case (Add a b)
    then show ?thesis using add_contents [OF Cons.prems(1), of a b] Cons.prems(2) by auto
  next
    case (Del a)
    then show ?thesis using del_contents [OF Cons.prems(1), of a] by auto
  qed
  then show ?case using Cons.IH Cons.prems(2) by auto
qed simp

end

definition add_msg_node ::
    "nat \<Rightarrow> 'b \<Rightarrow> ('b, u8) linked_list \<Rightarrow> ('b, u8) linked_list option" where
  "add_msg_node a b l = link_msg_node False a (new_node a b l)"

definition add_send_node ::
    "nat \<Rightarrow> 'b \<Rightarrow> ('b, u16) linked_list \<Rightarrow> ('b, u16) linked_list option" where
  "add_send_node a b l = link_send_node a (new_node a b l)"

lemma new_node_body: "node_body (new_node a b l) = (node_body l)(a \<mapsto> b)"
  by (auto simp: node_body_def new_node_def)

lemma new_node_cell: "cells (new_node a b l) a = Some (b, None)"
  by (simp add: new_node_def)

lemma list_ok_body: "list_ok l as \<Longrightarrow> a \<in> set as \<Longrightarrow> \<exists>b. node_body l a = Some b"
  using chain_alloc [of "cells l" "firstNodePtr l" as a] by (auto simp: list_ok_def node_body_def)

lemma add_msg_node_ok:
  assumes "list_ok l as" "a \<notin> set as" "length as < 256"
  shows "\<exists>l'. add_msg_node a b l = Some l' \<and> list_ok l' (as @ [a])
    \<and> node_body l' = (node_body l)(a \<mapsto> b)"
  using link_msg_node_ok [of "new_node a b l" as a b None] new_node_ok(1) [OF assms(1,2), of b]
    new_node_cell [of a b l] assms
  by (simp add: add_msg_node_def new_node_body)

lemma add_send_node_ok:
  assumes "list_ok l as" "a \<notin> set as"
  shows "\<exists>l'. add_send_node a b l = Some l' \<and> list_ok l' (as @ [a])
    \<and> node_body l' = (node_body l)(a \<mapsto> b)"
  using link_send_node_ok [of "new_node a b l" as a b None] new_node_ok(1) [OF assms(1,2), of b]
    new_node_cell [of a b l] assms
  by (simp add: add_send_node_def new_node_body)

interpretation msg_queue: node_queue list_ok node_body add_msg_node unlink_node "\<lambda>n. n < 256"
  by unfold_locales
    (erule list_okD(2), erule (1) list_ok_body, erule (2) add_msg_node_ok,
     erule (1) unlink_node_ok, erule (1) unlink_node_absent)

interpretation send_queue: node_queue list_ok node_body add_send_node unlink_node "\<lambda>n. True"
  by unfold_locales
    (erule list_okD(2), erule (1) list_ok_body, erule (1) add_send_node_ok,
     erule (1) unlink_node_ok, erule (1) unlink_node_absent)

section \<open>Properties of the two lists\<close>

text \<open>
  Property C12: the message list is a queue: any sequence of insertions and deletions with at most
  256 messages waiting at a time returns, and the nodes reached from the head then carry the
  bodies that a list of messages would hold after the same operations, in the same order.
\<close>

theorem message_list_is_queue:
  "list_ok l (map fst q) \<Longrightarrow> \<forall>x \<in> set q. node_body l (fst x) = Some (snd x) \<Longrightarrow>
   queue_admits (\<lambda>n. n < 256) xs q \<Longrightarrow>
   \<exists>l'. run_list_ops add_msg_node unlink_node xs l = Some l'
     \<and> list_ok l' (map fst (fold queue_step xs q))
     \<and> (\<forall>x \<in> set (fold queue_step xs q). node_body l' (fst x) = Some (snd x))"
  using msg_queue.run_contents [of l q xs] by (simp add: msg_queue.contents_def)

definition empty_list :: "('b, 'n::len word) linked_list" where
  "empty_list = \<lparr>cells = \<lambda>_. None, firstNodePtr = None, noteCount = 0\<rparr>"

lemma empty_list_ok: "list_ok empty_list []"
  by (simp add: list_ok_def empty_list_def)

theorem message_list_is_queue_witness:
  "\<exists>l'. run_list_ops add_msg_node unlink_node [Add 1 ''a'', Add 2 ''b'', Add 3 ''c'', Del 2] empty_list = Some l'
     \<and> list_ok l' [1, 3] \<and> node_body l' 3 = Some ''c''"
  using message_list_is_queue [of empty_list "[]" "[Add 1 ''a'', Add 2 ''b'', Add 3 ''c'', Del 2]"]
    empty_list_ok by auto

text \<open>
  Property C13: the send list is a queue of any length: its head pointer, not its counter, tells
  whether it is empty.
\<close>

theorem send_list_is_queue:
  "list_ok l (map fst q) \<Longrightarrow> \<forall>x \<in> set q. node_body l (fst x) = Some (snd x) \<Longrightarrow>
   queue_admits (\<lambda>_. True) xs q \<Longrightarrow>
   \<exists>l'. run_list_ops add_send_node unlink_node xs l = Some l'
     \<and> list_ok l' (map fst (fold queue_step xs q))
     \<and> (\<forall>x \<in> set (fold queue_step xs q). node_body l' (fst x) = Some (snd x))"
  using send_queue.run_contents [of l q xs] by (simp add: send_queue.contents_def)

theorem send_list_is_queue_witness:
  "\<exists>l'. run_list_ops add_send_node unlink_node [Add 1 ''a'', Add 2 ''b'', Del 1] empty_list = Some l'
     \<and> list_ok l' [2] \<and> node_body l' 2 = Some ''b''"
  using send_list_is_queue [of empty_list "[]" "[Add 1 ''a'', Add 2 ''b'', Del 1]"]
    empty_list_ok by auto


lemma queue_admits_adds:
  "n \<le> 256 \<Longrightarrow> queue_admits (\<lambda>n. n < 256) (map (\<lambda>i. Add i b) [k..<n]) (map (\<lambda>i. (i, b)) [0..<k])"
proof (induction "n - k" arbitrary: k)
  case (Suc m)
  then have "[k..<n] = k # [Suc k..<n]" by (simp add: upt_rec)
  moreover have "queue_admits (\<lambda>n. n < 256) (map (\<lambda>i. Add i b) [Suc k..<n]) (map (\<lambda>i. (i, b)) [0..<Suc k])"
    using Suc.hyps(1) [of "Suc k"] Suc.hyps(2) Suc.prems by simp
  ultimately show ?case using Suc by auto
qed simp


end
