(* ===== verification/Device.thy ===== *)
theory Device
  imports Device_Types Linked_List
begin

text \<open>
  The state of the firmware and its environment.  All static variables of the modelled files
  are the fields of one record \<open>device\<close>.  The SDK (\<open>hsf.h\<close>, lwip, the C library's \<open>rand\<close>) is not
  part of the sources: its calls are recorded, latest first, in the field \<open>trace\<close>, and what a
  call answers is a function of that trace, given by the parameter of type \<open>sdk\<close> that every
  operation below takes.  Operations whose C code can leave defined behaviour (a read or write
  outside a buffer, a NULL dereference) have type \<open>device option\<close>, \<open>None\<close> being that case.
\<close>

section \<open>The SDK\<close>

datatype pin = HFGPIO_F_KEY | HFGPIO_F_WIFI_LED | HFGPIO_F_SWITCH

datatype mutex = g_message_mutex | g_sendList_mutex | g_tcp_socket_mutex | g_udp_socket_mutex

datatype timer_id = GET_UTC_TIMER_ID | HEARTBEAT_TIMER_ID | CHECK_TIME_TIMER_ID
  | DEVICE_KEY_TIMER_ID | WIFI_LED_TIMER_ID | KEY_IRQ_DEBOUNCE_TIMER_ID
  | REPORT_FACTORY_RESET_TIMER_ID | TCP_HEART_TIMEOUT_TIMER_ID

datatype sdk_call =
    Malloc nat | Free
  | Mutex_new mutex | Mutex_lock mutex | Mutex_unlock mutex
  | Userbin_write device_config_data | Userbin_read | Userbin_zero
  | Get_time | Rand
  | Pin_read pin | Pin_high pin | Pin_low pin
  | Irq_enable pin | Irq_disable pin | Irq_configure pin
  | Timer_create timer_id u32 | Timer_change timer_id u32 | Timer_stop timer_id
  | Timer_delete timer_id | Timer_is_adjust
  | At_cmd "u8 list" | Get_reset_reason | Sys_reset | Msleep nat
  | Gethostbyname "u8 list" | Socket_open | Socket_option int | Socket_nonblock int
  | Socket_bind int u16 | Socket_close int | Socket_connect int socket_addr
  | Select_read int nat | Select_write int
  | Socket_recv int nat | Socket_recvfrom int nat | Socket_send int "u8 list" | Socket_sendto int u16 u32 "u8 list"
  | Watchdog_enable nat | Watchdog_reset | Watchdog_disable_all | Watchdog_enable_all
  | Register_event | Thread_create string | Thread_destroy
  | Debug_level | Udp_broadcast_port u16 u16
  | Parse_url "u8 list" | Http_open "u8 list" | Http_request | Http_read nat | Http_close
  | Update_start | Update_write nat "u8 list" | Update_complete nat

record sdk =
  hfmem_malloc :: "sdk_call list \<Rightarrow> nat \<Rightarrow> bool"
  hfsys_get_time :: "sdk_call list \<Rightarrow> u32"
  c_rand :: "sdk_call list \<Rightarrow> nat"
  hfgpio_fpin_is_high :: "sdk_call list \<Rightarrow> pin \<Rightarrow> bool"
  hffile_userbin_read :: "sdk_call list \<Rightarrow> device_config_data"
  hftimer_create :: "sdk_call list \<Rightarrow> timer_id \<Rightarrow> bool"
  hfat_send_cmd :: "sdk_call list \<Rightarrow> u8 list \<Rightarrow> u8 list"
  hfat_get_words :: "u8 list \<Rightarrow> nat \<Rightarrow> u8 list list"
  inet_addr :: "u8 list \<Rightarrow> u32"
  hfsys_get_reset_reason :: "sdk_call list \<Rightarrow> u32"
  hfnet_gethostbyname :: "sdk_call list \<Rightarrow> u8 list \<Rightarrow> u32 option"
  c_socket :: "sdk_call list \<Rightarrow> int"
  c_connect :: "sdk_call list \<Rightarrow> int \<Rightarrow> bool"
  c_select :: "sdk_call list \<Rightarrow> int \<Rightarrow> bool"
  c_recv :: "sdk_call list \<Rightarrow> int \<Rightarrow> nat \<Rightarrow> u8 list option"
  c_recvfrom :: "sdk_call list \<Rightarrow> int \<Rightarrow> nat \<Rightarrow> u8 list option \<times> u32"
  hfhttp_parse_URL :: "sdk_call list \<Rightarrow> u8 list \<Rightarrow> bool"
  hfhttp_open_session :: "sdk_call list \<Rightarrow> bool"
  hfhttp_send_request :: "sdk_call list \<Rightarrow> bool"
  hfhttp_read_content :: "sdk_call list \<Rightarrow> nat \<Rightarrow> u8 list option"
  hfupdate_complete :: "sdk_call list \<Rightarrow> nat \<Rightarrow> bool"
  uninitialised :: "sdk_call list \<Rightarrow> nat \<Rightarrow> u8 list"

text \<open>
  \<open>hffile_userbin_write\<close> stores the whole configuration and \<open>hffile_userbin_read\<close> returns what
  was stored last: the documented behaviour of the userbin file, a hypothesis of the
  properties that need it.
\<close>

definition userbin_persistent :: "sdk \<Rightarrow> bool" where
  "userbin_persistent E \<longleftrightarrow> (\<forall>c tr. hffile_userbin_read E (Userbin_write c # tr) = c)
     \<and> (\<forall>x tr. (\<forall>c. x \<noteq> Userbin_write c) \<longrightarrow> x \<noteq> Userbin_zero \<longrightarrow>
          hffile_userbin_read E (x # tr) = hffile_userbin_read E tr)"

section \<open>The state\<close>

record msg_node_body =
  bReback :: bool
  cmdData :: u16
  snIndex :: u16
  dataLen :: u16
  pData :: "u8 list option"
  msgOrigin :: msg_origin
  socketIp :: u32

record send_node_data =
  sendSn :: u16
  sendLen :: u16
  sendCmd :: u8
  sendData :: "u8 list option"
  sendOrigin :: msg_origin
  sendIp :: u32
  sendReback :: u8
  sendCount :: u8
  faildTimes :: u8
  nextSendTime :: u32

record device =
  deviceConfigData :: device_config_data
  globalData :: global_run_data
  msgList :: "(msg_node_body, u8) linked_list"
  sendList :: "(send_node_data, u16) linked_list"
  nextAddr :: nat
  lastUTCTime :: u32
  lastSystemTime :: u32
  absenceRunning :: bool
  nextAbsenceMinute :: u16
  lastCheckMinute :: u8
  wifiLedPeriod :: u16
  bLongPress :: bool
  keyPressed :: bool
  timers :: "timer_id \<Rightarrow> bool"
  tcpSocketFd :: int
  udpSocketFd :: int
  udpLogSocketFd :: int
  trace :: "sdk_call list"

text \<open>The static initialisers, before \<open>lumitekITOMain\<close> runs.\<close>

definition power_on :: device where
  "power_on = \<lparr>deviceConfigData = zero_config, globalData = zero_global,
     msgList = \<lparr>cells = \<lambda>_. None, firstNodePtr = None, noteCount = 0\<rparr>,
     sendList = \<lparr>cells = \<lambda>_. None, firstNodePtr = None, noteCount = 0\<rparr>,
     nextAddr = 0, lastUTCTime = 0, lastSystemTime = 0,
     absenceRunning = False, nextAbsenceMinute = 0xFFFF, lastCheckMinute = 0xFF,
     wifiLedPeriod = 0, bLongPress = False, keyPressed = False, timers = \<lambda>_. False,
     tcpSocketFd = -1, udpSocketFd = -1, udpLogSocketFd = -1, trace = []\<rparr>"

definition call :: "sdk_call \<Rightarrow> device \<Rightarrow> device" where
  "call c d = d\<lparr>trace := c # trace d\<rparr>"

definition upd_config :: "(device_config_data \<Rightarrow> device_config_data) \<Rightarrow> device \<Rightarrow> device" where
  "upd_config f d = d\<lparr>deviceConfigData := f (deviceConfigData d)\<rparr>"

definition upd_global :: "(global_run_data \<Rightarrow> global_run_data) \<Rightarrow> device \<Rightarrow> device" where
  "upd_global f d = d\<lparr>globalData := f (globalData d)\<rparr>"

text \<open>
  The idiom of every software timer: a static handle, created on first use with
  \<open>hftimer_create\<close> and then set with \<open>hftimer_change_period\<close>.
\<close>

definition restart_timer :: "sdk \<Rightarrow> timer_id \<Rightarrow> u32 \<Rightarrow> u32 \<Rightarrow> device \<Rightarrow> device" where
  "restart_timer E t p0 p d =
     call (Timer_change t p)
       (if timers d t then d
        else (call (Timer_create t p0) d)\<lparr>timers := (timers d)(t := hftimer_create E (trace d) t)\<rparr>)"

section \<open>Memory\<close>

text \<open>\<open>mallocSocketData\<close> allocates one byte more than asked and zero-fills the block.\<close>

definition mallocSocketData :: "sdk \<Rightarrow> nat \<Rightarrow> device \<Rightarrow> u8 list option \<times> device" where
  "mallocSocketData E n d =
     (let d1 = call (Malloc (n + 1)) d
      in if hfmem_malloc E (trace d) (n + 1)
         then (Some (replicate (n + 1) 0),
               upd_global (\<lambda>g. g\<lparr>mallocCount :=
                 (let c = mallocCount g + 1 in if c \<ge> 0xFFFF then 100 else c)\<rparr>) d1)
         else (None, d1))"

definition FreeSocketData :: "device \<Rightarrow> device" where
  "FreeSocketData d = upd_global (\<lambda>g. g\<lparr>mallocCount := mallocCount g - 1\<rparr>) (call Free d)"

section \<open>The saved configuration\<close>

definition saveDeviceConfigData :: "device \<Rightarrow> device" where
  "saveDeviceConfigData d = call (Userbin_write (deviceConfigData d)) d"

text \<open>What the flash holds, by \<open>userbin_persistent\<close>, once the last change was saved.\<close>

fun last_saved :: "sdk_call list \<Rightarrow> device_config_data option" where
  "last_saved [] = None"
| "last_saved (Userbin_write c # tr) = Some c"
| "last_saved (Userbin_zero # tr) = None"
| "last_saved (_ # tr) = last_saved tr"

definition config_saved :: "device \<Rightarrow> bool" where
  "config_saved d \<longleftrightarrow> last_saved (trace d) = Some (deviceConfigData d)"

lemma userbin_read_last_saved:
  assumes "userbin_persistent E"
  shows "last_saved tr = Some c \<Longrightarrow> hffile_userbin_read E tr = c"
proof (induction tr rule: last_saved.induct)
  case (2 c' tr)
  then show ?case using assms by (simp add: userbin_persistent_def)
qed (use assms in \<open>auto simp: userbin_persistent_def\<close>)

lemma config_saved_save [simp]: "config_saved (saveDeviceConfigData d)"
  by (simp add: config_saved_def saveDeviceConfigData_def call_def)

section \<open>What the primitives leave alone\<close>

lemma call_frame [simp]:
  "deviceConfigData (call c d) = deviceConfigData d"
  "globalData (call c d) = globalData d"
  "msgList (call c d) = msgList d"
  "sendList (call c d) = sendList d"
  "nextAddr (call c d) = nextAddr d"
  "lastUTCTime (call c d) = lastUTCTime d"
  "lastSystemTime (call c d) = lastSystemTime d"
  "absenceRunning (call c d) = absenceRunning d"
  "nextAbsenceMinute (call c d) = nextAbsenceMinute d"
  "lastCheckMinute (call c d) = lastCheckMinute d"
  "timers (call c d) = timers d"
  "tcpSocketFd (call c d) = tcpSocketFd d"
  "udpSocketFd (call c d) = udpSocketFd d"
  "udpLogSocketFd (call c d) = udpLogSocketFd d"
  "bLongPress (call c d) = bLongPress d"
  "keyPressed (call c d) = keyPressed d"
  "wifiLedPeriod (call c d) = wifiLedPeriod d"
  "trace (call c d) = c # trace d"
  by (simp_all add: call_def)

lemma upd_config_frame [simp]:
  "deviceConfigData (upd_config f d) = f (deviceConfigData d)"
  "globalData (upd_config f d) = globalData d"
  "msgList (upd_config f d) = msgList d"
  "sendList (upd_config f d) = sendList d"
  "nextAddr (upd_config f d) = nextAddr d"
  "lastUTCTime (upd_config f d) = lastUTCTime d"
  "lastSystemTime (upd_config f d) = lastSystemTime d"
  "absenceRunning (upd_config f d) = absenceRunning d"
  "nextAbsenceMinute (upd_config f d) = nextAbsenceMinute d"
  "lastCheckMinute (upd_config f d) = lastCheckMinute d"
  "timers (upd_config f d) = timers d"
  "tcpSocketFd (upd_config f d) = tcpSocketFd d"
  "udpSocketFd (upd_config f d) = udpSocketFd d"
  "trace (upd_config f d) = trace d"
  by (simp_all add: upd_config_def)

lemma upd_global_frame [simp]:
  "deviceConfigData (upd_global f d) = deviceConfigData d"
  "globalData (upd_global f d) = f (globalData d)"
  "msgList (upd_global f d) = msgList d"
  "sendList (upd_global f d) = sendList d"
  "nextAddr (upd_global f d) = nextAddr d"
  "lastUTCTime (upd_global f d) = lastUTCTime d"
  "lastSystemTime (upd_global f d) = lastSystemTime d"
  "absenceRunning (upd_global f d) = absenceRunning d"
  "nextAbsenceMinute (upd_global f d) = nextAbsenceMinute d"
  "lastCheckMinute (upd_global f d) = lastCheckMinute d"
  "timers (upd_global f d) = timers d"
  "tcpSocketFd (upd_global f d) = tcpSocketFd d"
  "udpSocketFd (upd_global f d) = udpSocketFd d"
  "trace (upd_global f d) = trace d"
  by (simp_all add: upd_global_def)

lemma restart_timer_frame [simp]:
  "deviceConfigData (restart_timer E t p0 p d) = deviceConfigData d"
  "globalData (restart_timer E t p0 p d) = globalData d"
  "msgList (restart_timer E t p0 p d) = msgList d"
  "sendList (restart_timer E t p0 p d) = sendList d"
  "nextAddr (restart_timer E t p0 p d) = nextAddr d"
  "lastUTCTime (restart_timer E t p0 p d) = lastUTCTime d"
  "lastSystemTime (restart_timer E t p0 p d) = lastSystemTime d"
  "absenceRunning (restart_timer E t p0 p d) = absenceRunning d"
  "nextAbsenceMinute (restart_timer E t p0 p d) = nextAbsenceMinute d"
  "lastCheckMinute (restart_timer E t p0 p d) = lastCheckMinute d"
  "last_saved (trace (restart_timer E t p0 p d)) = last_saved (trace d)"
  by (simp_all add: restart_timer_def)

lemma FreeSocketData_frame [simp]:
  "deviceConfigData (FreeSocketData d) = deviceConfigData d"
  "globalData (FreeSocketData d) = (globalData d)\<lparr>mallocCount := mallocCount (globalData d) - 1\<rparr>"
  "msgList (FreeSocketData d) = msgList d"
  "sendList (FreeSocketData d) = sendList d"
  "nextAddr (FreeSocketData d) = nextAddr d"
  "lastUTCTime (FreeSocketData d) = lastUTCTime d"
  "lastSystemTime (FreeSocketData d) = lastSystemTime d"
  "absenceRunning (FreeSocketData d) = absenceRunning d"
  "nextAbsenceMinute (FreeSocketData d) = nextAbsenceMinute d"
  "trace (FreeSocketData d) = Free # trace d"
  by (simp_all add: FreeSocketData_def)

lemma saveDeviceConfigData_frame [simp]:
  "deviceConfigData (saveDeviceConfigData d) = deviceConfigData d"
  "globalData (saveDeviceConfigData d) = globalData d"
  "msgList (saveDeviceConfigData d) = msgList d"
  "sendList (saveDeviceConfigData d) = sendList d"
  "nextAddr (saveDeviceConfigData d) = nextAddr d"
  "lastUTCTime (saveDeviceConfigData d) = lastUTCTime d"
  "lastSystemTime (saveDeviceConfigData d) = lastSystemTime d"
  "absenceRunning (saveDeviceConfigData d) = absenceRunning d"
  "nextAbsenceMinute (saveDeviceConfigData d) = nextAbsenceMinute d"
  "trace (saveDeviceConfigData d) = Userbin_write (deviceConfigData d) # trace d"
  by (simp_all add: saveDeviceConfigData_def)

lemma mallocSocketData_cases:
  obtains (fail) "mallocSocketData E n d = (None, call (Malloc (n + 1)) d)"
  | (ok) c where "mallocSocketData E n d = (Some (replicate (n + 1) 0),
      upd_global (\<lambda>g. g\<lparr>mallocCount := c\<rparr>) (call (Malloc (n + 1)) d))"
    "c = (if mallocCount (globalData d) + 1 \<ge> 0xFFFF then 100 else mallocCount (globalData d) + 1)"
  by (cases "hfmem_malloc E (trace d) (n + 1)")
    (auto simp: mallocSocketData_def upd_global_def Let_def)

section \<open>Frames\<close>

text \<open>
  Many operations touch only the message list, the allocator and the trace; the rest of the
  state is the \<open>core\<close>.
\<close>

definition core :: "device \<Rightarrow> device" where
  "core d = d\<lparr>msgList := msgList power_on, nextAddr := 0, trace := [],
     globalData := (globalData d)\<lparr>mallocCount := 0\<rparr>\<rparr>"

lemma core_eqD:
  assumes "core d' = core d"
  shows "deviceConfigData d' = deviceConfigData d" "sendList d' = sendList d"
    "lastUTCTime d' = lastUTCTime d" "lastSystemTime d' = lastSystemTime d"
    "absenceRunning d' = absenceRunning d" "nextAbsenceMinute d' = nextAbsenceMinute d"
    "lastCheckMinute d' = lastCheckMinute d" "timers d' = timers d"
    "connInfo (globalData d') = connInfo (globalData d)"
    "socketSn (globalData d') = socketSn (globalData d)"
    "keyData (globalData d') = keyData (globalData d)"
    "devIpAddr (globalData d') = devIpAddr (globalData d)"
    "macAddr (globalData d') = macAddr (globalData d)"
    "tcpServerAddr (globalData d') = tcpServerAddr (globalData d)"
    "tcpSocketFd d' = tcpSocketFd d" "udpSocketFd d' = udpSocketFd d"
  using arg_cong [OF assms, of deviceConfigData] arg_cong [OF assms, of sendList]
    arg_cong [OF assms, of lastUTCTime] arg_cong [OF assms, of lastSystemTime]
    arg_cong [OF assms, of absenceRunning] arg_cong [OF assms, of nextAbsenceMinute]
    arg_cong [OF assms, of lastCheckMinute] arg_cong [OF assms, of timers]
    arg_cong [OF assms, of tcpSocketFd] arg_cong [OF assms, of udpSocketFd]
    arg_cong [OF assms, of "connInfo \<circ> globalData"] arg_cong [OF assms, of "socketSn \<circ> globalData"]
    arg_cong [OF assms, of "keyData \<circ> globalData"] arg_cong [OF assms, of "devIpAddr \<circ> globalData"]
    arg_cong [OF assms, of "macAddr \<circ> globalData"]
    arg_cong [OF assms, of "tcpServerAddr \<circ> globalData"]
  by (simp_all add: core_def)

lemma core_call [simp]: "core (call c d) = core d"
  by (simp add: core_def call_def)

lemma core_FreeSocketData [simp]: "core (FreeSocketData d) = core d"
  by (simp add: core_def FreeSocketData_def upd_global_def call_def)

lemma core_saveDeviceConfigData [simp]: "core (saveDeviceConfigData d) = core d"
  by (simp add: saveDeviceConfigData_def)

lemma core_mallocSocketData [simp]: "core (snd (mallocSocketData E n d)) = core d"
  by (cases E n d rule: mallocSocketData_cases) (auto simp: core_def upd_global_def call_def)

text \<open>The level the relay pin was last driven to.\<close>

fun relay_level :: "sdk_call list \<Rightarrow> bool option" where
  "relay_level [] = None"
| "relay_level (Pin_high HFGPIO_F_SWITCH # tr) = Some True"
| "relay_level (Pin_low HFGPIO_F_SWITCH # tr) = Some False"
| "relay_level (_ # tr) = relay_level tr"

end
