(* ===== verification/Msg_List.thy ===== *)
theory Msg_List
  imports Device
begin

text \<open>
  The list of received and locally generated messages of \<open>asyncMessage.c\<close>.  \<open>msgs d q\<close> says
  that the list holds the nodes and bodies \<open>q\<close> in this order; every operation is shown to
  implement the FIFO queue of \<open>Linked_List\<close> on \<open>q\<close>.
\<close>

text \<open>The sizes of the node structures on the 32-bit target; they only reach the allocator.\<close>

abbreviation (input) SIZEOF_MSG_NODE :: nat where "SIZEOF_MSG_NODE \<equiv> 24"

definition messageListInit :: "device \<Rightarrow> device" where
  "messageListInit d = call (Mutex_new g_message_mutex)
     (d\<lparr>msgList := (msgList d)\<lparr>firstNodePtr := None, noteCount := 0\<rparr>\<rparr>)"

definition put_msg_node :: "msg_node_body \<Rightarrow> device \<Rightarrow> nat \<times> device" where
  "put_msg_node b d = (nextAddr d,
     d\<lparr>msgList := new_node (nextAddr d) b (msgList d), nextAddr := nextAddr d + 1\<rparr>)"

definition insertListNode :: "bool \<Rightarrow> nat \<Rightarrow> device \<Rightarrow> device option" where
  "insertListNode insetToHeader pNode d = do {
     let d1 = call (Mutex_lock g_message_mutex) d;
     l \<leftarrow> link_msg_node insetToHeader pNode (msgList d1);
     Some (call (Mutex_unlock g_message_mutex) (d1\<lparr>msgList := l\<rparr>))
   }"

text \<open>Filling in a freshly allocated node and inserting it at the end of the list.\<close>

definition enqueue_msg :: "msg_node_body \<Rightarrow> device \<Rightarrow> device option" where
  "enqueue_msg b d = (let (p, d1) = put_msg_node b d in insertListNode False p d1)"

definition freeNodeMemory :: "msg_node_body \<Rightarrow> device \<Rightarrow> device" where
  "freeNodeMemory b d =
     FreeSocketData (if pData b \<noteq> None then FreeSocketData d else d)"

definition deleteListNode :: "nat option \<Rightarrow> device \<Rightarrow> (bool \<times> device) option" where
  "deleteListNode pNode d =
     (case (firstNodePtr (msgList d), pNode) of
        (Some _, Some p) \<Rightarrow> do {
          (ret, l) \<leftarrow> unlink_node p (msgList d);
          let d1 = d\<lparr>msgList := l\<rparr>;
          let d2 = (if ret then (case node_body (msgList d) p of None \<Rightarrow> d1
                                 | Some b \<Rightarrow> freeNodeMemory b d1) else d1);
          Some (ret, call (Mutex_unlock g_message_mutex) d2)
        }
      | _ \<Rightarrow> Some (False, call (Mutex_unlock g_message_mutex) d))"

text \<open>
  \<open>ret\<close> is only set when there is data to copy: inserting a message without data answers
  \<open>FALSE\<close> although the message was inserted.
\<close>

definition insertLocalMsgToList ::
    "sdk \<Rightarrow> msg_origin \<Rightarrow> u8 list option \<Rightarrow> nat \<Rightarrow> u16 \<Rightarrow> device \<Rightarrow> (bool \<times> device) option" where
  "insertLocalMsgToList E origin dat len cmd d =
     (let (node, d1) = mallocSocketData E SIZEOF_MSG_NODE d
      in if node = None then Some (False, d1)
      else let b = \<lparr>bReback = False, cmdData = cmd, snIndex = 0, dataLen = 0, pData = None,
                    msgOrigin = origin, socketIp = 0\<rparr>
      in case dat of
        None \<Rightarrow> do {
          d2 \<leftarrow> enqueue_msg b d1;
          Some (False, d2)
        }
      | Some bs \<Rightarrow>
          (let (localData, d2) = mallocSocketData E (len + 1) d1
           in case localData of
             None \<Rightarrow> Some (False, FreeSocketData d2)
           | Some buf \<Rightarrow> do {
               src \<leftarrow> rds bs 0 len;
               buf' \<leftarrow> wrs buf 0 src;
               d3 \<leftarrow> enqueue_msg (b\<lparr>dataLen := of_nat len, pData := Some buf'\<rparr>) d2;
               Some (True, d3)
             }))"

section \<open>The abstract queue\<close>

definition msgs :: "device \<Rightarrow> (nat \<times> msg_node_body) list \<Rightarrow> bool" where
  "msgs d q \<longleftrightarrow> msg_queue.contents (msgList d) q \<and> (\<forall>x \<in> set q. fst x < nextAddr d)"

lemma msgs_cong:
  "msgList d' = msgList d \<Longrightarrow> nextAddr d' = nextAddr d \<Longrightarrow> msgs d' q = msgs d q"
  by (simp add: msgs_def)

lemma msgs_call [simp]: "msgs (call c d) q = msgs d q"
  by (rule msgs_cong) simp_all

lemma msgs_upd_global [simp]: "msgs (upd_global f d) q = msgs d q"
  by (rule msgs_cong) simp_all

lemma msgs_upd_config [simp]: "msgs (upd_config f d) q = msgs d q"
  by (rule msgs_cong) simp_all

lemma msgs_FreeSocketData [simp]: "msgs (FreeSocketData d) q = msgs d q"
  by (rule msgs_cong) simp_all

lemma msgs_messageListInit: "msgs (messageListInit d) []"
  by (simp add: msgs_def msg_queue.contents_def messageListInit_def list_ok_def)

lemma msgs_head:
  assumes "msgs d q"
  shows "firstNodePtr (msgList d) = (case q of [] \<Rightarrow> None | x # _ \<Rightarrow> Some (fst x))"
  using assms by (cases q) (auto simp: msgs_def msg_queue.contents_def list_ok_def)

lemma msgs_body:
  "msgs d q \<Longrightarrow> (a, b) \<in> set q \<Longrightarrow> node_body (msgList d) a = Some b"
  by (auto simp: msgs_def msg_queue.contents_def)

lemma enqueue_msg_msgs:
  assumes "msgs d q" "length q < 256"
  obtains d' where "enqueue_msg b d = Some d'"
    "msgs d' (q @ [(nextAddr d, b)])" "nextAddr d' = nextAddr d + 1"
    "deviceConfigData d' = deviceConfigData d" "globalData d' = globalData d"
    "trace d' = Mutex_unlock g_message_mutex # Mutex_lock g_message_mutex # trace d"
proof -
  have fresh: "nextAddr d \<notin> fst ` set q" using assms(1) by (auto simp: msgs_def)
  obtain l where l: "add_msg_node (nextAddr d) b (msgList d) = Some l"
    "msg_queue.contents l (q @ [(nextAddr d, b)])"
    using msg_queue.add_contents [OF _ fresh assms(2), of "msgList d" b] assms(1)
    by (auto simp: msgs_def)
  let ?d = "call (Mutex_unlock g_message_mutex) (call (Mutex_lock g_message_mutex)
    (snd (put_msg_node b d))\<lparr>msgList := l\<rparr>)"
  have "enqueue_msg b d = Some ?d"
    using l(1) by (simp add: enqueue_msg_def insertListNode_def put_msg_node_def add_msg_node_def)
  then show ?thesis
    by (rule that) (use l(2) assms(1) in \<open>auto simp: put_msg_node_def msgs_def\<close>)
qed

lemma mallocSocketData_msgs [simp]: "msgs (snd (mallocSocketData E n d)) q = msgs d q"
  by (cases E n d rule: mallocSocketData_cases) auto

text \<open>What the message carries.\<close>

definition local_msg :: "msg_origin \<Rightarrow> u8 list option \<Rightarrow> nat \<Rightarrow> u16 \<Rightarrow> msg_node_body" where
  "local_msg origin dat len cmd = \<lparr>bReback = False, cmdData = cmd, snIndex = 0,
     dataLen = (if dat = None then 0 else of_nat len),
     pData = map_option (\<lambda>bs. take len bs @ [0, 0]) dat,
     msgOrigin = origin, socketIp = 0\<rparr>"

lemma mallocSocketData_keeps:
  assumes "mallocSocketData E n d = (r, d')"
  shows "msgs d' q = msgs d q" "nextAddr d' = nextAddr d"
    "deviceConfigData d' = deviceConfigData d" "r \<noteq> None \<Longrightarrow> r = Some (replicate (n + 1) 0)"
  using assms by (cases E n d rule: mallocSocketData_cases; auto)+

lemma replicate_two_more: "x # x # replicate n x = replicate n x @ [x, x]"
  by (induction n) auto

lemma drop_two_more: "drop n (x # x # replicate n x) = [x, x]"
  by (simp add: replicate_two_more)

text \<open>
  A local message is queued at the end when the allocator delivers; otherwise the list is
  unchanged.
\<close>

lemma insertLocalMsgToList_msgs:
  assumes q: "msgs d q" "length q < 256"
    and bs: "\<And>bs. dat = Some bs \<Longrightarrow> len \<le> length bs"
  obtains r d' where "insertLocalMsgToList E origin dat len cmd d = Some (r, d')"
    "deviceConfigData d' = deviceConfigData d"
    "msgs d' q \<and> nextAddr d' = nextAddr d \<and> (\<exists>tr n. \<not> hfmem_malloc E tr n)
     \<or> r = (dat \<noteq> None) \<and> msgs d' (q @ [(nextAddr d, local_msg origin dat len cmd)])
        \<and> nextAddr d' = nextAddr d + 1"
proof -
  obtain node d1 where m: "mallocSocketData E SIZEOF_MSG_NODE d = (node, d1)" by fastforce
  note d1 = mallocSocketData_keeps [OF m]
  show ?thesis
  proof (cases node)
    case None
    then have "\<exists>tr n. \<not> hfmem_malloc E tr n"
      using m by (auto simp: mallocSocketData_def Let_def split: if_splits)
    then show ?thesis using None m d1 q
      by (intro that [of False d1]) (auto simp: insertLocalMsgToList_def)
  next
    case node: (Some x)
    show ?thesis
    proof (cases dat)
      case None
      obtain d' where "enqueue_msg (local_msg origin dat len cmd) d1 = Some d'"
        "msgs d' (q @ [(nextAddr d1, local_msg origin dat len cmd)])"
        "nextAddr d' = nextAddr d1 + 1" "deviceConfigData d' = deviceConfigData d1"
        using enqueue_msg_msgs [of d1 q "local_msg origin dat len cmd"] d1 q by metis
      then show ?thesis using None m d1 node
        by (intro that [of False d']) (auto simp: insertLocalMsgToList_def local_msg_def)
    next
      case dat: (Some bytes)
      obtain ld d2 where m2: "mallocSocketData E (len + 1) d1 = (ld, d2)" by fastforce
      note d2 = mallocSocketData_keeps [OF m2]
      show ?thesis
      proof (cases ld)
        case None
        then have "\<exists>tr n. \<not> hfmem_malloc E tr n"
          using m2 by (auto simp: mallocSocketData_def Let_def split: if_splits)
        then show ?thesis using None m m2 d1 d2 q node dat
          by (intro that [of False "FreeSocketData d2"]) (auto simp: insertLocalMsgToList_def)
      next
        case (Some buf)
        obtain d' where "enqueue_msg (local_msg origin dat len cmd) d2 = Some d'"
          "msgs d' (q @ [(nextAddr d2, local_msg origin dat len cmd)])"
          "nextAddr d' = nextAddr d2 + 1" "deviceConfigData d' = deviceConfigData d2"
          using enqueue_msg_msgs [of d2 q "local_msg origin dat len cmd"] d1 d2 q by metis
        moreover have "len \<le> length bytes" using bs dat by simp
        ultimately show ?thesis using m m2 d1 d2 dat Some node
          by (intro that [of True d']) (auto simp: insertLocalMsgToList_def local_msg_def
            rds_def wrs_def drop_two_more)
      qed
    qed
  qed
qed

lemma deleteListNode_msgs:
  assumes "msgs d q" "q \<noteq> []"
  obtains d' where "deleteListNode (Some (fst (hd q))) d = Some (True, d')"
    "msgs d' (tl q)" "nextAddr d' = nextAddr d" "deviceConfigData d' = deviceConfigData d"
proof -
  obtain a b q' where q: "q = (a, b) # q'" using assms(2) by (cases q) auto
  have dq: "distinct (map fst q)"
    using msg_queue.contents_distinct [of "msgList d" q] assms(1) by (simp add: msgs_def)
  have first: "firstNodePtr (msgList d) = Some a" and body: "node_body (msgList d) a = Some b"
    using msgs_head [OF assms(1)] msgs_body [OF assms(1), of a b] by (simp_all add: q)
  have fq: "filter (\<lambda>x. fst x \<noteq> a) q = q'"
    using dq by (auto simp: q filter_id_conv)
  obtain l where l: "unlink_node a (msgList d) = Some (True, l)" "msg_queue.contents l q'"
    using msg_queue.del_contents [of "msgList d" q a] assms(1) fq
    by (auto simp: msgs_def q)
  let ?d = "call (Mutex_unlock g_message_mutex) (freeNodeMemory b (d\<lparr>msgList := l\<rparr>))"
  have "deleteListNode (Some (fst (hd q))) d = Some (True, ?d)"
    using l(1) first body by (simp add: deleteListNode_def q)
  then show ?thesis
    by (rule that) (use l(2) assms(1) in \<open>auto simp: q msgs_def freeNodeMemory_def\<close>)
qed

lemma insertLocalMsgToList_core:
  assumes "insertLocalMsgToList E origin dat len cmd d = Some (r, d')"
  shows "core d' = core d" "last_saved (trace d') = last_saved (trace d)"
    "relay_level (trace d') = relay_level (trace d)"
proof -
  have "core d' = core d \<and> last_saved (trace d') = last_saved (trace d)
    \<and> relay_level (trace d') = relay_level (trace d)"
    using assms
    by (cases E SIZEOF_MSG_NODE d rule: mallocSocketData_cases;
        cases E "len + 1" "snd (mallocSocketData E SIZEOF_MSG_NODE d)" rule: mallocSocketData_cases)
      (auto simp: insertLocalMsgToList_def enqueue_msg_def put_msg_node_def insertListNode_def
        FreeSocketData_def upd_global_def call_def Let_def core_def
        split: option.splits bind_splits)
  then show "core d' = core d" "last_saved (trace d') = last_saved (trace d)"
    "relay_level (trace d') = relay_level (trace d)" by simp_all
qed

end
