(* ===== verification/Time_Data.thy ===== *)
theory Time_Data
  imports Calendar Msg_List
begin

text \<open>
  The clock of \<open>lumTimeData.c\<close>: seconds since 1970, extrapolated from the last network time
  with the millisecond tick of the SDK, which wraps after 2^32 ms.
\<close>

abbreviation (input) "DIFF_SEC_1900_1970 \<equiv> 2208988800"
abbreviation (input) "MAX_CALIBRATE_TIME_INTERVAL \<equiv> 3600000"
abbreviation (input) "MAX_FAILD_CALIBRATE_TIME_INTERVAL \<equiv> 10000"

abbreviation (input) "MSG_CMD_LOCAL_GET_UTC_TIME \<equiv> 0xFF02"

definition getUtcTimerCallback :: "sdk \<Rightarrow> device \<Rightarrow> device option" where
  "getUtcTimerCallback E d =
     map_option snd (insertLocalMsgToList E MSG_LOCAL_EVENT None 0 MSG_CMD_LOCAL_GET_UTC_TIME d)"

definition createGetUtcTimer :: "sdk \<Rightarrow> u32 \<Rightarrow> device \<Rightarrow> device" where
  "createGetUtcTimer E period d = restart_timer E GET_UTC_TIMER_ID period period d"

definition lum_getSystemTime :: "sdk \<Rightarrow> device \<Rightarrow> u32 \<times> device" where
  "lum_getSystemTime E d =
     (let curTimeMs = hfsys_get_time E (trace d);
          d1 = call Get_time d
      in if curTimeMs < lastSystemTime d1
         then let totalUs = 0xFFFFFFFF - lastSystemTime d1 + curTimeMs;
                  totalSecond = totalUs div 1000;
                  d2 = d1\<lparr>lastUTCTime := lastUTCTime d1 + totalSecond,
                          lastSystemTime := curTimeMs\<rparr>;
                  d3 = createGetUtcTimer E MAX_FAILD_CALIBRATE_TIME_INTERVAL d2
              in (lastUTCTime d3, d3)
         else let totalUs = curTimeMs - lastSystemTime d1;
                  totalSecond = totalUs div 1000
              in (lastUTCTime d1 + totalSecond, d1))"

text \<open>The trace message evaluates \<open>lum_getSystemTime\<close> before the clock is set.\<close>

definition lum_syncNetworkTime :: "sdk \<Rightarrow> u32 \<Rightarrow> device \<Rightarrow> device" where
  "lum_syncNetworkTime E networkTime d =
     (let d1 = snd (lum_getSystemTime E d);
          now = hfsys_get_time E (trace d1)
      in (call Get_time d1)\<lparr>lastUTCTime := networkTime, lastSystemTime := now\<rparr>)"

definition lum_initSystemTime :: "sdk \<Rightarrow> device \<Rightarrow> device" where
  "lum_initSystemTime E d =
     (let now = hfsys_get_time E (trace d)
      in createGetUtcTimer E MAX_FAILD_CALIBRATE_TIME_INTERVAL
           ((call Get_time d)\<lparr>lastSystemTime := now, lastUTCTime := SEC_2014_01_01_00_00_00\<rparr>))"

definition lum_getGmtime :: "sdk \<Rightarrow> device \<Rightarrow> (time_data_info \<times> device) option" where
  "lum_getGmtime E d =
     (let (curSecond, d1) = lum_getSystemTime E d
      in map_option (\<lambda>t. (t, d1)) (lum_gmtime curSecond))"

text \<open>\<open>setDeviceConnectInfo\<close> and \<open>getDeviceConnectInfo\<close> of \<open>itoCommon.c\<close>.\<close>

definition setDeviceConnectInfo :: "device_conn_type \<Rightarrow> bool \<Rightarrow> device \<Rightarrow> device" where
  "setDeviceConnectInfo connType v d = upd_global (\<lambda>g. g\<lparr>connInfo :=
     (case connType of
        DHPC_OK_BIT \<Rightarrow> (connInfo g)\<lparr>dhcpOK := v\<rparr>
      | BALANCE_CONN_BIT \<Rightarrow> (connInfo g)\<lparr>balanceOK := v\<rparr>
      | SERVER_ADDR_BIT \<Rightarrow> (connInfo g)\<lparr>serverAdd := v\<rparr>
      | SERVER_CONN_BIT \<Rightarrow> (connInfo g)\<lparr>serverConn := v\<rparr>)\<rparr>) d"

definition getDeviceConnectInfo :: "device_conn_type \<Rightarrow> device \<Rightarrow> bool" where
  "getDeviceConnectInfo connType d =
     (case connType of
        DHPC_OK_BIT \<Rightarrow> dhcpOK (connInfo (globalData d))
      | BALANCE_CONN_BIT \<Rightarrow> balanceOK (connInfo (globalData d))
      | SERVER_ADDR_BIT \<Rightarrow> serverAdd (connInfo (globalData d))
      | SERVER_CONN_BIT \<Rightarrow> serverConn (connInfo (globalData d)))"

text \<open>Without network time, the clock is set from the time an app sends.\<close>

definition lum_checlCaliDateByApp :: "sdk \<Rightarrow> u32 \<Rightarrow> device \<Rightarrow> device" where
  "lum_checlCaliDateByApp E appDate d =
     (let (curSecond, d1) = lum_getSystemTime E d
      in if curSecond < SEC_2015_01_01_00_00_00 \<or> \<not> getDeviceConnectInfo SERVER_CONN_BIT d1
         then lum_syncNetworkTime E appDate d1 else d1)"

section \<open>Properties\<close>

lemma lum_getSystemTime_frame [simp]:
  "deviceConfigData (snd (lum_getSystemTime E d)) = deviceConfigData d"
  "globalData (snd (lum_getSystemTime E d)) = globalData d"
  "msgList (snd (lum_getSystemTime E d)) = msgList d"
  "sendList (snd (lum_getSystemTime E d)) = sendList d"
  "nextAddr (snd (lum_getSystemTime E d)) = nextAddr d"
  "absenceRunning (snd (lum_getSystemTime E d)) = absenceRunning d"
  "nextAbsenceMinute (snd (lum_getSystemTime E d)) = nextAbsenceMinute d"
  "last_saved (trace (snd (lum_getSystemTime E d))) = last_saved (trace d)"
  by (simp_all add: lum_getSystemTime_def Let_def createGetUtcTimer_def)

lemma lum_getSystemTime_keeps:
  assumes "lum_getSystemTime E d = (t, d')"
  shows "deviceConfigData d' = deviceConfigData d" "globalData d' = globalData d"
    "msgList d' = msgList d" "sendList d' = sendList d" "nextAddr d' = nextAddr d"
    "absenceRunning d' = absenceRunning d" "nextAbsenceMinute d' = nextAbsenceMinute d"
    "last_saved (trace d') = last_saved (trace d)"
  using lum_getSystemTime_frame [of E d] assms by simp_all

text \<open>
  Ticks elapsed since the last synchronisation, when the tick counter wrapped at most once.
\<close>

definition elapsed_ms :: "u32 \<Rightarrow> u32 \<Rightarrow> nat" where
  "elapsed_ms since now = (if now < since then 2 ^ 32 + unat now - unat since
     else unat now - unat since)"

lemma elapsed_ms_diff: "elapsed_ms since now = unat (now - since)"
proof (cases "now < since")
  case True
  then have "unat now < unat since" by (simp add: word_less_nat_alt)
  moreover have "unat since < 2 ^ 32" using unsigned_less [of since, where 'a = nat] by simp
  ultimately show ?thesis using True
    by (simp add: elapsed_ms_def unat_sub_if')
next
  case False
  then have "unat since \<le> unat now" by (simp add: not_less word_le_nat_alt)
  then show ?thesis using False by (simp add: elapsed_ms_def unat_sub_if')
qed

lemma wrap_elapsed:
  "now < since \<Longrightarrow> unat (0xFFFFFFFF - since + now :: u32) = elapsed_ms since now - 1"
proof -
  assume less: "now < since"
  then have ne: "now - since \<noteq> (0 :: u32)" by simp
  have m1: "(0xFFFFFFFF :: u32) = - 1" by simp
  have "0xFFFFFFFF - since + now = (now - since) - 1"
    by (subst m1) simp
  then show ?thesis using unat_minus_one [OF ne] by (simp only: elapsed_ms_diff)
qed

lemma word_div_1000: "(x :: u32) div 1000 = of_nat (unat x div 1000)"
  by (simp add: word_arith_nat_div)

text \<open>
  The clock shows the last synchronised UTC second plus the whole seconds elapsed
  since; when the tick counter has wrapped it is one tick short, and the clock is
  resynchronised to what it shows, dropping the fraction of a second.
\<close>

theorem lum_getSystemTime_elapsed:
  "let (t, d') = lum_getSystemTime E d; now = hfsys_get_time E (trace d);
       e = elapsed_ms (lastSystemTime d) now
   in if now < lastSystemTime d
      then t = lastUTCTime d + of_nat ((e - 1) div 1000)
         \<and> lastUTCTime d' = t \<and> lastSystemTime d' = now
      else t = lastUTCTime d + of_nat (e div 1000)
         \<and> lastUTCTime d' = lastUTCTime d \<and> lastSystemTime d' = lastSystemTime d"
  by (simp add: lum_getSystemTime_def Let_def createGetUtcTimer_def word_div_1000 wrap_elapsed
      del: of_nat_diff)
    (simp add: elapsed_ms_diff)

end
