(* ===== verification/Udp_Log.thy ===== *)
theory Udp_Log
  imports Time_Data
begin

text \<open>
  The device's own address (\<open>itoCommon.c\<close>) and the packet log of \<open>lumLog.c\<close>, which prints
  every packet sent or received into a heap buffer and broadcasts it over UDP
  (\<open>lum_sendUdpLog\<close> of \<open>localSocketUdp.c\<close>) when the user has switched it on.  Every \<open>sprintf\<close>
  is a checked write into the buffer; the writes are shown to stay inside it.
\<close>

section \<open>Addresses\<close>

definition crlf :: "u8 list" where "crlf = [13, 10]"

definition rsp_ok :: "u8 list \<Rightarrow> bool" where
  "rsp_ok rsp = (take 3 rsp = ascii ''+ok'')"

definition at_command :: "sdk \<Rightarrow> u8 list \<Rightarrow> device \<Rightarrow> u8 list \<times> device" where
  "at_command E cmd d = (hfat_send_cmd E (trace d) cmd, call (At_cmd cmd) d)"

text \<open>
  \<open>words[2]\<close> stays NULL when the answer has fewer words, and \<open>addr\<close> has 42 bytes.
\<close>

definition getIpAddrFromModual :: "sdk \<Rightarrow> device \<Rightarrow> (u32 option \<times> device) option" where
  "getIpAddrFromModual E d =
     (let (rsp, d1) = at_command E (ascii ''AT+WANN'' @ crlf @ [0]) d;
          words = hfat_get_words E rsp 5
      in if words \<noteq> [] \<and> rsp_ok rsp
         then (if length words > 2 \<and> length (words ! 2) < 42
               then Some (Some (inet_addr E (words ! 2)), d1) else None)
         else Some (None, d1))"

definition setDeviceIpAddress :: "sdk \<Rightarrow> bool \<Rightarrow> u32 \<Rightarrow> device \<Rightarrow> device option" where
  "setDeviceIpAddress E bClear ip d =
     (if bClear then Some (upd_global (\<lambda>g. g\<lparr>devIpAddr := 0\<rparr>) d)
      else do {
        (r, d1) \<leftarrow> getIpAddrFromModual E d;
        let d2 = (case r of None \<Rightarrow> d1 | Some a \<Rightarrow> upd_global (\<lambda>g. g\<lparr>devIpAddr := a\<rparr>) d1);
        Some (if devIpAddr (globalData d2) = 0 \<or> devIpAddr (globalData d2) = 0xFFFFFFFF
              then upd_global (\<lambda>g. g\<lparr>devIpAddr := ip\<rparr>) d2 else d2)
      })"

definition getDeviceIpAddress :: "sdk \<Rightarrow> device \<Rightarrow> (u32 \<times> device) option" where
  "getDeviceIpAddress E d =
     (if devIpAddr (globalData d) = 0 \<or> devIpAddr (globalData d) = 0xFFFFFFFF
      then do {
        (r, d1) \<leftarrow> getIpAddrFromModual E d;
        let d2 = (case r of None \<Rightarrow> d1 | Some a \<Rightarrow> upd_global (\<lambda>g. g\<lparr>devIpAddr := a\<rparr>) d1);
        Some (devIpAddr (globalData d2), d2)
      } else Some (devIpAddr (globalData d), d))"

definition getBroadcastAddr :: "device \<Rightarrow> u32" where
  "getBroadcastAddr d = devIpAddr (globalData d) OR 0xFF000000"

section \<open>Printing\<close>

text \<open>\<open>%02X\<close> of a byte, and \<open>%0<w>d\<close> of a natural number.\<close>

definition hex_digit :: "u8 \<Rightarrow> u8" where
  "hex_digit n = (if n < 10 then 0x30 + n else 0x37 + n)"

definition hex2 :: "u8 \<Rightarrow> u8 list" where
  "hex2 b = [hex_digit (drop_bit 4 b), hex_digit (b AND 0x0F)]"

fun dec :: "nat \<Rightarrow> nat \<Rightarrow> u8 list" where
  "dec w n = (if n < 10 then replicate (w - 1) 0x30 @ [0x30 + of_nat n]
     else dec (w - 1) (n div 10) @ [0x30 + of_nat (n mod 10)])"

declare dec.simps [simp del]

text \<open>\<open>lum_getStringTime\<close>; the terminating zero is added by the caller's buffer.\<close>

definition lum_getStringTime :: "sdk \<Rightarrow> bool \<Rightarrow> bool \<Rightarrow> device \<Rightarrow> (u8 list \<times> device) option" where
  "lum_getStringTime E needDay chinaDate d = do {
     let (curTime, d1) = lum_getSystemTime E d;
     t \<leftarrow> lum_gmtime curTime;
     let h = (if chinaDate then of_nat ((unat (hour t) + 8) mod 24) else hour t);
     let clock = dec 2 (unat h) @ [0x3A] @ dec 2 (unat (minute t)) @ [0x3A]
                 @ dec 2 (unat (second t));
     Some (if needDay
           then dec 4 (unat (year t)) @ [0x2D] @ dec 2 (unat (month t) + 1) @ [0x2D]
                @ dec 2 (unat (day t)) @ [0x20] @ clock @ [0x20, 0x3C]
                @ dec 1 (unat (week t)) @ [0x3E]
           else clock, d1)
   }"

definition getMsgComeFrom :: "msg_origin \<Rightarrow> u8 list" where
  "getMsgComeFrom m = (case m of MSG_LOCAL_EVENT \<Rightarrow> ascii ''Local''
     | MSG_FROM_UDP \<Rightarrow> ascii ''UDP'' | MSG_FROM_TCP \<Rightarrow> ascii ''TCP'')"

text \<open>
  One byte of a packet: the header fields in double-width brackets (two bytes each in the
  encoding of the source file).
\<close>

definition format_byte :: "nat \<Rightarrow> u8 \<Rightarrow> u8 list" where
  "format_byte i b =
     (if i = 1 \<or> i = 9 \<or> i = 15 then hex2 b @ [0xA1, 0xBE]
      else if i = 7 \<or> i = 11 \<or> i = 16 then hex2 b @ [0xA1, 0xBF]
      else hex2 b)"

fun format_loop :: "nat \<Rightarrow> u8 list \<Rightarrow> nat \<Rightarrow> u8 list \<Rightarrow> (nat \<times> u8 list) option" where
  "format_loop i [] index buf = Some (index, buf)"
| "format_loop i (b # bs) index buf = do {
     let t = format_byte i b;
     buf1 \<leftarrow> wrs buf index (t @ [0]);
     let index1 = index + length t;
     if i > 16 \<and> i mod 4 = 3
     then do { buf2 \<leftarrow> wrs buf1 index1 [0x20]; format_loop (Suc i) bs (Suc index1) buf2 }
     else format_loop (Suc i) bs index1 buf1
   }"

definition formatSockeData ::
    "u8 list \<Rightarrow> nat \<Rightarrow> nat \<Rightarrow> u8 list \<Rightarrow> (nat \<times> u8 list) option" where
  "formatSockeData socketData len off strData = do {
     bs \<leftarrow> rds socketData 0 len;
     (index, buf) \<leftarrow> format_loop 0 bs off strData;
     buf' \<leftarrow> wrs buf index [10];
     Some (index + 1 - off, buf')
   }"

definition formatHeaderData ::
    "sdk \<Rightarrow> bool \<Rightarrow> msg_origin \<Rightarrow> u8 list \<Rightarrow> device \<Rightarrow> ((nat \<times> u8 list) \<times> device) option" where
  "formatHeaderData E bRecive socketFrom strData d = do {
     (date, d1) \<leftarrow> lum_getStringTime E False True d;
     _ \<leftarrow> wrs (replicate 40 0) 0 (date @ [0]);
     buf1 \<leftarrow> wrs strData 0 (date @ [0]);
     let s = [0x20] @ ascii (if bRecive then ''<=='' else ''==>'') @ [0x20]
             @ getMsgComeFrom socketFrom @ [0x20];
     buf2 \<leftarrow> wrs buf1 (length date) (s @ [0]);
     Some ((length date + length s, buf2), d1)
   }"

section \<open>Sending the log\<close>

abbreviation (input) "UDP_SOCKET_LOG_OFFSET \<equiv> 19000"

definition lum_getUdpLogFlag :: "device \<Rightarrow> bool" where
  "lum_getUdpLogFlag d = (udpLogFlag (deviceConfigData d) \<noteq> 0)"

definition lum_sendUdpLog :: "sdk \<Rightarrow> u8 list \<Rightarrow> nat \<Rightarrow> device \<Rightarrow> (bool \<times> device) option" where
  "lum_sendUdpLog E sendBuf len d =
     (if \<not> getDeviceConnectInfo DHPC_OK_BIT d then Some (False, d)
      else do {
        (ip, d1) \<leftarrow> getDeviceIpAddress E d;
        let udpPort = (UDP_SOCKET_LOG_OFFSET + ucast (drop_bit 24 ip AND 0xFF) :: u16);
        bs \<leftarrow> rds sendBuf 0 len;
        Some (True, call (Socket_sendto (udpLogSocketFd d1) (htons udpPort)
                                        (ip OR 0xFF000000) bs) d1)
      })"

definition saveSocketData ::
    "sdk \<Rightarrow> bool \<Rightarrow> msg_origin \<Rightarrow> u8 list option \<Rightarrow> nat \<Rightarrow> device \<Rightarrow> device option" where
  "saveSocketData E bRecive socketFrom socketData len d =
     (if \<not> lum_getUdpLogFlag d then Some d
      else case socketData of None \<Rightarrow> Some d
      | Some bytes \<Rightarrow>
        if len = 0 then Some d
        else let (strData, d1) = mallocSocketData E (2 * len + len div 4 + 100) d
        in case strData of None \<Rightarrow> Some d1
        | Some buf \<Rightarrow> do {
            ((strLenth, buf1), d2) \<leftarrow> formatHeaderData E bRecive socketFrom buf d1;
            (n, buf2) \<leftarrow> formatSockeData bytes len strLenth buf1;
            (_, d3) \<leftarrow> lum_sendUdpLog E buf2 (strLenth + n) d2;
            Some (FreeSocketData d3)
          })"

text \<open>\<open>saveNormalLogData\<close> does not check the allocation before it clears the block.\<close>

definition saveNormalLogData :: "sdk \<Rightarrow> u8 list \<Rightarrow> device \<Rightarrow> device option" where
  "saveNormalLogData E msg d =
     (if \<not> lum_getUdpLogFlag d then Some d
      else let (mem, d1) = mallocSocketData E 512 d
      in do {
        buf \<leftarrow> mem;
        (date, d2) \<leftarrow> lum_getStringTime E False True d1;
        _ \<leftarrow> wrs (replicate 40 0) 0 (date @ [0]);
        let s = date @ ascii ''=== '' @ msg;
        buf1 \<leftarrow> wrs buf 0 (s @ [0]);
        let n = length s mod 256;
        buf2 \<leftarrow> wrs buf1 n [10];
        (_, d3) \<leftarrow> lum_sendUdpLog E buf2 ((n + 1) mod 256) d2;
        Some (FreeSocketData d3)
      })"

section \<open>The log never leaves its buffer\<close>

lemma length_hex2 [simp]: "length (hex2 b) = 2"
  by (simp add: hex2_def)

lemma length_dec_2: "n < 256 \<Longrightarrow> length (dec 2 n) \<le> 3"
  by (subst dec.simps, subst dec.simps, subst dec.simps) auto

lemma length_format_byte:
  "length (format_byte i b) = (if i \<in> {1, 7, 9, 11, 15, 16} then 4 else 2)"
  by (auto simp: format_byte_def)

text \<open>Characters printed for the first \<open>n\<close> bytes.\<close>

primrec printed :: "nat \<Rightarrow> nat" where
  "printed 0 = 0"
| "printed (Suc n) = printed n + (if n \<in> {1, 7, 9, 11, 15, 16} then 4 else 2)
     + (if n > 16 \<and> n mod 4 = 3 then 1 else 0)"

lemma printed_17: "printed 17 = 46"
  by code_simp

lemma printed_small: "\<forall>n \<in> set [0..<17]. printed n \<le> 2 * n + 12 + n div 4"
  by code_simp

lemma printed_step: "printed (17 + m) \<le> 46 + 2 * m + (17 + m) div 4"
proof (induction m)
  case 0
  then show ?case by (simp add: printed_17)
next
  case (Suc m)
  have "(17 + Suc m) div 4 = (17 + m) div 4 + (if (17 + m) mod 4 = 3 then 1 else 0)"
    by presburger
  moreover have "printed (17 + Suc m) = printed (17 + m) + 2 + (if (17 + m) mod 4 = 3 then 1 else 0)"
    unfolding add_Suc_right printed.simps by auto
  ultimately show ?case using Suc by (auto simp del: add_2_eq_Suc)
qed

lemma printed_mono: "printed n \<le> printed (n + m)"
  by (induction m) auto

lemma printed_le: "printed n \<le> 2 * n + 12 + n div 4"
proof (cases "n < 17")
  case True
  then show ?thesis using printed_small by simp
next
  case False
  then show ?thesis using printed_step [of "n - 17"] by simp
qed

lemma wrs_ok: "off + length bs \<le> length buf \<Longrightarrow> \<exists>buf'. wrs buf off bs = Some buf' \<and> length buf' = length buf"
  by (auto simp: wrs_def)

lemma format_loop_ok:
  "off + printed (i + length bs) < length buf \<Longrightarrow>
    \<exists>buf'. format_loop i bs (off + printed i) buf = Some (off + printed (i + length bs), buf')
      \<and> length buf' = length buf"
proof (induction bs arbitrary: i buf)
  case (Cons b bs)
  let ?t = "format_byte i b"
  have le: "off + printed (Suc i) < length buf"
    using Cons.prems printed_mono [of "Suc i" "length bs"] by simp
  have t: "printed i + length ?t \<le> printed (Suc i)"
    by (simp add: length_format_byte)
  obtain buf1 where b1: "wrs buf (off + printed i) (?t @ [0]) = Some buf1"
    "length buf1 = length buf"
    using wrs_ok [of "off + printed i" "?t @ [0]" buf] le t by auto
  show ?case
  proof (cases "i > 16 \<and> i mod 4 = 3")
    case True
    obtain buf2 where b2: "wrs buf1 (off + printed i + length ?t) [0x20] = Some buf2"
      "length buf2 = length buf"
      using wrs_ok [of "off + printed i + length ?t" "[0x20]" buf1] le t b1(2) True by auto
    have e: "printed (Suc i) = Suc (printed i + length ?t)"
      using True by (auto simp: length_format_byte)
    then show ?thesis
      using Cons.IH [of "Suc i" buf2] Cons.prems b1 b2 True
      by (auto simp: e add.assoc simp del: printed.simps)
  next
    case False
    have e: "printed (Suc i) = printed i + length ?t"
      using False by (auto simp: length_format_byte)
    then show ?thesis
      using Cons.IH [of "Suc i" buf1] Cons.prems b1 False
      by (auto simp: e add.assoc simp del: printed.simps)
  qed
qed simp

text \<open>The longest header: twelve characters of date, the arrow, \<open>Local\<close> and three blanks.\<close>

lemma length_getMsgComeFrom: "length (getMsgComeFrom m) \<le> 5"
  by (cases m) (simp_all add: getMsgComeFrom_def)

lemma formatHeaderData_ok:
  assumes len: "26 \<le> length buf" and t: "lum_gmtime (fst (lum_getSystemTime E d)) \<noteq> None"
  obtains n buf' where
    "formatHeaderData E bRecive m buf d = Some ((n, buf'), snd (lum_getSystemTime E d))"
    "n \<le> 24" "length buf' = length buf"
proof -
  obtain ti where ti: "lum_gmtime (fst (lum_getSystemTime E d)) = Some ti" using t by blast
  define date where "date = dec 2 ((unat (hour ti) + 8) mod 24) @ [0x3A] @ dec 2 (unat (minute ti))
    @ [0x3A] @ dec 2 (unat (second ti))"
  have "(unat (hour ti) + 8) mod 24 < 24" by simp
  then have "(unat (hour ti) + 8) mod 24 < 256" by linarith
  then have dl: "length date \<le> 11"
    using length_dec_2 [of "(unat (hour ti) + 8) mod 24"] length_dec_2 [of "unat (minute ti)"]
      length_dec_2 [of "unat (second ti)"]
    by (simp add: date_def)
  have date: "lum_getStringTime E False True d = Some (date, snd (lum_getSystemTime E d))"
    using ti by (simp add: lum_getStringTime_def date_def split_beta unat_of_nat)
  define s where "s = [0x20] @ ascii (if bRecive then ''<=='' else ''==>'') @ [0x20]
    @ getMsgComeFrom m @ [0x20]"
  have sl: "length s \<le> 11" using length_getMsgComeFrom [of m] by (simp add: s_def)
  obtain buf0 where "wrs (replicate 40 0) 0 (date @ [0]) = Some buf0"
    using wrs_ok [of 0 "date @ [0]" "replicate 40 0"] dl by auto
  moreover obtain buf1 where b1: "wrs buf 0 (date @ [0]) = Some buf1" "length buf1 = length buf"
    using wrs_ok [of 0 "date @ [0]" buf] dl len by auto
  moreover obtain buf2 where "wrs buf1 (length date) (s @ [0]) = Some buf2" "length buf2 = length buf"
    using wrs_ok [of "length date" "s @ [0]" buf1] dl sl len b1 by auto
  ultimately show ?thesis using date dl sl
    by (intro that [of "length date + length s" buf2]) (simp_all add: formatHeaderData_def s_def)
qed

lemma formatSockeData_ok:
  assumes "n \<le> length bytes" "off + 2 * n + n div 4 + 14 \<le> length buf"
  obtains m buf' where "formatSockeData bytes n off buf = Some (m, buf')"
    "off + m \<le> length buf" "length buf' = length buf"
proof -
  have p: "off + printed n < length buf" using assms(2) printed_le [of n] by simp
  obtain buf1 where b1: "format_loop 0 (take n bytes) off buf = Some (off + printed n, buf1)"
    "length buf1 = length buf"
    using format_loop_ok [of off 0 "take n bytes" buf] p assms(1) by auto
  obtain buf2 where "wrs buf1 (off + printed n) [10] = Some buf2" "length buf2 = length buf"
    using wrs_ok [of "off + printed n" "[10]" buf1] p b1 by auto
  then show ?thesis using b1 assms(1) p
    by (intro that [of "printed n + 1" buf2]) (simp_all add: formatSockeData_def rds_def)
qed

text \<open>
  Printing a packet never faults when the device knows its address: all writes stay inside
  the block of \<open>2 n + n div 4 + 101\<close> bytes.
\<close>

lemma saveSocketData_ok:
  assumes n: "n \<le> length bytes" and g: "\<And>s. lum_gmtime s \<noteq> None"
    and ip: "devIpAddr (globalData d) \<noteq> 0" "devIpAddr (globalData d) \<noteq> 0xFFFFFFFF"
  obtains d' where "saveSocketData E bRecive m (Some bytes) n d = Some d'"
proof (cases "lum_getUdpLogFlag d \<and> n \<noteq> 0")
  case False
  then show ?thesis by (intro that [of d]) (auto simp: saveSocketData_def)
next
  case True
  obtain mem d1 where m: "mallocSocketData E (2 * n + n div 4 + 100) d = (mem, d1)" by fastforce
  note d1 = mallocSocketData_keeps [OF m]
  show ?thesis
  proof (cases mem)
    case None
    then show ?thesis using True m by (intro that [of d1]) (auto simp: saveSocketData_def)
  next
    case (Some buf)
    then have bl: "length buf = 2 * n + n div 4 + 101" using d1(4) by simp
    define d2 where "d2 = snd (lum_getSystemTime E d1)"
    obtain k buf1 where h: "formatHeaderData E bRecive m buf d1 = Some ((k, buf1), d2)"
      "k \<le> 24" "length buf1 = length buf"
      using formatHeaderData_ok [of buf E d1 bRecive m] bl g unfolding d2_def by auto
    obtain j buf2 where f: "formatSockeData bytes n k buf1 = Some (j, buf2)"
      "k + j \<le> length buf1" "length buf2 = length buf1"
      using formatSockeData_ok [OF n, of k buf1] h bl by auto
    have ga: "devIpAddr (globalData d1) = devIpAddr (globalData d)"
      using m by (cases E "2 * n + n div 4 + 100" d rule: mallocSocketData_cases) auto
    have "\<exists>r d3. lum_sendUdpLog E buf2 (k + j) d2 = Some (r, d3)"
      using f h ip ga by (auto simp: lum_sendUdpLog_def getDeviceIpAddress_def rds_def d2_def)
    then obtain r d3 where "lum_sendUdpLog E buf2 (k + j) d2 = Some (r, d3)" by blast
    then show ?thesis using True m Some h f
      by (intro that [of "FreeSocketData d3"]) (auto simp: saveSocketData_def)
  qed
qed

text \<open>
  Printing a packet to the log never leaves its buffers: on a device that knows its
  address, every packet of any length is formatted inside the \<open>2 n + n div 4 + 101\<close> bytes that
  were allocated for it, and sent, or dropped when there is no memory.
\<close>

theorem packet_log_fits:
  "n \<le> length bytes \<Longrightarrow> devIpAddr (globalData d) \<noteq> 0 \<Longrightarrow> devIpAddr (globalData d) \<noteq> 0xFFFFFFFF \<Longrightarrow>
   \<exists>d'. saveSocketData E bRecive m (Some bytes) n d = Some d'"
  using saveSocketData_ok [of n bytes d E bRecive m] lum_gmtime_total by metis

theorem packet_log_fits_witness:
  "\<forall>E. \<exists>d'. saveSocketData E True MSG_FROM_UDP (Some (replicate 255 7)) 255
     (power_on\<lparr>deviceConfigData := zero_config\<lparr>udpLogFlag := 1\<rparr>,
        globalData := zero_global\<lparr>devIpAddr := 5\<rparr>\<rparr>) = Some d'"
  by (intro allI packet_log_fits) simp_all

end
