(* ===== verification/Gpio.thy ===== *)
theory Gpio
  imports Udp_Log
begin

text \<open>
  The relay and the WiFi LED (\<open>deviceGpio.c\<close>) with the LED timer of \<open>deviceMisc.c\<close>.  Every
  change of the relay is reported by a local message.
\<close>

datatype switch_pin_flag = SWITCH_PIN_1 | SWITCH_PIN_2 | SWITCH_PIN_3 | SWITCH_PIN_4

abbreviation (input) "MSG_CMD_REPORT_GPIO_CHANGE \<equiv> 0x06"

definition pin_number :: "switch_pin_flag \<Rightarrow> u32" where
  "pin_number p = (case p of SWITCH_PIN_1 \<Rightarrow> 0 | SWITCH_PIN_2 \<Rightarrow> 1 | SWITCH_PIN_3 \<Rightarrow> 2
     | SWITCH_PIN_4 \<Rightarrow> 3)"

definition status_number :: "switch_status \<Rightarrow> u32" where
  "status_number s = (case s of SWITCH_CLOSE \<Rightarrow> 0 | SWITCH_OPEN \<Rightarrow> 1)"

text \<open>\<open>GPIO_CHANGE_REPORT\<close>: two enumerations of four bytes.\<close>

definition gpio_change_report :: "switch_status \<Rightarrow> switch_pin_flag \<Rightarrow> u8 list" where
  "gpio_change_report action p = le32 (status_number action) @ le32 (pin_number p)"

text \<open>With a single relay every flag stands for \<open>HFGPIO_F_SWITCH\<close>.\<close>

definition lum_getSwitchFlag :: "switch_pin_flag \<Rightarrow> pin" where
  "lum_getSwitchFlag switchFlag = HFGPIO_F_SWITCH"

definition read_pin :: "sdk \<Rightarrow> pin \<Rightarrow> device \<Rightarrow> bool \<times> device" where
  "read_pin E p d = (hfgpio_fpin_is_high E (trace d) p, call (Pin_read p) d)"

definition getSwitchStatus :: "sdk \<Rightarrow> switch_pin_flag \<Rightarrow> device \<Rightarrow> switch_status \<times> device" where
  "getSwitchStatus E switchFlag d =
     (let (high, d1) = read_pin E (lum_getSwitchFlag switchFlag) d
      in (if high then SWITCH_OPEN else SWITCH_CLOSE, d1))"

definition setSwitchStatus ::
    "sdk \<Rightarrow> switch_status \<Rightarrow> switch_pin_flag \<Rightarrow> device \<Rightarrow> device option" where
  "setSwitchStatus E action switchFlag d =
     (let (switchStatus, d1) = getSwitchStatus E switchFlag d;
          fid = lum_getSwitchFlag switchFlag;
          d2 = (if action = SWITCH_OPEN then call (Pin_high fid) d1 else call (Pin_low fid) d1)
      in if action \<noteq> switchStatus
         then map_option snd (insertLocalMsgToList E MSG_LOCAL_EVENT
                (Some (gpio_change_report action switchFlag)) 8 MSG_CMD_REPORT_GPIO_CHANGE d2)
         else Some d2)"

definition changeSwitchStatus :: "sdk \<Rightarrow> switch_pin_flag \<Rightarrow> device \<Rightarrow> device option" where
  "changeSwitchStatus E switchFlag d =
     (let (s, d1) = getSwitchStatus E switchFlag d
      in if s = SWITCH_OPEN then setSwitchStatus E SWITCH_CLOSE switchFlag d1
         else setSwitchStatus E SWITCH_OPEN switchFlag d1)"

text \<open>The LED is lit by a low level; closing it sets the pin without reading it.\<close>

definition changeWifiLedStatus :: "sdk \<Rightarrow> bool \<Rightarrow> device \<Rightarrow> device" where
  "changeWifiLedStatus E needClose d =
     (if needClose then call (Pin_high HFGPIO_F_WIFI_LED) d
      else let (high, d1) = read_pin E HFGPIO_F_WIFI_LED d
           in if \<not> high then call (Pin_high HFGPIO_F_WIFI_LED) d1
              else call (Pin_low HFGPIO_F_WIFI_LED) d1)"

datatype wifi_led_status = WIFILED_CLOSE | WIFI_LED_AP_DISCONNECT | WIFI_LED_TCP_DISCONNECT
  | WIFI_LED_SMARTLINK

definition wifiLedTimerCallback :: "sdk \<Rightarrow> device \<Rightarrow> device" where
  "wifiLedTimerCallback E d =
     call (Timer_change WIFI_LED_TIMER_ID (ucast (wifiLedPeriod d))) (changeWifiLedStatus E False d)"

definition setWifiLedStatus :: "sdk \<Rightarrow> wifi_led_status \<Rightarrow> device \<Rightarrow> device" where
  "setWifiLedStatus E ledStatus d =
     (let d1 = (if timers d WIFI_LED_TIMER_ID then d
                else (call (Timer_create WIFI_LED_TIMER_ID 2000) d)\<lparr>timers := (timers d)
                  (WIFI_LED_TIMER_ID := hftimer_create E (trace d) WIFI_LED_TIMER_ID)\<rparr>)
      in case ledStatus of
        WIFILED_CLOSE \<Rightarrow> changeWifiLedStatus E True (call (Timer_stop WIFI_LED_TIMER_ID) d1)
      | WIFI_LED_AP_DISCONNECT \<Rightarrow> wifiLedTimerCallback E (d1\<lparr>wifiLedPeriod := 1000\<rparr>)
      | WIFI_LED_TCP_DISCONNECT \<Rightarrow> wifiLedTimerCallback E (d1\<lparr>wifiLedPeriod := 400\<rparr>)
      | WIFI_LED_SMARTLINK \<Rightarrow> wifiLedTimerCallback E (d1\<lparr>wifiLedPeriod := 150\<rparr>))"

section \<open>Properties\<close>

text \<open>
  Setting the switch never touches the configuration, and queues at most one message, a
  report of the new status.
\<close>

definition report_msg :: "switch_status \<Rightarrow> switch_pin_flag \<Rightarrow> msg_node_body" where
  "report_msg action p = local_msg MSG_LOCAL_EVENT (Some (gpio_change_report action p)) 8
     MSG_CMD_REPORT_GPIO_CHANGE"

lemma length_gpio_change_report [simp]: "length (gpio_change_report a p) = 8"
  by (simp add: gpio_change_report_def)

lemma setSwitchStatus_unfold:
  "setSwitchStatus E action p d =
     (let high = hfgpio_fpin_is_high E (trace d) HFGPIO_F_SWITCH;
          d2 = call (if action = SWITCH_OPEN then Pin_high HFGPIO_F_SWITCH
                     else Pin_low HFGPIO_F_SWITCH) (call (Pin_read HFGPIO_F_SWITCH) d)
      in if high \<longleftrightarrow> action = SWITCH_OPEN then Some d2
         else map_option snd (insertLocalMsgToList E MSG_LOCAL_EVENT
                (Some (gpio_change_report action p)) 8 MSG_CMD_REPORT_GPIO_CHANGE d2))"
  by (cases action)
    (auto simp: setSwitchStatus_def getSwitchStatus_def read_pin_def lum_getSwitchFlag_def Let_def)

lemma setSwitchStatus_core:
  assumes "setSwitchStatus E action p d = Some d'"
  shows "core d' = core d" "last_saved (trace d') = last_saved (trace d)"
    "relay_level (trace d') = Some (action = SWITCH_OPEN)"
  using assms
  by (auto simp: setSwitchStatus_unfold Let_def insertLocalMsgToList_core split: if_splits)

lemma setSwitchStatus_msgs:
  assumes q: "msgs d q" "length q < 256"
  obtains d' where "setSwitchStatus E action p d = Some d'"
    "msgs d' q \<and> nextAddr d' = nextAddr d
       \<and> ((hfgpio_fpin_is_high E (trace d) HFGPIO_F_SWITCH \<longleftrightarrow> action = SWITCH_OPEN)
          \<or> (\<exists>tr n. \<not> hfmem_malloc E tr n))
     \<or> msgs d' (q @ [(nextAddr d, report_msg action p)]) \<and> nextAddr d' = nextAddr d + 1
       \<and> \<not> (hfgpio_fpin_is_high E (trace d) HFGPIO_F_SWITCH \<longleftrightarrow> action = SWITCH_OPEN)"
proof -
  define d2 where "d2 = call (if action = SWITCH_OPEN then Pin_high HFGPIO_F_SWITCH
    else Pin_low HFGPIO_F_SWITCH) (call (Pin_read HFGPIO_F_SWITCH) d)"
  have d2: "msgs d2 q" "nextAddr d2 = nextAddr d" using q by (simp_all add: d2_def)
  obtain r d' where "insertLocalMsgToList E MSG_LOCAL_EVENT (Some (gpio_change_report action p)) 8
      MSG_CMD_REPORT_GPIO_CHANGE d2 = Some (r, d')"
    "msgs d' q \<and> nextAddr d' = nextAddr d \<and> (\<exists>tr n. \<not> hfmem_malloc E tr n)
     \<or> msgs d' (q @ [(nextAddr d, report_msg action p)]) \<and> nextAddr d' = nextAddr d + 1"
    by (rule insertLocalMsgToList_msgs [OF d2(1) q(2), of "Some (gpio_change_report action p)" 8 E
        MSG_LOCAL_EVENT MSG_CMD_REPORT_GPIO_CHANGE]) (use d2(2) in \<open>auto simp: report_msg_def\<close>)
  then show ?thesis using d2
    by (cases "hfgpio_fpin_is_high E (trace d) HFGPIO_F_SWITCH \<longleftrightarrow> action = SWITCH_OPEN")
      (auto simp: setSwitchStatus_unfold Let_def d2_def intro: that)
qed

end
