(* ===== verification/Ito_Common.thy ===== *)
theory Ito_Common
  imports Gpio
begin

text \<open>
  The saved configuration of \<open>itoCommon.c\<close>: alarms, countdown, device name, user name, lock,
  upgrade URL, and the initialisation from flash.  The setters keep the shape of the arrays
  and save what they change.  (Setting absence data also re-evaluates the absence timer: see
  \<open>Lum_Timer\<close>.)
\<close>

abbreviation (input) "MSG_CMD_MODULE_UPGRADE \<equiv> 0x65"

section \<open>Serial numbers, names\<close>

definition getSocketSn :: "bool \<Rightarrow> device \<Rightarrow> u16 \<times> device" where
  "getSocketSn needIncrease d =
     (let d1 = (if needIncrease
                then upd_global (\<lambda>g. g\<lparr>socketSn :=
                       (let n = socketSn g + 1 in if n \<ge> INVALID_SN_NUM then 0 else n)\<rparr>) d
                else d)
      in (socketSn (globalData d1), d1))"

definition setServerAddr :: "socket_addr \<Rightarrow> device \<Rightarrow> device" where
  "setServerAddr a d = upd_global (\<lambda>g. g\<lparr>tcpServerAddr := a\<rparr>) d"

definition getServerAddr :: "device \<Rightarrow> socket_addr" where
  "getServerAddr d = tcpServerAddr (globalData d)"

definition setDeviceName :: "device_name_data \<Rightarrow> device \<Rightarrow> device" where
  "setDeviceName nd d = saveDeviceConfigData (upd_config (\<lambda>c. c\<lparr>deviceName := nd\<rparr>) d)"

definition DEFAULT_MODUAL_NAME :: "u8 list" where
  "DEFAULT_MODUAL_NAME = ascii ''LumSwitch''"

definition initDeviceNameData :: "device \<Rightarrow> device" where
  "initDeviceNameData d =
     (let n = length DEFAULT_MODUAL_NAME
      in upd_config (\<lambda>c. c\<lparr>deviceName :=
           \<lparr>nameLen = of_nat n,
            nameData = DEFAULT_MODUAL_NAME @ drop n (nameData (deviceName c))\<rparr>\<rparr>) d)"

section \<open>Alarms\<close>

text \<open>
  The search for a free slot: \<open>n\<close> slots from \<open>i\<close>, \<open>Some None\<close> when none of them is free.
\<close>

fun empty_place :: "('a \<Rightarrow> bool) \<Rightarrow> nat \<Rightarrow> nat \<Rightarrow> 'a list \<Rightarrow> nat option option" where
  "empty_place P 0 i xs = Some None"
| "empty_place P (Suc n) i xs =
     (if i < length xs then if P (xs ! i) then Some (Some i) else empty_place P n (Suc i) xs
      else None)"

definition alarm_free :: "alarm_data_info \<Rightarrow> bool" where
  "alarm_free a \<longleftrightarrow> startHour a = 0xFF \<and> stopHour a = INVALID_ALARM_FLAG"

definition lum_getEmptyAlarmPlace :: "u8 \<Rightarrow> device \<Rightarrow> u8 option" where
  "lum_getEmptyAlarmPlace offset d =
     map_option (\<lambda>r. case r of None \<Rightarrow> ADD_ALARM_INDEX_EMPTY | Some i \<Rightarrow> of_nat i)
       (empty_place alarm_free MAX_ALARM_COUNT (unat offset) (alarmData (deviceConfigData d)))"

definition setAlarmData :: "alarm_data_info \<Rightarrow> u8 \<Rightarrow> u8 \<Rightarrow> device \<Rightarrow> (u8 \<times> device) option" where
  "setAlarmData alarm index offset d = do {
     tmpIndex \<leftarrow> (if index = ADD_ALARM_INDEX_EMPTY then lum_getEmptyAlarmPlace offset d
                  else Some index);
     if tmpIndex = ADD_ALARM_INDEX_EMPTY \<or> uint tmpIndex - uint offset \<ge> MAX_ALARM_COUNT
     then Some (ADD_ALARM_INDEX_EMPTY, d)
     else if unat tmpIndex < length (alarmData (deviceConfigData d))
     then Some (tmpIndex - offset,
            saveDeviceConfigData (upd_config (\<lambda>c. c\<lparr>alarmData :=
              (alarmData c)[unat tmpIndex := alarm]\<rparr>) d))
     else None
   }"

definition erased_alarm :: "alarm_data_info \<Rightarrow> alarm_data_info" where
  "erased_alarm a = a\<lparr>repeatData := set_bActive False (repeatData a),
     startHour := INVALID_ALARM_FLAG, startMinute := INVALID_ALARM_FLAG,
     stopHour := INVALID_ALARM_FLAG, stopMinute := INVALID_ALARM_FLAG, reserved := 0\<rparr>"

definition deleteAlarmData :: "u8 \<Rightarrow> bool \<Rightarrow> device \<Rightarrow> device" where
  "deleteAlarmData index needSave d =
     (if index \<ge> MAX_ALARM_COUNT then d
      else let d1 = upd_config (\<lambda>c. c\<lparr>alarmData := (alarmData c)[unat index :=
                      erased_alarm (alarmData c ! unat index)]\<rparr>) d
           in if needSave then saveDeviceConfigData d1 else d1)"

definition getAlarmData :: "u8 \<Rightarrow> device \<Rightarrow> alarm_data_info option" where
  "getAlarmData index d =
     (if index \<ge> MAX_ALARM_COUNT then None else Some (alarmData (deviceConfigData d) ! unat index))"

definition initAlarmData :: "device \<Rightarrow> device" where
  "initAlarmData d = fold (\<lambda>i. deleteAlarmData (of_nat i) False) [0..<MAX_ALARM_COUNT] d"

section \<open>Absence slots\<close>

definition erased_absence :: absence_data_info where
  "erased_absence = zero_absence\<lparr>absStartHour := INVALID_ALARM_FLAG\<rparr>"

text \<open>\<open>deleteAbsenceData\<close> up to the check of \<open>needSave\<close>.\<close>

definition eraseAbsenceData :: "u8 \<Rightarrow> device \<Rightarrow> device" where
  "eraseAbsenceData index d =
     (if index \<ge> MAX_ABSENCE_COUNT then d
      else upd_config (\<lambda>c. c\<lparr>absenceData := (absenceData c)[unat index := erased_absence]\<rparr>) d)"

definition initAbsenceData :: "device \<Rightarrow> device" where
  "initAbsenceData d = fold (\<lambda>i. eraseAbsenceData (of_nat i)) [0..<MAX_ABSENCE_COUNT]
     (upd_config (\<lambda>c. c\<lparr>absenceData := replicate MAX_ABSENCE_COUNT zero_absence\<rparr>) d)"

definition absence_free :: "absence_data_info \<Rightarrow> bool" where
  "absence_free a \<longleftrightarrow> absStartHour a = INVALID_ALARM_FLAG"

definition lum_getAbsenceEmptyPlace :: "u8 \<Rightarrow> device \<Rightarrow> u8 option" where
  "lum_getAbsenceEmptyPlace offset d =
     map_option (\<lambda>r. case r of None \<Rightarrow> ADD_ALARM_INDEX_EMPTY | Some i \<Rightarrow> of_nat i)
       (empty_place absence_free MAX_ABSENCE_COUNT (unat offset) (absenceData (deviceConfigData d)))"

definition getAbsenceData :: "u8 \<Rightarrow> device \<Rightarrow> absence_data_info option" where
  "getAbsenceData index d =
     (if index \<ge> MAX_ABSENCE_COUNT then None
      else Some (absenceData (deviceConfigData d) ! unat index))"

section \<open>Countdown\<close>

definition initCountDownData :: "device \<Rightarrow> device" where
  "initCountDownData d =
     upd_config (\<lambda>c. c\<lparr>countDownData := replicate MAX_COUNTDOWN_COUNT zero_countdown\<rparr>) d"

definition setCountDownData :: "countdown_data_info \<Rightarrow> u8 \<Rightarrow> device \<Rightarrow> device" where
  "setCountDownData cd index d =
     (if index \<ge> MAX_COUNTDOWN_COUNT then d
      else saveDeviceConfigData (upd_config (\<lambda>c. c\<lparr>countDownData :=
             (countDownData c)[unat index := cd]\<rparr>) d))"

definition deleteCountDownData :: "u8 \<Rightarrow> device \<Rightarrow> device" where
  "deleteCountDownData index d =
     (if index \<ge> MAX_COUNTDOWN_COUNT then d
      else saveDeviceConfigData (upd_config (\<lambda>c. c\<lparr>countDownData :=
             (countDownData c)[unat index := zero_countdown]\<rparr>) d))"

definition getCountDownData :: "u8 \<Rightarrow> device \<Rightarrow> countdown_data_info option" where
  "getCountDownData index d =
     (if index \<ge> MAX_COUNTDOWN_COUNT then None
      else Some (countDownData (deviceConfigData d) ! unat index))"

section \<open>Initialisation and factory reset\<close>

definition globalConfigDataInit :: "sdk \<Rightarrow> bool \<Rightarrow> device \<Rightarrow> device" where
  "globalConfigDataInit E factoryReset d =
     (let d1 = d\<lparr>deviceConfigData := zero_config, globalData := zero_global\<rparr>;
          d2 = (if \<not> factoryReset
                then (call Userbin_read d1)\<lparr>deviceConfigData := hffile_userbin_read E (trace d1)\<rparr>
                else d1)
      in if lumitekFlag (deviceConfigData d2) \<noteq> LUMITEK_SW_FLAG
         then let d3 = (call Userbin_zero d2)\<lparr>deviceConfigData := zero_config\<lparr>lumitekFlag :=
                         LUMITEK_SW_FLAG\<rparr>, globalData := zero_global\<rparr>;
                  d4 = initCountDownData (initAbsenceData (initAlarmData (initDeviceNameData d3)))
              in if \<not> factoryReset then saveDeviceConfigData d4 else d4
         else d2)"

definition sendSmartLinkCmd :: "sdk \<Rightarrow> device \<Rightarrow> device" where
  "sendSmartLinkCmd E d = snd (at_command E (ascii ''AT+SMTLK'' @ crlf @ [0]) d)"

definition lum_deviceFactoryReset :: "sdk \<Rightarrow> device \<Rightarrow> device" where
  "lum_deviceFactoryReset E d =
     (let d1 = globalConfigDataInit E True d;
          d2 = saveDeviceConfigData (upd_config (\<lambda>c. c\<lparr>needSmartLink := 1\<rparr>) d1)
      in sendSmartLinkCmd E (call (Msleep 150) d2))"

datatype device_reset_type = RESET_FOR_NORMAL | RESET_FOR_SMARTLINK | RESET_FOR_SMARTLINK_OK
  | RESET_FOR_UPGRADE

definition checkResetType :: "sdk \<Rightarrow> device \<Rightarrow> device_reset_type \<times> device" where
  "checkResetType E d =
     (let d1 = globalConfigDataInit E False d;
          resetReason = hfsys_get_reset_reason E (trace d1);
          d2 = call Get_reset_reason d1
      in (if bit resetReason 4 then RESET_FOR_SMARTLINK
          else if upgradeFlag (upgradeData (deviceConfigData d2)) = SOFTWARE_UPGRADE_FLAG
          then RESET_FOR_UPGRADE
          else if bit resetReason 5 then RESET_FOR_SMARTLINK_OK else RESET_FOR_NORMAL, d2))"

section \<open>User name, lock, versions, upgrade\<close>

definition lum_setUserName :: "u8 list \<Rightarrow> device \<Rightarrow> device option" where
  "lum_setUserName name d = do {
     s \<leftarrow> cstr name;
     let n = length s mod 256;
     let len = (if n \<ge> MAX_USER_NAME_LEN then MAX_USER_NAME_LEN - 2 else n);
     Some (saveDeviceConfigData (upd_config (\<lambda>c. c\<lparr>userName :=
       take len s @ replicate (MAX_USER_NAME_LEN - len) 0\<rparr>) d))
   }"

definition changeDeviceSwVersion :: "u8 \<Rightarrow> device \<Rightarrow> device" where
  "changeDeviceSwVersion v d =
     (if swVersion (deviceConfigData d) \<noteq> v
      then saveDeviceConfigData (upd_config (\<lambda>c. c\<lparr>swVersion := v\<rparr>) d) else d)"

definition changeDeviceLockedStatus :: "bool \<Rightarrow> device \<Rightarrow> device" where
  "changeDeviceLockedStatus b d =
     (let status = (if b then 1 else 0)
      in if bLocked (deviceConfigData d) \<noteq> status
         then saveDeviceConfigData (upd_config (\<lambda>c. c\<lparr>bLocked := status\<rparr>) d) else d)"

definition getDeviceLockedStatus :: "device \<Rightarrow> bool" where
  "getDeviceLockedStatus d = (bLocked (deviceConfigData d) \<noteq> 0)"

definition lum_setFactorySmartlink :: "bool \<Rightarrow> device \<Rightarrow> device" where
  "lum_setFactorySmartlink b d = saveDeviceConfigData
     (upd_config (\<lambda>c. c\<lparr>needSmartLink := (if b then 1 else 0)\<rparr>) d)"

definition lum_setUdpLogFlag :: "u8 \<Rightarrow> device \<Rightarrow> device" where
  "lum_setUdpLogFlag b d = upd_config (\<lambda>c. c\<lparr>udpLogFlag := b\<rparr>) d"

text \<open>
  The length byte is checked, but \<open>strcpy\<close> copies up to the terminating zero: more than 110
  bytes are written past \<open>urlData\<close>.
\<close>

definition setSoftwareUpgradeUrl :: "sdk \<Rightarrow> u8 list \<Rightarrow> u8 \<Rightarrow> device \<Rightarrow> device option" where
  "setSoftwareUpgradeUrl E url urlLen d =
     (if urlLen \<ge> MAX_UPGRADE_URL_LEN then Some d
      else do {
        s \<leftarrow> cstr url;
        buf \<leftarrow> wrs (replicate MAX_UPGRADE_URL_LEN 0) 0 (s @ [0]);
        let d1 = saveDeviceConfigData (upd_config (\<lambda>c. c\<lparr>upgradeData :=
                   \<lparr>upgradeFlag = SOFTWARE_UPGRADE_FLAG, urlData = buf\<rparr>\<rparr>) d);
        (_, d2) \<leftarrow> insertLocalMsgToList E MSG_LOCAL_EVENT None 0 MSG_CMD_MODULE_UPGRADE d1;
        Some d2
      })"

definition clearSoftwareUpgradeFlag :: "device \<Rightarrow> device" where
  "clearSoftwareUpgradeFlag d = saveDeviceConfigData (upd_config (\<lambda>c. c\<lparr>upgradeData :=
     (upgradeData c)\<lparr>upgradeFlag := 0\<rparr>\<rparr>) d)"

section \<open>MAC address and local key\<close>

definition macAtoi :: "u8 \<Rightarrow> u8" where
  "macAtoi c =
     (if 0x41 \<le> c \<and> c \<le> 0x46 then c - 0x41 + 10
      else if 0x61 \<le> c \<and> c \<le> 0x66 then c - 0x61 + 10
      else if 0x30 \<le> c \<and> c \<le> 0x39 then c - 0x30
      else 0)"

fun mac_bytes :: "nat \<Rightarrow> u8 list \<Rightarrow> u8 list option" where
  "mac_bytes 0 s = Some []"
| "mac_bytes (Suc n) (a # b # s) =
     map_option (\<lambda>bs. (push_bit 4 (macAtoi a) + macAtoi b) # bs) (mac_bytes n s)"
| "mac_bytes (Suc n) _ = None"

definition readDeviceMacAddr :: "sdk \<Rightarrow> device \<Rightarrow> (bool \<times> device) option" where
  "readDeviceMacAddr E d =
     (let (rsp, d1) = at_command E (ascii ''AT+WSMAC'' @ crlf @ [0]) d;
          words = hfat_get_words E rsp 2;
          store = (\<lambda>m. upd_global (\<lambda>g. g\<lparr>macAddr := m\<rparr>) d1)
      in if words \<noteq> [] \<and> rsp_ok rsp
         then (if length words > 1
               then map_option (\<lambda>m. (True, store m)) (mac_bytes DEVICE_MAC_LEN (words ! 1))
               else None)
         else Some (False, store (replicate DEVICE_MAC_LEN 0)))"

definition DEFAULT_AES_KEY :: "u8 list" where
  "DEFAULT_AES_KEY = ascii ''1234567890abcdef''"

definition CreateLocalAesKey :: "device \<Rightarrow> device" where
  "CreateLocalAesKey d = upd_global (\<lambda>g. g\<lparr>keyData :=
     (keyData g)\<lparr>localAesKeyValid := True, localKey := DEFAULT_AES_KEY\<rparr>\<rparr>) d"

section \<open>Slots\<close>

lemma empty_place_find:
  "i + n \<le> length xs \<Longrightarrow> empty_place P n i xs = Some (find (\<lambda>k. P (xs ! k)) [i..<i + n])"
proof (induction n arbitrary: i)
  case (Suc n)
  have "[i..<i + Suc n] = i # [Suc i..<Suc i + n]" by (simp add: upt_rec)
  then show ?case using Suc by simp
qed simp

lemma find_upt_bound: "find P [i..<j] = Some k \<Longrightarrow> i \<le> k \<and> k < j \<and> P k"
  by (auto simp: find_Some_iff nth_append)

lemma upd_config_shape:
  "config_shape (f (deviceConfigData d)) \<Longrightarrow>
   config_shape (deviceConfigData (saveDeviceConfigData (upd_config f d)))"
  by simp

lemma config_shape_alarmData [simp]:
  "config_shape (c\<lparr>alarmData := xs\<rparr>) \<longleftrightarrow> length xs = MAX_ALARM_COUNT \<and>
     length (absenceData c) = MAX_ABSENCE_COUNT \<and> length (countDownData c) = MAX_COUNTDOWN_COUNT
     \<and> length (nameData (deviceName c)) = DEVICE_NAME_LEN
     \<and> length (urlData (upgradeData c)) = MAX_UPGRADE_URL_LEN
     \<and> length (userName c) = MAX_USER_NAME_LEN"
  by (simp add: config_shape_def)

lemma config_shapeD:
  assumes "config_shape c"
  shows "length (alarmData c) = MAX_ALARM_COUNT" "length (absenceData c) = MAX_ABSENCE_COUNT"
    "length (countDownData c) = MAX_COUNTDOWN_COUNT"
    "length (nameData (deviceName c)) = DEVICE_NAME_LEN"
    "length (urlData (upgradeData c)) = MAX_UPGRADE_URL_LEN"
    "length (userName c) = MAX_USER_NAME_LEN"
  using assms by (auto simp: config_shape_def)

text \<open>
  The slot an index of \<open>setAlarmData\<close> selects: the first free one, the one it names, or none.
\<close>

definition alarm_slot :: "alarm_data_info list \<Rightarrow> u8 \<Rightarrow> nat option" where
  "alarm_slot xs index =
     (if index = ADD_ALARM_INDEX_EMPTY then find (\<lambda>k. alarm_free (xs ! k)) [0..<MAX_ALARM_COUNT]
      else if unat index < MAX_ALARM_COUNT then Some (unat index) else None)"

definition store_alarm :: "nat \<Rightarrow> alarm_data_info \<Rightarrow> device \<Rightarrow> device" where
  "store_alarm k a d = saveDeviceConfigData
     (upd_config (\<lambda>c. c\<lparr>alarmData := (alarmData c)[k := a]\<rparr>) d)"

lemma setAlarmData_slot:
  assumes shape: "config_shape (deviceConfigData d)"
  shows "setAlarmData a index 0 d =
    (case alarm_slot (alarmData (deviceConfigData d)) index of
       None \<Rightarrow> Some (ADD_ALARM_INDEX_EMPTY, d)
     | Some k \<Rightarrow> Some (of_nat k, store_alarm k a d))"
proof (cases "index = ADD_ALARM_INDEX_EMPTY")
  case True
  let ?xs = "alarmData (deviceConfigData d)"
  have e: "empty_place alarm_free MAX_ALARM_COUNT (unat (0 :: u8)) ?xs
      = Some (find (\<lambda>k. alarm_free (?xs ! k)) [0..<MAX_ALARM_COUNT])"
    using empty_place_find [of 0 MAX_ALARM_COUNT ?xs alarm_free] config_shapeD [OF shape] by simp
  show ?thesis
  proof (cases "find (\<lambda>k. alarm_free (?xs ! k)) [0..<MAX_ALARM_COUNT]")
    case None
    then show ?thesis using True e
      by (simp add: setAlarmData_def lum_getEmptyAlarmPlace_def alarm_slot_def)
  next
    case (Some k)
    then have k: "k < 32" using find_upt_bound [OF Some] by simp
    then have u: "uint (of_nat k :: u8) = int k" "unat (of_nat k :: u8) = k"
      by (simp_all add: uint_nat unat_of_nat)
    have ne: "(of_nat k :: u8) \<noteq> ADD_ALARM_INDEX_EMPTY"
    proof
      assume e: "(of_nat k :: u8) = ADD_ALARM_INDEX_EMPTY"
      have "unat (of_nat k :: u8) = 254" by (subst e) simp
      with u k show False by simp
    qed
    have g: "lum_getEmptyAlarmPlace 0 d = Some (of_nat k)"
      unfolding lum_getEmptyAlarmPlace_def e Some by simp
    have len: "k < length ?xs" using k config_shapeD(1) [OF shape] by simp
    have s: "alarm_slot ?xs ADD_ALARM_INDEX_EMPTY = Some k"
      unfolding alarm_slot_def Some by simp
    have "\<not> uint (of_nat k :: u8) - uint (0 :: u8) \<ge> MAX_ALARM_COUNT" using k u(1) by simp
    then show ?thesis using ne len
      unfolding True s setAlarmData_def if_P [OF refl] g
      by (simp add: u(2) store_alarm_def)
  qed
next
  case False
  have "uint index = int (unat index)" by simp
  then have h: "(32 \<le> uint index) = (32 \<le> unat index)" by linarith
  show ?thesis
    by (cases "32 \<le> unat index")
      (simp_all add: setAlarmData_def alarm_slot_def store_alarm_def False h
        config_shapeD(1) [OF shape])
qed

text \<open>
  An alarm index of \<open>0xFE\<close> stores the alarm in the first free slot, an index
  below 32 in that slot; the new configuration is written to flash and the slot number
  returned.  Without a free slot, or with any other index, nothing changes and \<open>0xFE\<close> is
  returned.
\<close>

theorem setAlarmData_first_free:
  "config_shape (deviceConfigData d) \<Longrightarrow> setAlarmData a index 0 d =
    (case alarm_slot (alarmData (deviceConfigData d)) index of
       None \<Rightarrow> Some (ADD_ALARM_INDEX_EMPTY, d)
     | Some k \<Rightarrow> Some (of_nat k, store_alarm k a d))"
  by (rule setAlarmData_slot)

lemma config_shape_power_on: "config_shape (deviceConfigData power_on)"
  by (simp add: power_on_def)

theorem setAlarmData_first_free_witness:
  "setAlarmData zero_alarm 3 0 power_on = Some (3, store_alarm 3 zero_alarm power_on)"
  using setAlarmData_first_free [OF config_shape_power_on, of zero_alarm 3]
  by (simp add: alarm_slot_def)

lemma alarm_slot_bound: "alarm_slot xs index = Some k \<Longrightarrow> k < MAX_ALARM_COUNT"
  using find_upt_bound [of _ 0 MAX_ALARM_COUNT k] by (auto simp: alarm_slot_def split: if_splits)

text \<open>
  Looking an alarm up returns what was stored and leaves the other slots as they
  were; deleting it frees the slot again.
\<close>

theorem alarm_store_lookup_delete:
  "config_shape (deviceConfigData d) \<Longrightarrow> setAlarmData a index 0 d = Some (k, d') \<Longrightarrow>
   k \<noteq> ADD_ALARM_INDEX_EMPTY \<Longrightarrow>
   getAlarmData k d' = Some a
   \<and> (\<forall>j. j = k \<or> getAlarmData j d' = getAlarmData j d)
   \<and> config_saved d'
   \<and> map_option alarm_free (getAlarmData k (deleteAlarmData k True d')) = Some True
   \<and> (\<forall>j. j = k \<or> getAlarmData j (deleteAlarmData k True d') = getAlarmData j d)"
proof -
  assume shape: "config_shape (deviceConfigData d)" and set: "setAlarmData a index 0 d = Some (k, d')"
    and k: "k \<noteq> ADD_ALARM_INDEX_EMPTY"
  obtain n where n: "alarm_slot (alarmData (deviceConfigData d)) index = Some n"
    and kn: "k = of_nat n" and d': "d' = store_alarm n a d"
    using set k by (simp add: setAlarmData_slot [OF shape] split: option.splits)
  have "n < 32" using alarm_slot_bound [OF n] by simp
  then have un: "unat k = n" "k < 32" by (simp_all add: kn unat_of_nat word_less_nat_alt)
  have ne: "unat j \<noteq> n" if "j \<noteq> k" for j :: u8
    using that un(1) unsigned_word_eqI [of j k, where ?'a = nat] by auto
  have len: "length (alarmData (deviceConfigData d)) = 32" using config_shapeD [OF shape] by simp
  have upd: "xs[n := v] ! unat j = xs ! unat j" if "j \<noteq> k" for xs :: "alarm_data_info list" and v j
    using ne [OF that] by simp
  show ?thesis
  proof (intro conjI allI)
    have nk: "\<not> 32 \<le> k" using un(2) by simp
    show "getAlarmData k d' = Some a" "config_saved d'"
      "map_option alarm_free (getAlarmData k (deleteAlarmData k True d')) = Some True"
      using un(1) nk len \<open>n < 32\<close>
      by (auto simp: d' getAlarmData_def store_alarm_def deleteAlarmData_def alarm_free_def
          erased_alarm_def Let_def not_le)
    fix j
    show "j = k \<or> getAlarmData j d' = getAlarmData j d"
      by (cases "j = k") (simp_all add: d' getAlarmData_def store_alarm_def upd)
    show "j = k \<or> getAlarmData j (deleteAlarmData k True d') = getAlarmData j d"
      using un by (cases "j = k")
        (simp_all add: d' getAlarmData_def store_alarm_def deleteAlarmData_def upd Let_def)
  qed
qed

theorem alarm_store_lookup_delete_witness:
  "getAlarmData 3 (store_alarm 3 zero_alarm power_on) = Some zero_alarm"
  using alarm_store_lookup_delete [OF config_shape_power_on, of zero_alarm 3 3
      "store_alarm 3 zero_alarm power_on"]
  by (simp add: setAlarmData_slot [OF config_shape_power_on] alarm_slot_def)

section \<open>The shape of the configuration\<close>

lemma setAlarmData_shape:
  assumes "setAlarmData a index offset d = Some (r, d')" "config_shape (deviceConfigData d)"
  shows "config_shape (deviceConfigData d')"
  using assms by (auto simp: setAlarmData_def config_shape_def split: if_splits bind_splits)

lemma deleteAlarmData_shape:
  "config_shape (deviceConfigData d) \<Longrightarrow> config_shape (deviceConfigData (deleteAlarmData i b d))"
  by (auto simp: deleteAlarmData_def config_shape_def Let_def)

lemma eraseAbsenceData_shape:
  "config_shape (deviceConfigData d) \<Longrightarrow> config_shape (deviceConfigData (eraseAbsenceData i d))"
  by (auto simp: eraseAbsenceData_def config_shape_def)

lemma fold_shape:
  "(\<And>x e. config_shape (deviceConfigData e) \<Longrightarrow> config_shape (deviceConfigData (f x e))) \<Longrightarrow>
   config_shape (deviceConfigData d) \<Longrightarrow> config_shape (deviceConfigData (fold f xs d))"
  by (induction xs arbitrary: d) auto

lemma init_shape:
  assumes "config_shape (deviceConfigData d)"
  shows "config_shape (deviceConfigData (initDeviceNameData d))"
    "config_shape (deviceConfigData (initAlarmData d))"
    "config_shape (deviceConfigData (initAbsenceData d))"
    "config_shape (deviceConfigData (initCountDownData d))"
proof -
  show "config_shape (deviceConfigData (initDeviceNameData d))"
    using assms by (simp add: initDeviceNameData_def DEFAULT_MODUAL_NAME_def Let_def config_shape_def)
  show "config_shape (deviceConfigData (initAlarmData d))"
    unfolding initAlarmData_def by (rule fold_shape [OF deleteAlarmData_shape assms])
  have h: "config_shape (deviceConfigData
      (upd_config (\<lambda>c. c\<lparr>absenceData := replicate MAX_ABSENCE_COUNT zero_absence\<rparr>) d))"
    using assms by (simp add: config_shape_def)
  show "config_shape (deviceConfigData (initAbsenceData d))"
    unfolding initAbsenceData_def by (rule fold_shape [OF eraseAbsenceData_shape h])
  show "config_shape (deviceConfigData (initCountDownData d))"
    using assms by (simp add: initCountDownData_def config_shape_def)
qed

lemma globalConfigDataInit_shape:
  assumes "config_shape (hffile_userbin_read E (trace d))"
  shows "config_shape (deviceConfigData (globalConfigDataInit E b d))"
proof -
  have "config_shape (zero_config\<lparr>lumitekFlag := LUMITEK_SW_FLAG\<rparr>)"
    by (simp add: config_shape_def zero_config_def)
  then show ?thesis using assms
    by (auto simp: globalConfigDataInit_def Let_def intro!: init_shape)
qed

lemma lum_setUserName_shape:
  assumes "lum_setUserName s d = Some d'" "config_shape (deviceConfigData d)"
  shows "config_shape (deviceConfigData d')"
  using assms by (auto simp: lum_setUserName_def config_shape_def Let_def split: bind_splits)

lemma setSoftwareUpgradeUrl_shape:
  assumes "setSoftwareUpgradeUrl E url n d = Some d'" "config_shape (deviceConfigData d)"
  shows "config_shape (deviceConfigData d')"
  using assms
  by (auto simp: setSoftwareUpgradeUrl_def config_shape_def Let_def split: if_splits bind_splits
      dest!: insertLocalMsgToList_core(1) core_eqD(1) length_wrs)

lemma small_setters_shape:
  assumes "config_shape (deviceConfigData d)"
  shows "config_shape (deviceConfigData (setCountDownData cd i d))"
    "config_shape (deviceConfigData (deleteCountDownData i d))"
    "config_shape (deviceConfigData (changeDeviceSwVersion v d))"
    "config_shape (deviceConfigData (changeDeviceLockedStatus b d))"
    "config_shape (deviceConfigData (lum_setFactorySmartlink b d))"
    "config_shape (deviceConfigData (lum_setUdpLogFlag v d))"
    "config_shape (deviceConfigData (clearSoftwareUpgradeFlag d))"
    "length (nameData nd) = DEVICE_NAME_LEN \<Longrightarrow> config_shape (deviceConfigData (setDeviceName nd d))"
  using assms
  by (auto simp: setCountDownData_def deleteCountDownData_def changeDeviceSwVersion_def
      changeDeviceLockedStatus_def lum_setFactorySmartlink_def lum_setUdpLogFlag_def
      clearSoftwareUpgradeFlag_def setDeviceName_def config_shape_def Let_def)



section \<open>Reset\<close>

text \<open>
  A configuration whose last change was saved survives a reset: whatever the
  other state is, the initialisation reads back the same configuration.
\<close>

theorem saved_config_survives_reset:
  "userbin_persistent E \<Longrightarrow> config_saved d \<Longrightarrow> lumitekFlag (deviceConfigData d) = LUMITEK_SW_FLAG \<Longrightarrow>
   trace d0 = trace d \<Longrightarrow>
   deviceConfigData (globalConfigDataInit E False d0) = deviceConfigData d"
proof -
  assume E: "userbin_persistent E" and s: "config_saved d"
    and f: "lumitekFlag (deviceConfigData d) = LUMITEK_SW_FLAG" and t: "trace d0 = trace d"
  have "hffile_userbin_read E (trace d) = deviceConfigData d"
    using userbin_read_last_saved [OF E] s by (simp add: config_saved_def)
  then show ?thesis using f t by (simp add: globalConfigDataInit_def Let_def)
qed

text \<open>An SDK whose userbin file works and whose other calls fail.\<close>

definition plain_sdk :: sdk where
  "plain_sdk = \<lparr>hfmem_malloc = \<lambda>_ _. True, hfsys_get_time = \<lambda>_. 0, c_rand = \<lambda>_. 0,
     hfgpio_fpin_is_high = \<lambda>_ _. False,
     hffile_userbin_read = (\<lambda>tr. case last_saved tr of None \<Rightarrow> zero_config | Some c \<Rightarrow> c),
     hftimer_create = \<lambda>_ _. True, hfat_send_cmd = \<lambda>_ _. [], hfat_get_words = \<lambda>_ _. [],
     inet_addr = \<lambda>_. 0, hfsys_get_reset_reason = \<lambda>_. 0, hfnet_gethostbyname = \<lambda>_ _. None,
     c_socket = \<lambda>_. 1, c_connect = \<lambda>_ _. False, c_select = \<lambda>_ _. False,
     c_recv = \<lambda>_ _ _. None, c_recvfrom = \<lambda>_ _ _. (None, 0),
     hfhttp_parse_URL = \<lambda>_ _. True, hfhttp_open_session = \<lambda>_. True,
     hfhttp_send_request = \<lambda>_. True, hfhttp_read_content = \<lambda>_ _. None,
     hfupdate_complete = \<lambda>_ _. True, uninitialised = \<lambda>_ n. replicate n 0\<rparr>"

lemma plain_sdk_persistent: "userbin_persistent plain_sdk"
proof -
  have "last_saved (x # tr) = last_saved tr"
    if "\<forall>c. x \<noteq> Userbin_write c" "x \<noteq> Userbin_zero" for x tr
    using that by (cases x) auto
  then show ?thesis by (simp add: userbin_persistent_def plain_sdk_def)
qed

theorem saved_config_survives_reset_witness:
  "deviceConfigData (globalConfigDataInit plain_sdk False
     (power_on\<lparr>trace := [Userbin_write (zero_config\<lparr>lumitekFlag := LUMITEK_SW_FLAG\<rparr>)]\<rparr>))
   = zero_config\<lparr>lumitekFlag := LUMITEK_SW_FLAG\<rparr>"
  using saved_config_survives_reset [OF plain_sdk_persistent,
      of "saveDeviceConfigData (upd_config (\<lambda>c. c\<lparr>lumitekFlag := LUMITEK_SW_FLAG\<rparr>) power_on)"
        "power_on\<lparr>trace := [Userbin_write (zero_config\<lparr>lumitekFlag := LUMITEK_SW_FLAG\<rparr>)]\<rparr>"]
  by (simp add: power_on_def)

text \<open>The configuration of a device that has never been used.\<close>

definition default_config :: device_config_data where
  "default_config = zero_config\<lparr>lumitekFlag := LUMITEK_SW_FLAG,
     deviceName := \<lparr>nameLen = 9, nameData = DEFAULT_MODUAL_NAME @ replicate 11 0\<rparr>,
     alarmData := replicate MAX_ALARM_COUNT (erased_alarm zero_alarm),
     absenceData := replicate MAX_ABSENCE_COUNT erased_absence\<rparr>"

lemma fold_update_all:
  "n \<le> length xs \<Longrightarrow> fold (\<lambda>i ys. ys[i := f (ys ! i)]) [0..<n] xs = map f (take n xs) @ drop n xs"
proof (induction n)
  case (Suc n)
  then have "drop n xs = xs ! n # drop (Suc n) xs" by (simp add: Cons_nth_drop_Suc)
  then show ?case using Suc by (simp add: list_update_append take_Suc_conv_app_nth nth_append)
qed simp

lemma initAlarmData_fold:
  "n \<le> 32 \<Longrightarrow> fold (\<lambda>i. deleteAlarmData (of_nat i) False) [0..<n] d =
    upd_config (\<lambda>c. c\<lparr>alarmData :=
      fold (\<lambda>i ys. ys[i := erased_alarm (ys ! i)]) [0..<n] (alarmData c)\<rparr>) d"
proof (induction n)
  case 0
  show ?case by (simp add: upd_config_def)
next
  case (Suc n)
  then have "unat (of_nat n :: u8) = n" "\<not> (of_nat n :: u8) \<ge> 32"
    by (simp_all add: unat_of_nat word_le_nat_alt)
  then show ?case using Suc by (simp add: deleteAlarmData_def Let_def upd_config_def)
qed

lemma initAbsenceData_fold:
  "n \<le> 10 \<Longrightarrow> fold (\<lambda>i. eraseAbsenceData (of_nat i)) [0..<n] d =
    upd_config (\<lambda>c. c\<lparr>absenceData :=
      fold (\<lambda>i ys. ys[i := (\<lambda>_. erased_absence) (ys ! i)]) [0..<n] (absenceData c)\<rparr>) d"
proof (induction n)
  case 0
  show ?case by (simp add: upd_config_def)
next
  case (Suc n)
  then have "unat (of_nat n :: u8) = n" "\<not> (of_nat n :: u8) \<ge> 10"
    by (simp_all add: unat_of_nat word_le_nat_alt)
  then show ?case using Suc by (simp add: eraseAbsenceData_def upd_config_def)
qed

lemma globalConfigDataInit_default:
  assumes "lumitekFlag (if b then zero_config else hffile_userbin_read E (trace d)) \<noteq> LUMITEK_SW_FLAG"
  shows "deviceConfigData (globalConfigDataInit E b d) = default_config"
proof -
  have a: "deviceConfigData (initAlarmData d) = (deviceConfigData d)\<lparr>alarmData :=
      map erased_alarm (alarmData (deviceConfigData d))\<rparr>" if "length (alarmData (deviceConfigData d)) = 32" for d
    using that by (simp add: initAlarmData_def initAlarmData_fold fold_update_all)
  have b: "deviceConfigData (initAbsenceData d) = (deviceConfigData d)\<lparr>absenceData :=
      replicate 10 erased_absence\<rparr>" for d
    by (simp add: initAbsenceData_def initAbsenceData_fold [simplified] 
        fold_update_all [where f = "\<lambda>_. erased_absence", simplified] map_replicate_const)
  show ?thesis
    using assms
    by (auto simp: globalConfigDataInit_def Let_def a b initCountDownData_def initDeviceNameData_def
        zero_config_def default_config_def DEFAULT_MODUAL_NAME_def)
qed

text \<open>
  With blank flash the first start installs the default configuration, every alarm
  and absence slot free, and saves it; a factory reset installs it with the request to enter
  smartlink, and saves that.
\<close>

theorem first_start_and_factory_reset:
  "(let d' = globalConfigDataInit E False d in
     if lumitekFlag (hffile_userbin_read E (trace d)) = LUMITEK_SW_FLAG
     then deviceConfigData d' = hffile_userbin_read E (trace d)
     else deviceConfigData d' = default_config \<and> config_saved d')
   \<and> deviceConfigData (lum_deviceFactoryReset E d) = default_config\<lparr>needSmartLink := 1\<rparr>
   \<and> config_saved (lum_deviceFactoryReset E d)
   \<and> list_all alarm_free (alarmData default_config)
   \<and> list_all absence_free (absenceData default_config)"
proof (intro conjI)
  show "let d' = globalConfigDataInit E False d in
     if lumitekFlag (hffile_userbin_read E (trace d)) = LUMITEK_SW_FLAG
     then deviceConfigData d' = hffile_userbin_read E (trace d)
     else deviceConfigData d' = default_config \<and> config_saved d'"
    using globalConfigDataInit_default [of False E d]
    by (auto simp: globalConfigDataInit_def Let_def)
  have i: "deviceConfigData (globalConfigDataInit E True d) = default_config"
    by (rule globalConfigDataInit_default) (simp add: zero_config_def)
  show "deviceConfigData (lum_deviceFactoryReset E d) = default_config\<lparr>needSmartLink := 1\<rparr>"
    "config_saved (lum_deviceFactoryReset E d)"
    by (simp_all add: lum_deviceFactoryReset_def Let_def i sendSmartLinkCmd_def at_command_def
        config_saved_def)
  show "list_all alarm_free (alarmData default_config)"
    "list_all absence_free (absenceData default_config)"
    by (simp_all add: default_config_def alarm_free_def erased_alarm_def absence_free_def
        erased_absence_def list_all_iff)
qed

section \<open>Serial numbers\<close>

lemma getSocketSn_step:
  assumes "unat (socketSn (globalData d)) < 65535"
  shows "unat (socketSn (globalData (snd (getSocketSn True d))))
    = (unat (socketSn (globalData d)) + 1) mod 65535"
proof -
  let ?n = "socketSn (globalData d)"
  have u: "unat (?n + 1) = unat ?n + 1"
    using assms by (simp add: unat_word_ariths)
  show ?thesis
  proof (cases "unat ?n = 65534")
    case True
    then have "0xFFFF \<le> ?n + 1" using u by (simp add: word_le_nat_alt)
    then show ?thesis using True by (simp add: getSocketSn_def Let_def)
  next
    case False
    then have "\<not> 0xFFFF \<le> ?n + 1" using u assms by (simp add: word_le_nat_alt)
    then show ?thesis using False assms u by (simp add: getSocketSn_def Let_def)
  qed
qed

text \<open>
  Serial numbers count modulo 65535: they never take the invalid value \<open>0xFFFF\<close>,
  and one comes back only after 65535 requests.
\<close>

theorem getSocketSn_counts:
  "unat (socketSn (globalData d)) < 65535 \<Longrightarrow>
   unat (socketSn (globalData (((\<lambda>d. snd (getSocketSn True d)) ^^ n) d)))
     = (unat (socketSn (globalData d)) + n) mod 65535"
proof (induction n)
  case (Suc n)
  let ?d = "((\<lambda>d. snd (getSocketSn True d)) ^^ n) d"
  have "unat (socketSn (globalData ?d)) < 65535" using Suc by simp
  then show ?case using getSocketSn_step [of ?d] Suc by (simp add: mod_Suc_eq)
qed simp

theorem getSocketSn_counts_witness:
  "unat (socketSn (globalData (((\<lambda>d. snd (getSocketSn True d)) ^^ 70000) power_on))) = 4465"
  using getSocketSn_counts [of power_on 70000] by (simp add: power_on_def zero_global_def)

section \<open>The upgrade URL\<close>

text \<open>
  \<open>setSoftwareUpgradeUrl\<close> trusts the length byte of the packet.  A URL that is
  longer than the 109 characters the configuration has room for, sent with a small length
  byte, is copied past the end of \<open>urlData\<close>.
\<close>

theorem setSoftwareUpgradeUrl_overflow:
  "urlLen < MAX_UPGRADE_URL_LEN \<Longrightarrow> cstr url = Some s \<Longrightarrow> length s \<ge> MAX_UPGRADE_URL_LEN \<Longrightarrow>
   setSoftwareUpgradeUrl E url urlLen d = None"
  by (simp add: setSoftwareUpgradeUrl_def wrs_def)

theorem setSoftwareUpgradeUrl_overflow_witness:
  "setSoftwareUpgradeUrl plain_sdk (replicate 110 0x61 @ [0]) 5 power_on = None"
  by (rule setSoftwareUpgradeUrl_overflow [where s = "replicate 110 0x61"])
    (simp_all add: cstr_def takeWhile_append)

lemma setSoftwareUpgradeUrl_saves:
  assumes "urlLen < MAX_UPGRADE_URL_LEN" "cstr url = Some s" "length s < MAX_UPGRADE_URL_LEN"
    "msgs d q" "length q < 256"
  obtains d' where "setSoftwareUpgradeUrl E url urlLen d = Some d'"
    "upgradeData (deviceConfigData d') = \<lparr>upgradeFlag = SOFTWARE_UPGRADE_FLAG,
       urlData = s @ replicate (MAX_UPGRADE_URL_LEN - length s) 0\<rparr>"
    "config_saved d'"
proof -
  let ?buf = "s @ replicate (MAX_UPGRADE_URL_LEN - length s) 0"
  have buf: "wrs (replicate MAX_UPGRADE_URL_LEN 0) 0 (s @ [0]) = Some ?buf"
  proof -
    have "MAX_UPGRADE_URL_LEN - length s = Suc (MAX_UPGRADE_URL_LEN - Suc (length s))"
      using assms(3) by simp
    then show ?thesis using assms(3) by (simp add: wrs_def)
  qed
  define d1 where "d1 = saveDeviceConfigData (upd_config (\<lambda>c. c\<lparr>upgradeData :=
    \<lparr>upgradeFlag = SOFTWARE_UPGRADE_FLAG, urlData = ?buf\<rparr>\<rparr>) d)"
  have "msgs d1 q" using assms(4) by (simp add: d1_def saveDeviceConfigData_def)
  then obtain r d2 where i: "insertLocalMsgToList E MSG_LOCAL_EVENT None 0 MSG_CMD_MODULE_UPGRADE d1
      = Some (r, d2)"
    using insertLocalMsgToList_msgs [of d1 q None 0 E MSG_LOCAL_EVENT MSG_CMD_MODULE_UPGRADE]
      assms(5) by blast
  show ?thesis
  proof (rule that)
    show "setSoftwareUpgradeUrl E url urlLen d = Some d2"
      using assms(1,2) i [unfolded d1_def]
      by (simp only: setSoftwareUpgradeUrl_def Let_def buf bind.bind_lunit linorder_not_le [symmetric]
          if_False prod.case simp_thms)
    show "upgradeData (deviceConfigData d2) = \<lparr>upgradeFlag = SOFTWARE_UPGRADE_FLAG, urlData = ?buf\<rparr>"
      "config_saved d2"
      using core_eqD(1) [OF insertLocalMsgToList_core(1) [OF i]] insertLocalMsgToList_core(2) [OF i]
      by (simp_all add: d1_def config_saved_def)
  qed
qed

section \<open>The MAC address\<close>

lemma hex_digit_macAtoi: "n < 16 \<Longrightarrow> macAtoi (hex_digit n) = n"
proof -
  assume n: "n < 16"
  have u: "unat n < 16" using n by (simp add: word_less_nat_alt)
  have "\<forall>k \<in> set [0..<16]. macAtoi (hex_digit (of_nat k)) = of_nat k" by code_simp
  from bspec [OF this, of "unat n"] u show ?thesis by simp
qed

lemma nibbles:
  "push_bit 4 (drop_bit 4 b) + (b AND 0x0F) = b \<and> drop_bit 4 b < 16 \<and> b AND 0x0F < (16 :: u8)"
proof -
  have "\<forall>k \<in> set [0..<256]. let b = of_nat k :: u8 in
      push_bit 4 (drop_bit 4 b) + (b AND 0x0F) = b \<and> drop_bit 4 b < 16 \<and> b AND 0x0F < 16"
    by code_simp
  from bspec [OF this, of "unat b"] show ?thesis by (simp add: Let_def)
qed

text \<open>
  Reading a MAC address back from its hexadecimal print gives the address.
\<close>

theorem mac_print_parse: "mac_bytes (length m) (concat (map hex2 m) @ rest) = Some m"
proof (induction m)
  case (Cons b m)
  show ?case using Cons nibbles [of b] by (simp add: hex2_def hex_digit_macAtoi)
qed simp

end
