(* ===== verification/Device_Misc.thy ===== *)
theory Device_Misc
  imports Ito_Common
begin

text \<open>
  The timers of \<open>deviceMisc.c\<close> (heart beat, heart beat timeout, report of a factory reset), the
  AT commands it sends, and the reactions to the system's network events
  (\<open>setFlagAfterDhcp\<close>, \<open>setFlagAfterApDisconnect\<close> of \<open>itoCommon.c\<close>, \<open>systemEventCallback\<close> of
  \<open>itoMain.c\<close>).
\<close>

abbreviation (input) "MSG_CMD_HEART_BEAT \<equiv> 0x61"
abbreviation (input) "MSG_CMD_DEVICE_RESET_FACTORY \<equiv> 0x43"
abbreviation (input) "TCP_HEART_TIMEOUT_INTERVAL \<equiv> 45000"

section \<open>Heart beat\<close>

definition lum_createHeartBeatTimer :: "sdk \<Rightarrow> u16 \<Rightarrow> device \<Rightarrow> device" where
  "lum_createHeartBeatTimer E interval d =
     (let period = ucast interval * 1000 in restart_timer E HEARTBEAT_TIMER_ID period period d)"

definition heartBeatTimerCallback :: "sdk \<Rightarrow> device \<Rightarrow> device option" where
  "heartBeatTimerCallback E d =
     (if serverAesKeyValid (keyData (globalData d)) then do {
        (_, d1) \<leftarrow> insertLocalMsgToList E MSG_LOCAL_EVENT None 0 MSG_CMD_HEART_BEAT d;
        Some (lum_createHeartBeatTimer E 30 d1)
      } else Some d)"

definition heartBeatTimeoutTimerCallback :: "sdk \<Rightarrow> device \<Rightarrow> device option" where
  "heartBeatTimeoutTimerCallback E d =
     saveNormalLogData E (ascii ''heartBeatTimeout reconnect tcp Socket now'' @ [10])
       (setDeviceConnectInfo SERVER_CONN_BIT False (setDeviceConnectInfo BALANCE_CONN_BIT False d))"

definition lum_checkTcpHeartTimeout :: "sdk \<Rightarrow> device \<Rightarrow> device" where
  "lum_checkTcpHeartTimeout E d = restart_timer E TCP_HEART_TIMEOUT_TIMER_ID
     TCP_HEART_TIMEOUT_INTERVAL TCP_HEART_TIMEOUT_INTERVAL d"

section \<open>Reporting a factory reset\<close>

definition lum_sendFactoryResetMsg :: "sdk \<Rightarrow> device \<Rightarrow> device option" where
  "lum_sendFactoryResetMsg E d =
     (if getDeviceConnectInfo SERVER_CONN_BIT d
      then map_option snd
             (insertLocalMsgToList E MSG_LOCAL_EVENT None 0 MSG_CMD_DEVICE_RESET_FACTORY d)
      else Some d)"

definition lum_checkFactoryResetTimer :: "sdk \<Rightarrow> device \<Rightarrow> device" where
  "lum_checkFactoryResetTimer E d = restart_timer E REPORT_FACTORY_RESET_TIMER_ID 10000 10000 d"

definition lum_factoryReseTimerCallback :: "sdk \<Rightarrow> device \<Rightarrow> device option" where
  "lum_factoryReseTimerCallback E d =
     map_option (lum_checkFactoryResetTimer E) (lum_sendFactoryResetMsg E d)"

definition lum_stopFactoryResetTimer :: "device \<Rightarrow> device" where
  "lum_stopFactoryResetTimer d =
     (if timers d REPORT_FACTORY_RESET_TIMER_ID
      then (call (Timer_delete REPORT_FACTORY_RESET_TIMER_ID)
             (call (Timer_stop REPORT_FACTORY_RESET_TIMER_ID) d))
             \<lparr>timers := (timers d)(REPORT_FACTORY_RESET_TIMER_ID := False)\<rparr>
      else d)"

definition lum_checkReportUsername :: "sdk \<Rightarrow> device \<Rightarrow> device option" where
  "lum_checkReportUsername E d = do {
     s \<leftarrow> cstr (userName (deviceConfigData d));
     if s \<noteq> [] then map_option (lum_checkFactoryResetTimer E) (lum_sendFactoryResetMsg E d)
     else Some d
   }"

definition lum_AfterConnectServer :: "sdk \<Rightarrow> device \<Rightarrow> device option" where
  "lum_AfterConnectServer E d =
     map_option (lum_checkTcpHeartTimeout E)
       (lum_checkReportUsername E (lum_createHeartBeatTimer E 1 d))"

section \<open>AT commands\<close>

text \<open>\<open>words[1]\<close> is compared without a check that the answer has a second word.\<close>

definition closeNtpMode :: "sdk \<Rightarrow> device \<Rightarrow> device option" where
  "closeNtpMode E d =
     (let (rsp, d1) = at_command E (ascii ''AT+NTPEN'' @ crlf @ [0]) d;
          words = hfat_get_words E rsp 2
      in map_option (call Timer_is_adjust)
          (if words \<noteq> [] \<and> rsp_ok rsp
           then if length words > 1
             then if take 3 (words ! 1) \<noteq> ascii ''off''
               then let (rsp2, d2) = at_command E (ascii ''AT+NTPEN=off'' @ crlf @ [0]) d1
                    in Some (if rsp_ok rsp2 then call Sys_reset d2 else d2)
               else Some d1
             else None
           else Some d1))"

definition bRuningStaMode :: "sdk \<Rightarrow> device \<Rightarrow> (bool \<times> device) option" where
  "bRuningStaMode E d =
     (let (rsp, d1) = at_command E (ascii ''AT+WMODE'' @ crlf @ [0]) d;
          words = hfat_get_words E rsp 2
      in if words \<noteq> [] \<and> rsp_ok rsp
         then if length words > 1 then Some (take 3 (words ! 1) = ascii ''STA'', d1) else None
         else Some (False, d1))"

definition deviceEnterSmartLink :: "sdk \<Rightarrow> device \<Rightarrow> device" where
  "deviceEnterSmartLink E d = call Register_event (setWifiLedStatus E WIFI_LED_SMARTLINK d)"

section \<open>Network events\<close>

datatype system_event = HFE_WIFI_STA_CONNECTED | HFE_WIFI_STA_DISCONNECTED | HFE_DHCP_OK u32
  | HFE_SMTLK_OK | HFE_CONFIG_RELOAD

definition systemEventCallbackSmarkLink :: "sdk \<Rightarrow> system_event \<Rightarrow> device \<Rightarrow> device" where
  "systemEventCallbackSmarkLink E ev d =
     (case ev of HFE_SMTLK_OK \<Rightarrow> setWifiLedStatus E WIFI_LED_AP_DISCONNECT d | _ \<Rightarrow> d)"

definition setFlagAfterDhcp :: "sdk \<Rightarrow> u32 \<Rightarrow> device \<Rightarrow> device option" where
  "setFlagAfterDhcp E ip d =
     (if \<not> getDeviceConnectInfo DHPC_OK_BIT d
      then map_option (setWifiLedStatus E WIFILED_CLOSE)
             (setDeviceIpAddress E False ip (setDeviceConnectInfo DHPC_OK_BIT True d))
      else Some d)"

definition setFlagAfterApDisconnect :: "sdk \<Rightarrow> device \<Rightarrow> device option" where
  "setFlagAfterApDisconnect E d = do {
     d1 \<leftarrow> setDeviceIpAddress E True 0 (setDeviceConnectInfo DHPC_OK_BIT False d);
     Some (lum_stopFactoryResetTimer
       (setWifiLedStatus E WIFI_LED_AP_DISCONNECT (setDeviceConnectInfo SERVER_CONN_BIT False d1)))
   }"

definition systemEventCallback :: "sdk \<Rightarrow> system_event \<Rightarrow> device \<Rightarrow> device option" where
  "systemEventCallback E ev d =
     (case ev of
        HFE_WIFI_STA_DISCONNECTED \<Rightarrow> setFlagAfterApDisconnect E d
      | HFE_DHCP_OK ip \<Rightarrow> setFlagAfterDhcp E ip d
      | _ \<Rightarrow> Some d)"

section \<open>Properties\<close>

lemma connInfo_set:
  "getDeviceConnectInfo a (setDeviceConnectInfo b v d) = (if a = b then v else getDeviceConnectInfo a d)"
  by (cases a; cases b) (simp_all add: getDeviceConnectInfo_def setDeviceConnectInfo_def)

lemma setDeviceConnectInfo_frame [simp]:
  "deviceConfigData (setDeviceConnectInfo b v d) = deviceConfigData d"
  "msgList (setDeviceConnectInfo b v d) = msgList d"
  "nextAddr (setDeviceConnectInfo b v d) = nextAddr d"
  "trace (setDeviceConnectInfo b v d) = trace d"
  "timers (setDeviceConnectInfo b v d) = timers d"
  "devIpAddr (globalData (setDeviceConnectInfo b v d)) = devIpAddr (globalData d)"
  by (simp_all add: setDeviceConnectInfo_def upd_global_def)

lemma getDeviceConnectInfo_cong:
  "connInfo (globalData d') = connInfo (globalData d) \<Longrightarrow>
   getDeviceConnectInfo c d' = getDeviceConnectInfo c d"
  by (cases c) (simp_all add: getDeviceConnectInfo_def)

lemma setWifiLedStatus_global [simp]: "globalData (setWifiLedStatus E s d) = globalData d"
  by (cases s)
    (simp_all add: setWifiLedStatus_def changeWifiLedStatus_def wifiLedTimerCallback_def read_pin_def Let_def)

lemma lum_stopFactoryResetTimer_global [simp]:
  "globalData (lum_stopFactoryResetTimer d) = globalData d"
  by (simp add: lum_stopFactoryResetTimer_def)

lemma setWifiLedStatus_timers:
  "timers (setWifiLedStatus E s d) REPORT_FACTORY_RESET_TIMER_ID = timers d REPORT_FACTORY_RESET_TIMER_ID"
  by (cases s)
    (simp_all add: setWifiLedStatus_def changeWifiLedStatus_def wifiLedTimerCallback_def read_pin_def Let_def)

text \<open>
  When the access point is lost, the device gives up its address and the
  connection to its server, so the TCP thread waits for an address and then reconnects, and
  the reset report timer is gone; the flags for the balance server and the server address stay.
\<close>

theorem ap_disconnect_clears_connection:
  "\<exists>d'. systemEventCallback E HFE_WIFI_STA_DISCONNECTED d = Some d'
    \<and> \<not> getDeviceConnectInfo DHPC_OK_BIT d' \<and> \<not> getDeviceConnectInfo SERVER_CONN_BIT d'
    \<and> getDeviceConnectInfo BALANCE_CONN_BIT d' = getDeviceConnectInfo BALANCE_CONN_BIT d
    \<and> getDeviceConnectInfo SERVER_ADDR_BIT d' = getDeviceConnectInfo SERVER_ADDR_BIT d
    \<and> devIpAddr (globalData d') = 0 \<and> \<not> timers d' REPORT_FACTORY_RESET_TIMER_ID"
  by (auto simp: systemEventCallback_def setFlagAfterApDisconnect_def setDeviceIpAddress_def
      getDeviceConnectInfo_def setDeviceConnectInfo_def lum_stopFactoryResetTimer_def
      setWifiLedStatus_timers)

end
