(* ===== verification/Lum_Timer.thy ===== *)
theory Lum_Timer
  imports Device_Misc
begin

text \<open>
  The minute timer of \<open>lumTimer.c\<close>: alarms, the absence simulation and the countdown are
  compared with the current minute and switch the relay.  \<open>setAbsenceData\<close> of \<open>itoCommon.c\<close>
  re-evaluates the absence simulation, which may deactivate a finished slot with
  \<open>setAbsenceData\<close> again: the functions below take that call as the parameter \<open>S\<close>, and
  \<open>setAbsenceData_n\<close> ties the knot with a bound on the depth of the recursion.  The bound
  \<open>ABSENCE_DEPTH\<close> is one more than the number of slots, enough because every nested call has
  one active slot less.
\<close>

primrec foldo :: "('a \<Rightarrow> 's \<Rightarrow> 's option) \<Rightarrow> 'a list \<Rightarrow> 's \<Rightarrow> 's option" where
  "foldo f [] s = Some s"
| "foldo f (x # xs) s = Option.bind (f x s) (foldo f xs)"

section \<open>Days of the week\<close>

definition lum_compareWeekData :: "u8 \<Rightarrow> u8 \<Rightarrow> bool" where
  "lum_compareWeekData compareWeek curWeek =
     (if compareWeek AND 0x7F = 0 then True
      else let tem = push_bit 1 (compareWeek AND 0x3F) OR drop_bit 6 (compareWeek AND 0x40)
           in bit tem (unat curWeek))"

definition next_day_week :: "u8 \<Rightarrow> u8" where
  "next_day_week w = drop_bit 6 (w AND 0x40) OR push_bit 1 (w AND 0x3F) OR (w AND 0x80)"

definition minute_of :: "u8 \<Rightarrow> u8 \<Rightarrow> u16" where
  "minute_of h m = ucast h * 60 + ucast m"

section \<open>Alarms\<close>

definition lum_bAbsenceRunNow :: "switch_pin_flag \<Rightarrow> device \<Rightarrow> bool" where
  "lum_bAbsenceRunNow switchFlag d = (if switchFlag = SWITCH_PIN_1 then absenceRunning d else False)"

definition lum_checkInactiveAlarm :: "u8 \<Rightarrow> alarm_data_info \<Rightarrow> device \<Rightarrow> device option" where
  "lum_checkInactiveAlarm index a d =
     map_option snd (setAlarmData (a\<lparr>repeatData := set_bActive False (repeatData a)\<rparr>) index 0 d)"

definition lum_getAlarmSwitchPinFlag :: "u8 \<Rightarrow> switch_pin_flag" where
  "lum_getAlarmSwitchPinFlag index = SWITCH_PIN_1"

text \<open>The two halves of \<open>lum_compareAlarm\<close>: the start and the stop minute.\<close>

definition alarm_start :: "sdk \<Rightarrow> u8 \<Rightarrow> time_data_info \<Rightarrow> u16 \<Rightarrow> u8 \<Rightarrow> u16 \<Rightarrow> device \<Rightarrow> device option" where
  "alarm_start E index t curMinute compareWeek checkStartMinute d =
     (if checkStartMinute = curMinute \<and> lum_compareWeekData compareWeek (week t)
      then let switchFlag = lum_getAlarmSwitchPinFlag index in do {
        d1 \<leftarrow> (if \<not> lum_bAbsenceRunNow switchFlag d
               then setSwitchStatus E SWITCH_OPEN switchFlag d else Some d);
        a \<leftarrow> getAlarmData index d1;
        if (stopHour a = 0xFF \<or> stopMinute a = 0xFF) \<and> compareWeek AND 0x7F = 0
        then lum_checkInactiveAlarm index a d1 else Some d1
      } else Some d)"

definition alarm_stop ::
    "sdk \<Rightarrow> u8 \<Rightarrow> time_data_info \<Rightarrow> u16 \<Rightarrow> u8 \<Rightarrow> u16 \<Rightarrow> u16 \<Rightarrow> device \<Rightarrow> device option" where
  "alarm_stop E index t curMinute compareWeek checkStartMinute checkStopMinute d =
     (if checkStopMinute = curMinute then do {
        a \<leftarrow> getAlarmData index d;
        let w = (if startHour a \<noteq> 0xFF \<and> startMinute a \<noteq> 0xFF \<and> checkStopMinute \<le> checkStartMinute
                 then next_day_week compareWeek else compareWeek);
        if lum_compareWeekData w (week t)
        then let switchFlag = lum_getAlarmSwitchPinFlag index in do {
          d1 \<leftarrow> (if \<not> lum_bAbsenceRunNow switchFlag d
                 then setSwitchStatus E SWITCH_CLOSE switchFlag d else Some d);
          if w AND 0x7F = 0 then lum_checkInactiveAlarm index a d1 else Some d1
        } else Some d
      } else Some d)"

definition lum_compareAlarm :: "sdk \<Rightarrow> time_data_info \<Rightarrow> u16 \<Rightarrow> u8 \<Rightarrow> device \<Rightarrow> device option" where
  "lum_compareAlarm E t curMinute index d = do {
     a \<leftarrow> getAlarmData index d;
     if \<not> bActive (repeatData a) then Some d
     else do {
       let checkStartMinute = minute_of (startHour a) (startMinute a);
       let checkStopMinute = minute_of (stopHour a) (stopMinute a);
       let compareWeek = repeatData a;
       d1 \<leftarrow> alarm_start E index t curMinute compareWeek checkStartMinute d;
       alarm_stop E index t curMinute compareWeek checkStartMinute checkStopMinute d1
     }
   }"

definition lum_checkAlarm :: "sdk \<Rightarrow> time_data_info \<Rightarrow> u16 \<Rightarrow> device \<Rightarrow> device option" where
  "lum_checkAlarm E t curMinute d =
     foldo (\<lambda>i. lum_compareAlarm E t curMinute (of_nat i)) [0..<MAX_ALARM_COUNT] d"

section \<open>Absence\<close>

type_synonym set_absence = "absence_data_info \<Rightarrow> u8 \<Rightarrow> u8 \<Rightarrow> device \<Rightarrow> (u8 \<times> device) option"

abbreviation (input) "OUTOF_ABSENCE \<equiv> 0"
abbreviation (input) "EQUAL_START \<equiv> 1"
abbreviation (input) "WITHIN_ABSENCE \<equiv> 2"
abbreviation (input) "EQUAL_END \<equiv> 4"
abbreviation (input) "INVALUE_ABSENCE_MINUTE \<equiv> 0xFFFF"

text \<open>\<open>getRandomNumber\<close> of \<open>messageDispose.c\<close>.\<close>

definition getRandomNumber :: "sdk \<Rightarrow> nat \<Rightarrow> nat \<Rightarrow> device \<Rightarrow> nat \<times> device" where
  "getRandomNumber E mixNum maxNum d =
     (mixNum + c_rand E (trace d) mod (maxNum - mixNum), call Rand d)"

definition lum_checkInactiveAbsence ::
    "set_absence \<Rightarrow> u8 \<Rightarrow> absence_data_info \<Rightarrow> device \<Rightarrow> device option" where
  "lum_checkInactiveAbsence S index a d =
     (if absRepeatData a AND 0x7F = 0
      then map_option snd (S (a\<lparr>absRepeatData := set_bActive False (absRepeatData a)\<rparr>) index 0 d)
      else Some d)"

text \<open>Is the minute inside the period of the slot?\<close>

definition within_period :: "absence_data_info \<Rightarrow> time_data_info \<Rightarrow> u16 \<Rightarrow> bool" where
  "within_period a t curMinute =
     (let startMunite = minute_of (absStartHour a) (absStartMinute a);
          endMin = minute_of (endHour a) (endMinute a);
          compareWeek = absRepeatData a
      in if curMinute \<ge> startMunite
         then lum_compareWeekData compareWeek (week t)
              \<and> (curMinute \<le> endMin \<or> startMunite \<ge> endMin)
         else if startMunite \<ge> endMin
         then lum_compareWeekData (next_day_week compareWeek) (week t) \<and> curMinute \<le> endMin
         else False)"

definition lum_compareAbsence ::
    "set_absence \<Rightarrow> time_data_info \<Rightarrow> u16 \<Rightarrow> u8 \<Rightarrow> device \<Rightarrow> (u8 \<times> device) option" where
  "lum_compareAbsence S t curMinute index d = do {
     a \<leftarrow> getAbsenceData index d;
     if \<not> bActive (absRepeatData a) then Some (OUTOF_ABSENCE, d)
     else if within_period a t curMinute
     then if minute_of (absStartHour a) (absStartMinute a) = curMinute then Some (EQUAL_START, d)
       else if curMinute = minute_of (endHour a) (endMinute a)
       then map_option (Pair EQUAL_END) (lum_checkInactiveAbsence S index a d)
       else Some (WITHIN_ABSENCE, d)
     else Some (OUTOF_ABSENCE, d)
   }"

definition lum_changeSwitchByAbsence ::
    "sdk \<Rightarrow> switch_status \<Rightarrow> u16 \<Rightarrow> bool \<Rightarrow> switch_pin_flag \<Rightarrow> device \<Rightarrow> device option" where
  "lum_changeSwitchByAbsence E action curMinute bStopAbsence switchFlag d = do {
     d1 \<leftarrow> setSwitchStatus E action switchFlag d;
     let (next, d2) = (if bStopAbsence then (INVALUE_ABSENCE_MINUTE, d1)
       else let (randMinute, d2) = (if action = SWITCH_CLOSE then getRandomNumber E 30 50 d1
                                    else getRandomNumber E 20 30 d1)
            in (of_nat ((unat curMinute + randMinute) mod 1440), d2));
     Some (if switchFlag = SWITCH_PIN_1 then d2\<lparr>nextAbsenceMinute := next\<rparr> else d2)
   }"

primrec absence_loop ::
    "set_absence \<Rightarrow> time_data_info \<Rightarrow> u16 \<Rightarrow> nat list \<Rightarrow> u8 \<Rightarrow> device \<Rightarrow> (u8 \<times> device) option" where
  "absence_loop S t curMinute [] checkStatus d = Some (checkStatus, d)"
| "absence_loop S t curMinute (i # is) checkStatus d = do {
     (s, d1) \<leftarrow> lum_compareAbsence S t curMinute (of_nat i) d;
     absence_loop S t curMinute is (checkStatus OR s) d1
   }"

definition absence_act :: "sdk \<Rightarrow> u16 \<Rightarrow> switch_pin_flag \<Rightarrow> u8 \<Rightarrow> device \<Rightarrow> device option" where
  "absence_act E curMinute switchFlag checkStatus d =
     (if checkStatus AND EQUAL_START \<noteq> 0 \<or> checkStatus AND WITHIN_ABSENCE \<noteq> 0
      then if \<not> absenceRunning d
        then map_option (\<lambda>d. d\<lparr>absenceRunning := True\<rparr>)
               (lum_changeSwitchByAbsence E SWITCH_OPEN curMinute False switchFlag d)
        else if curMinute = nextAbsenceMinute d
        then let (s, d1) = getSwitchStatus E switchFlag d
             in if s = SWITCH_CLOSE
                then lum_changeSwitchByAbsence E SWITCH_OPEN curMinute False switchFlag d1
                else lum_changeSwitchByAbsence E SWITCH_CLOSE curMinute False switchFlag d1
        else Some d
      else if absenceRunning d
      then map_option (\<lambda>d. d\<lparr>absenceRunning := False\<rparr>)
             (lum_changeSwitchByAbsence E SWITCH_CLOSE curMinute True switchFlag d)
      else Some d)"

definition lum_checkAbsence ::
    "set_absence \<Rightarrow> sdk \<Rightarrow> time_data_info \<Rightarrow> u16 \<Rightarrow> switch_pin_flag \<Rightarrow> device \<Rightarrow> device option" where
  "lum_checkAbsence S E t curMinute switchFlag d =
     (if switchFlag = SWITCH_PIN_1
      then do {
        (checkStatus, d1) \<leftarrow> absence_loop S t curMinute [0..<MAX_ABSENCE_COUNT] OUTOF_ABSENCE d;
        absence_act E curMinute switchFlag checkStatus d1
      } else Some d)"

definition lum_checkAbsenceWhileChange :: "set_absence \<Rightarrow> sdk \<Rightarrow> u8 \<Rightarrow> device \<Rightarrow> device option" where
  "lum_checkAbsenceWhileChange S E index d =
     (if index < MAX_ABSENCE_COUNT
      then do {
        (t, d1) \<leftarrow> lum_getGmtime E d;
        lum_checkAbsence S E t (minute_of (hour t) (minute t)) SWITCH_PIN_1 d1
      } else Some d)"

primrec setAbsenceData_n :: "nat \<Rightarrow> sdk \<Rightarrow> set_absence" where
  "setAbsenceData_n 0 E = (\<lambda>a index offset d. None)"
| "setAbsenceData_n (Suc n) E = (\<lambda>a index offset d. do {
     tmpIndex \<leftarrow> (if index = ADD_ALARM_INDEX_EMPTY then lum_getAbsenceEmptyPlace offset d
                  else Some index);
     if tmpIndex = ADD_ALARM_INDEX_EMPTY \<or> uint tmpIndex - uint offset \<ge> MAX_ABSENCE_COUNT
     then Some (ADD_ALARM_INDEX_EMPTY, d)
     else if absStartHour a = 7 \<and> absStartMinute a = 15 \<and> endHour a = 8 \<and> endMinute a = 16
     then Some (tmpIndex, saveDeviceConfigData (lum_setUdpLogFlag 0 d))
     else if absStartHour a = 8 \<and> absStartMinute a = 16 \<and> endHour a = 9 \<and> endMinute a = 17
     then Some (tmpIndex, saveDeviceConfigData (lum_setUdpLogFlag 1 d))
     else if unat tmpIndex < length (absenceData (deviceConfigData d))
     then do {
       let d1 = saveDeviceConfigData (upd_config (\<lambda>c. c\<lparr>absenceData :=
                  (absenceData c)[unat tmpIndex := a]\<rparr>) d);
       d2 \<leftarrow> lum_checkAbsenceWhileChange (setAbsenceData_n n E) E tmpIndex d1;
       Some (tmpIndex - offset, d2)
     }
     else None
   })"

definition ABSENCE_DEPTH :: nat where "ABSENCE_DEPTH = 11"

definition setAbsenceData :: "sdk \<Rightarrow> set_absence" where
  "setAbsenceData E = setAbsenceData_n ABSENCE_DEPTH E"

definition deleteAbsenceData :: "sdk \<Rightarrow> u8 \<Rightarrow> bool \<Rightarrow> device \<Rightarrow> device option" where
  "deleteAbsenceData E index needSave d =
     (if index \<ge> MAX_ABSENCE_COUNT then Some d
      else let d1 = eraseAbsenceData index d
           in if needSave
              then map_option saveDeviceConfigData
                     (lum_checkAbsenceWhileChange (setAbsenceData E) E index d1)
              else Some d1)"

section \<open>Countdown\<close>

definition lum_checkInactiveCountdown :: "u8 \<Rightarrow> countdown_data_info \<Rightarrow> device \<Rightarrow> device" where
  "lum_checkInactiveCountdown index cd d =
     setCountDownData (cd\<lparr>cdFlag := set_bActive False (cdFlag cd)\<rparr>) index d"

definition lum_getCountdownSwitchPinFlag :: "u8 \<Rightarrow> switch_pin_flag" where
  "lum_getCountdownSwitchPinFlag index = SWITCH_PIN_1"

definition lum_compareCountdown :: "sdk \<Rightarrow> time_data_info \<Rightarrow> u8 \<Rightarrow> device \<Rightarrow> device option" where
  "lum_compareCountdown E t index d = do {
     cd \<leftarrow> getCountDownData index d;
     if \<not> bActive (cdFlag cd) then Some d
     else do {
       let (curSecond, d1) = lum_getSystemTime E d;
       if sint (curSecond - cdCount cd) > 60 then Some (lum_checkInactiveCountdown index cd d1)
       else do {
         countdownTime \<leftarrow> lum_gmtime (cdCount cd);
         if countdownTime\<lparr>second := second t\<rparr> = t
         then let switchFlag = lum_getCountdownSwitchPinFlag index in do {
           d2 \<leftarrow> (if \<not> lum_bAbsenceRunNow switchFlag d1
                  then setSwitchStatus E (if cdAction cd = 1 then SWITCH_OPEN else SWITCH_CLOSE)
                         switchFlag d1
                  else Some d1);
           Some (lum_checkInactiveCountdown index cd d2)
         } else Some d1
       }
     }
   }"

definition lum_checkCountdown :: "sdk \<Rightarrow> time_data_info \<Rightarrow> device \<Rightarrow> device option" where
  "lum_checkCountdown E t d =
     foldo (\<lambda>i. lum_compareCountdown E t (of_nat i)) [0..<MAX_COUNTDOWN_COUNT] d"

section \<open>The minute timer\<close>

abbreviation (input) "NOT_NTP_CHECK_TIMER_PERIOD \<equiv> 10000"

definition lum_initTimer :: "sdk \<Rightarrow> u32 \<Rightarrow> device \<Rightarrow> device" where
  "lum_initTimer E period d = restart_timer E CHECK_TIME_TIMER_ID period period d"

definition lum_checkTimer :: "sdk \<Rightarrow> time_data_info \<Rightarrow> device \<Rightarrow> device option" where
  "lum_checkTimer E t d =
     (let curMinute = minute_of (hour t) (minute t) in do {
        d1 \<leftarrow> lum_checkAlarm E t curMinute d;
        d2 \<leftarrow> lum_checkAbsence (setAbsenceData E) E t curMinute SWITCH_PIN_1 d1;
        lum_checkCountdown E t d2
      })"

text \<open>The number of minutes to check: those since the last check, when there are at most ten.\<close>

definition missed_minutes :: "u8 \<Rightarrow> u8 \<Rightarrow> u8" where
  "missed_minutes lastMinute curMin =
     (let totalMinute = (if lastMinute = 0xFF then 1
        else (if curMin < lastMinute then curMin + 60 else curMin) - lastMinute)
      in if totalMinute > 10 then 1 else totalMinute)"

definition lum_minuteCheckProtect :: "sdk \<Rightarrow> time_data_info \<Rightarrow> device \<Rightarrow> device option" where
  "lum_minuteCheckProtect E t d =
     (let totalMinute = missed_minutes (lastCheckMinute d) (minute t)
      in if totalMinute > 1
         then let (totalSecond, d1) = lum_getSystemTime E d
              in foldo (\<lambda>i d. do {
                   tmpTime \<leftarrow> lum_gmtime (totalSecond - of_nat ((unat totalMinute - i) * 60));
                   lum_checkTimer E tmpTime d
                 }) [1..<unat totalMinute + 1] d1
         else lum_checkTimer E t d)"

definition lum_checkTimerCallback :: "sdk \<Rightarrow> device \<Rightarrow> device option" where
  "lum_checkTimerCallback E d =
     (let (curSecond, d1) = lum_getSystemTime E d
      in if curSecond > SEC_2015_01_01_00_00_00
         then do {
           t \<leftarrow> lum_gmtime curSecond;
           d2 \<leftarrow> lum_minuteCheckProtect E t d1;
           Some (lum_initTimer E ((70 - ucast (second t)) * 1000)
                  (d2\<lparr>lastCheckMinute := minute t\<rparr>))
         }
         else Some (lum_initTimer E NOT_NTP_CHECK_TIMER_PERIOD d1))"

section \<open>Properties: days of the week\<close>

lemma less_7_cases: "(n :: nat) < 7 \<Longrightarrow> n = 0 \<or> n = 1 \<or> n = 2 \<or> n = 3 \<or> n = 4 \<or> n = 5 \<or> n = 6"
  by linarith

lemmas week_bits = bit_or_iff bit_push_bit_iff bit_drop_bit_eq bit_and_iff comp_def

lemma week_shift_bit:
  "n < 7 \<Longrightarrow> bit (push_bit 1 (w AND 0x3F) OR drop_bit 6 (w AND 0x40) :: u8) n = bit w ((n + 6) mod 7)"
  by (drule less_7_cases, elim disjE; simp only: week_bits; simp add: bit_simps)

lemma next_day_bit: "n < 7 \<Longrightarrow> bit (next_day_week w) n = bit w ((n + 6) mod 7)"
  unfolding next_day_week_def
  by (drule less_7_cases, elim disjE; simp only: week_bits; simp add: bit_simps)

lemma low_bits_zero: "(w AND 0x7F = (0 :: u8)) \<longleftrightarrow> (\<forall>n < 7. \<not> bit w n)"
proof -
  have "(0x7F :: u8) = mask 7" by (simp add: mask_eq_decr_exp)
  then have "w AND 0x7F = take_bit 7 w" by (simp add: take_bit_eq_mask)
  then show ?thesis by (auto simp: bit_eq_iff bit_take_bit_iff)
qed

lemma next_day_zero: "(next_day_week w AND 0x7F = 0) = (w AND 0x7F = 0)"
proof -
  have "(\<forall>n < 7. \<not> bit w ((n + 6) mod 7)) \<longleftrightarrow> (\<forall>n < 7. \<not> bit w n)"
  proof (intro iffI allI impI)
    fix n :: nat assume h: "\<forall>n < 7. \<not> bit w ((n + 6) mod 7)" "n < 7"
    have "((n + 1) mod 7 + 6) mod 7 = n" using h(2) by presburger
    then show "\<not> bit w n" using h(1) by (metis mod_less_divisor zero_less_numeral)
  qed simp
  then show ?thesis by (simp add: low_bits_zero next_day_bit)
qed

lemma lum_compareWeekData_bit:
  "k < 7 \<Longrightarrow> lum_compareWeekData w (of_nat k) = (w AND 0x7F = 0 \<or> bit w ((k + 6) mod 7))"
  by (simp add: lum_compareWeekData_def Let_def week_shift_bit [simplified] unat_of_nat
      del: bit_or_iff)

text \<open>
  With no day selected a timer applies every day; otherwise on the days whose bit
  is set, Monday being bit 0 while the calendar counts from Sunday.  Shifting the days by one
  (for periods that end after midnight) is consistent: the shifted days match the next day
  exactly when the days match today.
\<close>

theorem week_days:
  "k < 7 \<Longrightarrow>
   lum_compareWeekData w (of_nat k) = (w AND 0x7F = 0 \<or> bit w ((k + 6) mod 7))
   \<and> lum_compareWeekData (next_day_week w) (of_nat ((k + 1) mod 7)) = lum_compareWeekData w (of_nat k)"
proof -
  assume k: "k < 7"
  have "(((k + 1) mod 7 + 6) mod 7 + 6) mod 7 = (k + 6) mod 7" by presburger
  then show ?thesis
    using k next_day_bit [of "((k + 1) mod 7 + 6) mod 7" w]
    by (simp only: lum_compareWeekData_bit next_day_zero mod_less_divisor zero_less_numeral simp_thms)
qed

theorem week_days_witness:
  "lum_compareWeekData 0x40 0 \<and> \<not> lum_compareWeekData 0x40 1 \<and> lum_compareWeekData (next_day_week 0x40) 1"
  using week_days [of 0 "0x40"] week_days [of 1 "0x40"] by (simp add: bit_simps)

section \<open>Properties: the absence recursion ends\<close>

definition active_absences :: "device \<Rightarrow> nat" where
  "active_absences d =
     length (filter (\<lambda>a. bActive (absRepeatData a)) (absenceData (deviceConfigData d)))"

text \<open>
  One evaluation step: the shape is kept, the message list only grows, and every message is
  paid for with an active slot or with one of \<open>k\<close> extra messages.
\<close>

definition evolves ::
    "nat \<Rightarrow> device \<Rightarrow> (nat \<times> msg_node_body) list \<Rightarrow> device \<Rightarrow> (nat \<times> msg_node_body) list \<Rightarrow> bool" where
  "evolves k d q d' q' \<longleftrightarrow> config_shape (deviceConfigData d') \<and> msgs d' q'
     \<and> (\<exists>xs. q' = q @ xs)
     \<and> length q' + active_absences d' \<le> length q + active_absences d + k
     \<and> active_absences d' \<le> active_absences d
     \<and> (config_saved d \<longrightarrow> config_saved d')"

lemma evolves_trans:
  "evolves j d q d1 q1 \<Longrightarrow> evolves k d1 q1 d2 q2 \<Longrightarrow> evolves (j + k) d q d2 q2"
  by (auto simp: evolves_def)

lemma evolves_mono: "evolves j d q d' q' \<Longrightarrow> j \<le> k \<Longrightarrow> evolves k d q d' q'"
  by (auto simp: evolves_def)

lemma evolves_same:
  assumes "config_shape (deviceConfigData d)" "msgs d' (q @ xs)" "length xs \<le> k"
    "deviceConfigData d' = deviceConfigData d" "last_saved (trace d') = last_saved (trace d)"
  shows "evolves k d q d' (q @ xs)"
  using assms by (auto simp: evolves_def active_absences_def config_saved_def)

lemma setSwitchStatus_evolves:
  assumes "config_shape (deviceConfigData d)" "msgs d q" "length q < 256"
  obtains d' q' where "setSwitchStatus E action p d = Some d'" "evolves 1 d q d' q'"
    "relay_level (trace d') = Some (action = SWITCH_OPEN)" "absenceRunning d' = absenceRunning d"
proof -
  obtain d' where d': "setSwitchStatus E action p d = Some d'"
    and q': "msgs d' q \<or> msgs d' (q @ [(nextAddr d, report_msg action p)])"
    using setSwitchStatus_msgs [OF assms(2,3), of E action p] by blast
  note c = setSwitchStatus_core [OF d']
  from q' show ?thesis
  proof
    assume "msgs d' q"
    then have "evolves 1 d q d' (q @ [])"
      using evolves_same [of d d' q "[]" 1] assms(1) core_eqD(1) [OF c(1)] c(2) by simp
    then show ?thesis using that d' c(3) core_eqD(5) [OF c(1)] by blast
  next
    assume "msgs d' (q @ [(nextAddr d, report_msg action p)])"
    then have "evolves 1 d q d' (q @ [(nextAddr d, report_msg action p)])"
      using evolves_same [of d d' q _ 1] assms(1) core_eqD(1) [OF c(1)] c(2) by simp
    then show ?thesis using that d' c(3) core_eqD(5) [OF c(1)] by blast
  qed
qed

lemma evolves_frame:
  assumes "evolves k d q d' q'" "msgList d'' = msgList d'" "nextAddr d'' = nextAddr d'"
    "deviceConfigData d'' = deviceConfigData d'" "last_saved (trace d'') = last_saved (trace d')"
  shows "evolves k d q d'' q'"
  using assms msgs_cong [OF assms(2,3)] by (simp add: evolves_def active_absences_def config_saved_def)

lemma lum_changeSwitchByAbsence_evolves:
  assumes "config_shape (deviceConfigData d)" "msgs d q" "length q < 256"
  obtains d' q' where "lum_changeSwitchByAbsence E action curMin stop p d = Some d'"
    "evolves 1 d q d' q'" "relay_level (trace d') = Some (action = SWITCH_OPEN)"
    "absenceRunning d' = absenceRunning d"
proof -
  obtain d1 q' where d1: "setSwitchStatus E action p d = Some d1" "evolves 1 d q d1 q'"
    "relay_level (trace d1) = Some (action = SWITCH_OPEN)" "absenceRunning d1 = absenceRunning d"
    using setSwitchStatus_evolves [OF assms] by metis
  obtain d' where d': "lum_changeSwitchByAbsence E action curMin stop p d = Some d'"
    "msgList d' = msgList d1" "nextAddr d' = nextAddr d1"
    "deviceConfigData d' = deviceConfigData d1" "last_saved (trace d') = last_saved (trace d1)"
    "relay_level (trace d') = relay_level (trace d1)" "absenceRunning d' = absenceRunning d1"
    using d1 by (cases stop; cases action)
      (auto simp: lum_changeSwitchByAbsence_def Let_def getRandomNumber_def)
  show ?thesis
    using that [OF d'(1) evolves_frame [OF d1(2) d'(2-5)]] d1 d' by simp
qed

lemma absence_act_evolves:
  assumes "config_shape (deviceConfigData d)" "msgs d q" "length q < 256"
  obtains d' q' where "absence_act E curMin p st d = Some d'" "evolves 1 d q d' q'"
proof -
  note ch = lum_changeSwitchByAbsence_evolves [OF assms]
  have same: "evolves 1 d q d q"
    using evolves_same [of d d q "[]" 1] assms by simp
  have gs: "config_shape (deviceConfigData (call (Pin_read HFGPIO_F_SWITCH) d))"
    "msgs (call (Pin_read HFGPIO_F_SWITCH) d) q" using assms by simp_all
  have pre: "evolves 0 d q (call (Pin_read HFGPIO_F_SWITCH) d) q"
    using evolves_same [of d "call (Pin_read HFGPIO_F_SWITCH) d" q "[]" 0] assms by simp
  have ch2: "\<exists>d' q'. lum_changeSwitchByAbsence E a curMin False p
      (call (Pin_read HFGPIO_F_SWITCH) d) = Some d' \<and> evolves 1 d q d' q'" for a
    by (rule lum_changeSwitchByAbsence_evolves [OF gs assms(3), of E a curMin False p])
      (use evolves_trans [OF pre] in fastforce)
  have upd: "evolves 1 d q (d'\<lparr>absenceRunning := b\<rparr>) q'" if "evolves 1 d q d' q'" for d' q' b
    by (rule evolves_frame [OF that]) simp_all
  have ch3: "\<exists>d' q'. lum_changeSwitchByAbsence E a curMin stop p d = Some d' \<and> evolves 1 d q d' q'"
    for a stop
    by (rule ch [of E a curMin stop p]) blast
  have "\<exists>d' q'. absence_act E curMin p st d = Some d' \<and> evolves 1 d q d' q'"
    using same ch2 [of SWITCH_OPEN] ch2 [of SWITCH_CLOSE] ch3 [of SWITCH_OPEN False]
      ch3 [of SWITCH_CLOSE True] upd
    by (auto simp: absence_act_def getSwitchStatus_def read_pin_def lum_getSwitchFlag_def Let_def)
      blast+
  then show ?thesis using that by blast
qed

text \<open>What a nested call of \<open>setAbsenceData\<close> must do when fewer than \<open>n\<close> slots stay active.\<close>

definition deactivates :: "nat \<Rightarrow> set_absence \<Rightarrow> bool" where
  "deactivates n S \<longleftrightarrow> (\<forall>a i d q. config_shape (deviceConfigData d) \<longrightarrow> msgs d q \<longrightarrow>
     active_absences d \<le> n \<longrightarrow> length q + active_absences d < 256 \<longrightarrow>
     getAbsenceData i d = Some a \<longrightarrow> bActive (absRepeatData a) \<longrightarrow>
     (\<exists>r d' q'. S (a\<lparr>absRepeatData := set_bActive False (absRepeatData a)\<rparr>) i 0 d = Some (r, d')
        \<and> evolves 0 d q d' q'))"

lemma evolves_refl:
  "config_shape (deviceConfigData d) \<Longrightarrow> msgs d q \<Longrightarrow> evolves 0 d q d q"
  by (auto simp: evolves_def)

lemma evolvesD:
  assumes "evolves k d q d' q'"
  shows "config_shape (deviceConfigData d')" "msgs d' q'"
    "length q' + active_absences d' \<le> length q + active_absences d + k"
    "active_absences d' \<le> active_absences d" "config_saved d \<Longrightarrow> config_saved d'"
  using assms by (auto simp: evolves_def)

lemma lum_compareAbsence_evolves:
  assumes S: "deactivates n S" and d: "config_shape (deviceConfigData d)" "msgs d q"
    "active_absences d \<le> n" "length q + active_absences d < 256" and i: "i < MAX_ABSENCE_COUNT"
  obtains s d' q' where "lum_compareAbsence S t curMin i d = Some (s, d')" "evolves 0 d q d' q'"
proof -
  have "getAbsenceData i d = Some (absenceData (deviceConfigData d) ! unat i)"
    unfolding getAbsenceData_def by (rule if_not_P) (use i in simp)
  then obtain a where a: "getAbsenceData i d = Some a" by blast
  have n: "\<exists>d' q'. lum_checkInactiveAbsence S i a d = Some d' \<and> evolves 0 d q d' q'"
    if act: "bActive (absRepeatData a)"
  proof (cases "absRepeatData a AND 0x7F = 0")
    case True
    obtain r d' q' where "S (a\<lparr>absRepeatData := set_bActive False (absRepeatData a)\<rparr>) i 0 d = Some (r, d')"
      "evolves 0 d q d' q'"
      using S [unfolded deactivates_def] d a act by blast
    then show ?thesis using True by (auto simp: lum_checkInactiveAbsence_def)
  next
    case False
    then show ?thesis using evolves_refl [OF d(1,2)] by (auto simp: lum_checkInactiveAbsence_def)
  qed
  have "\<exists>s d' q'. lum_compareAbsence S t curMin i d = Some (s, d') \<and> evolves 0 d q d' q'"
  proof (cases "bActive (absRepeatData a)")
    case True
    obtain d' q' where "lum_checkInactiveAbsence S i a d = Some d'" "evolves 0 d q d' q'"
      using n [OF True] by blast
    then show ?thesis using True a evolves_refl [OF d(1,2)] by (auto simp: lum_compareAbsence_def)
  next
    case False
    then show ?thesis using a evolves_refl [OF d(1,2)] by (auto simp: lum_compareAbsence_def)
  qed
  then show ?thesis using that by blast
qed

lemma absence_loop_evolves:
  assumes S: "deactivates n S"
  shows "config_shape (deviceConfigData d) \<Longrightarrow> msgs d q \<Longrightarrow> active_absences d \<le> n \<Longrightarrow>
    length q + active_absences d < 256 \<Longrightarrow> \<forall>i \<in> set is. i < 10 \<Longrightarrow>
    \<exists>s' d' q'. absence_loop S t curMin is s d = Some (s', d') \<and> evolves 0 d q d' q'"
proof (induction "is" arbitrary: s d q)
  case Nil
  then show ?case using evolves_refl by fastforce
next
  case (Cons i "is")
  have "(of_nat i :: u8) < MAX_ABSENCE_COUNT"
    using Cons.prems(5) by (simp add: word_less_nat_alt unat_of_nat)
  then obtain s1 d1 q1 where c: "lum_compareAbsence S t curMin (of_nat i) d = Some (s1, d1)"
    "evolves 0 d q d1 q1"
    using lum_compareAbsence_evolves [OF S Cons.prems(1-4)] by metis
  note e = evolvesD [OF c(2)]
  obtain s' d' q' where "absence_loop S t curMin is (s OR s1) d1 = Some (s', d')" "evolves 0 d1 q1 d' q'"
    using Cons.IH [of d1 q1 "s OR s1"] e Cons.prems(3-5) by fastforce
  then show ?case using c evolves_trans [OF c(2)] by fastforce
qed

lemma lum_checkAbsence_evolves:
  assumes S: "deactivates n S" and d: "config_shape (deviceConfigData d)" "msgs d q"
    "active_absences d \<le> n" "length q + active_absences d < 256"
  obtains d' q' where "lum_checkAbsence S E t curMin p d = Some d'" "evolves 1 d q d' q'"
proof -
  have "\<forall>i \<in> set [0..<MAX_ABSENCE_COUNT]. i < 10" by simp
  then obtain s d1 q1 where l: "absence_loop S t curMin [0..<MAX_ABSENCE_COUNT] OUTOF_ABSENCE d = Some (s, d1)"
    "evolves 0 d q d1 q1"
    using absence_loop_evolves [OF S d, of "[0..<MAX_ABSENCE_COUNT]" t curMin OUTOF_ABSENCE] by blast
  note e = evolvesD [OF l(2)]
  obtain d2 q2 where a: "absence_act E curMin p s d1 = Some d2" "evolves 1 d1 q1 d2 q2"
    using absence_act_evolves [OF e(1,2), of E curMin p s] e(3) d(4) by auto
  show ?thesis
  proof (cases "p = SWITCH_PIN_1")
    case True
    have "evolves 1 d q d2 q2" using evolves_trans [OF l(2) a(2)] by simp
    then show ?thesis using that True l a by (simp add: lum_checkAbsence_def)
  next
    case False
    then show ?thesis using that [of d q] evolves_mono [OF evolves_refl [OF d(1,2)], of 1]
      by (simp add: lum_checkAbsence_def)
  qed
qed

lemma lum_checkAbsenceWhileChange_evolves:
  assumes S: "deactivates n S" and d: "config_shape (deviceConfigData d)" "msgs d q"
    "active_absences d \<le> n" "length q + active_absences d < 256"
  obtains d' q' where "lum_checkAbsenceWhileChange S E i d = Some d'" "evolves 1 d q d' q'"
proof (cases "i < MAX_ABSENCE_COUNT")
  case True
  obtain s d1 where g: "lum_getSystemTime E d = (s, d1)" by fastforce
  note k = lum_getSystemTime_keeps [OF g]
  have e1: "evolves 0 d q d1 q"
    by (rule evolves_frame [OF evolves_refl [OF d(1,2)] k(3,5,1,8)])
  obtain t where t: "lum_gmtime s = Some t" using lum_gmtime_total [of s] by blast
  note e = evolvesD [OF e1]
  obtain d2 q2 where "lum_checkAbsence S E t (minute_of (hour t) (minute t)) SWITCH_PIN_1 d1 = Some d2"
    "evolves 1 d1 q d2 q2"
    using lum_checkAbsence_evolves [OF S e(1,2)] e(3,4) d(3,4) by (metis add.right_neutral order.strict_trans1 order.trans)
  then show ?thesis using that True g t evolves_trans [OF e1]
    by (fastforce simp: lum_checkAbsenceWhileChange_def lum_getGmtime_def)
next
  case False
  then show ?thesis using that [of d q] evolves_mono [OF evolves_refl [OF d(1,2)], of 1]
    by (simp add: lum_checkAbsenceWhileChange_def)
qed

lemma active_after_store:
  assumes "config_shape (deviceConfigData d)" "unat i < 10"
  shows "length (filter P ((absenceData (deviceConfigData d))[unat i := b]))
    + (if P (absenceData (deviceConfigData d) ! unat i) then 1 else 0)
    = length (filter P (absenceData (deviceConfigData d))) + (if P b then 1 else 0)"
proof -
  let ?xs = "absenceData (deviceConfigData d)"
  have len: "unat i < length ?xs" using assms config_shapeD(2) by auto
  have u: "?xs[unat i := b] = take (unat i) ?xs @ b # drop (Suc (unat i)) ?xs"
    using len by (simp add: upd_conv_take_nth_drop)
  have x: "?xs = take (unat i) ?xs @ ?xs ! unat i # drop (Suc (unat i)) ?xs"
    using len by (simp add: id_take_nth_drop [symmetric])
  have "length (filter P ?xs) = length (filter P (take (unat i) ?xs))
      + (if P (?xs ! unat i) then 1 else 0) + length (filter P (drop (Suc (unat i)) ?xs))"
    by (subst x) (simp del: append_take_drop_id)
  then show ?thesis unfolding u by simp
qed

text \<open>The state after \<open>setAbsenceData\<close> has stored its slot, before the re-evaluation.\<close>

definition store_absence :: "u8 \<Rightarrow> absence_data_info \<Rightarrow> device \<Rightarrow> device" where
  "store_absence i a d = saveDeviceConfigData (upd_config (\<lambda>c. c\<lparr>absenceData :=
     (absenceData c)[unat i := a]\<rparr>) d)"

lemma store_absence_shape:
  "config_shape (deviceConfigData d) \<Longrightarrow> config_shape (deviceConfigData (store_absence i a d))"
  by (simp add: store_absence_def config_shape_def)

lemma store_absence_msgs [simp]: "msgs (store_absence i a d) q = msgs d q"
  by (simp add: store_absence_def saveDeviceConfigData_def)

lemma bActive_inactive [simp]: "\<not> bActive (absRepeatData (a\<lparr>absRepeatData := set_bActive False r\<rparr>))"
  by simp

lemma slot_bound: "(int n \<le> uint (i :: u8)) = (n \<le> unat i)"
proof -
  have "uint i = int (unat i)" by simp
  then show ?thesis by linarith
qed

lemma setAbsenceData_n_deactivates: "deactivates n (setAbsenceData_n n E)"
proof (induction n)
  case 0
  have "active_absences d \<noteq> 0" if "config_shape (deviceConfigData d)" "getAbsenceData i d = Some a"
    "bActive (absRepeatData a)" for d i a
  proof -
    have "unat i < length (absenceData (deviceConfigData d))"
      "a = absenceData (deviceConfigData d) ! unat i"
      using that config_shapeD(2) [OF that(1)]
      by (auto simp: getAbsenceData_def word_le_nat_alt split: if_splits)
    then show ?thesis using that(3) nth_mem by (auto simp: active_absences_def filter_empty_conv)
  qed
  then show ?case unfolding deactivates_def by (metis le_zero_eq)
next
  case (Suc n)
  show ?case
    unfolding deactivates_def
  proof (intro allI impI)
    fix a :: absence_data_info and i d q
    assume d: "config_shape (deviceConfigData d)" "msgs d q" "active_absences d \<le> Suc n"
      "length q + active_absences d < 256" and g: "getAbsenceData i d = Some a"
      and act: "bActive (absRepeatData a)"
    let ?a = "a\<lparr>absRepeatData := set_bActive False (absRepeatData a)\<rparr>"
    have i: "unat i < 10" "a = absenceData (deviceConfigData d) ! unat i"
      using g by (auto simp: getAbsenceData_def word_le_nat_alt split: if_splits)
    have ne: "i \<noteq> ADD_ALARM_INDEX_EMPTY"
    proof
      assume "i = ADD_ALARM_INDEX_EMPTY"
      then have "unat i = 254" by simp
      with i(1) show False by simp
    qed
    have u: "\<not> (uint i - uint (0 :: u8) \<ge> MAX_ABSENCE_COUNT)" using i(1) slot_bound [of 10 i] by simp
    have len: "unat i < length (absenceData (deviceConfigData d))" using i(1) config_shapeD(2) [OF d(1)] by simp
    define flagged where "flagged b = saveDeviceConfigData (lum_setUdpLogFlag b d)" for b
    have fl: "evolves 0 d q (flagged b) q" for b
      using d(1,2) by (auto simp: evolves_def flagged_def lum_setUdpLogFlag_def
          saveDeviceConfigData_def active_absences_def config_shape_def config_saved_def)
    have "length (filter (\<lambda>a. bActive (absRepeatData a)) ((absenceData (deviceConfigData d))[unat i := ?a])) + 1
        = active_absences d"
      using active_after_store [OF d(1) i(1), of "\<lambda>a. bActive (absRepeatData a)" ?a] act i(2)
      by (simp add: active_absences_def)
    then have ac: "active_absences (store_absence i ?a d) + 1 = active_absences d"
      by (simp add: active_absences_def store_absence_def)
    obtain d2 q2 where w: "lum_checkAbsenceWhileChange (setAbsenceData_n n E) E i (store_absence i ?a d)
        = Some d2" "evolves 1 (store_absence i ?a d) q d2 q2"
      using lum_checkAbsenceWhileChange_evolves [OF Suc store_absence_shape [OF d(1)], of i ?a q E i]
        d(2-4) ac by auto
    have e2: "evolves 0 d q d2 q2"
      using w(2) ac by (auto simp: evolves_def store_absence_def)
    show "\<exists>r d' q'. setAbsenceData_n (Suc n) E ?a i 0 d = Some (r, d') \<and> evolves 0 d q d' q'"
      using fl [of 0] fl [of 1] w e2 ne u len
      by (auto simp: flagged_def store_absence_def Let_def)
  qed
qed

lemma active_absences_le: "config_shape (deviceConfigData d) \<Longrightarrow> active_absences d \<le> 10"
  using length_filter_le [of "\<lambda>a. bActive (absRepeatData a)" "absenceData (deviceConfigData d)"]
    config_shapeD(2) [of "deviceConfigData d"]
  by (simp add: active_absences_def)

text \<open>A deeper bound never changes a result.\<close>

definition extends :: "set_absence \<Rightarrow> set_absence \<Rightarrow> bool" where
  "extends S S' \<longleftrightarrow> (\<forall>a i off d x. S a i off d = Some x \<longrightarrow> S' a i off d = Some x)"

lemma lum_compareAbsence_extends:
  assumes "extends S S'" "lum_compareAbsence S t m i d = Some x"
  shows "lum_compareAbsence S' t m i d = Some x"
  using assms
  by (auto simp: lum_compareAbsence_def lum_checkInactiveAbsence_def extends_def
      split: bind_splits if_splits)

lemma absence_loop_extends:
  assumes "extends S S'"
  shows "absence_loop S t m is s d = Some x \<Longrightarrow> absence_loop S' t m is s d = Some x"
proof (induction "is" arbitrary: s d)
  case (Cons i "is")
  then obtain s1 d1 where "lum_compareAbsence S t m (of_nat i) d = Some (s1, d1)"
    "absence_loop S t m is (s OR s1) d1 = Some x"
    by (auto split: bind_splits)
  then show ?case using lum_compareAbsence_extends [OF assms] Cons.IH by simp
qed simp

lemma lum_checkAbsenceWhileChange_extends:
  assumes "extends S S'" "lum_checkAbsenceWhileChange S E i d = Some x"
  shows "lum_checkAbsenceWhileChange S' E i d = Some x"
  using assms(2) absence_loop_extends [OF assms(1)]
  by (auto simp: lum_checkAbsenceWhileChange_def lum_checkAbsence_def split: bind_splits if_splits)

lemma setAbsenceData_n_Suc: "extends (setAbsenceData_n n E) (setAbsenceData_n (Suc n) E)"
proof (induction n)
  case 0
  show ?case by (simp add: extends_def)
next
  case (Suc n)
  show ?case
    unfolding extends_def
  proof (intro allI impI)
    fix a i off d x
    assume "setAbsenceData_n (Suc n) E a i off d = Some x"
    then show "setAbsenceData_n (Suc (Suc n)) E a i off d = Some x"
      using lum_checkAbsenceWhileChange_extends [OF Suc]
      by (subst setAbsenceData_n.simps, subst (asm) setAbsenceData_n.simps)
        (auto simp: Let_def split: bind_splits if_splits)
  qed
qed

lemma setAbsenceData_n_mono:
  "n \<le> m \<Longrightarrow> setAbsenceData_n n E a i off d = Some x \<Longrightarrow> setAbsenceData_n m E a i off d = Some x"
proof (induction m rule: dec_induct)
  case (step k)
  then show ?case using setAbsenceData_n_Suc [of k E] unfolding extends_def by blast
qed

lemma setAbsenceData_total:
  assumes d: "config_shape (deviceConfigData d)" "msgs d q" "length q < 246"
  obtains r d' q' where "setAbsenceData E a i 0 d = Some (r, d')"
    "config_shape (deviceConfigData d')" "msgs d' q'" "\<exists>xs. q' = q @ xs \<and> length xs \<le> 11"
    "r = ADD_ALARM_INDEX_EMPTY \<and> d' = d \<or> config_saved d'"
proof -
  have "\<exists>tmp. (if i = ADD_ALARM_INDEX_EMPTY then lum_getAbsenceEmptyPlace 0 d else Some i) = Some tmp"
    using empty_place_find [of 0 MAX_ABSENCE_COUNT "absenceData (deviceConfigData d)" absence_free]
      config_shapeD(2) [OF d(1)] by (simp add: lum_getAbsenceEmptyPlace_def)
  then obtain tmp where tmp:
    "(if i = ADD_ALARM_INDEX_EMPTY then lum_getAbsenceEmptyPlace 0 d else Some i) = Some tmp" by blast
  define flagged where "flagged b = saveDeviceConfigData (lum_setUdpLogFlag b d)" for b
  have fl: "config_shape (deviceConfigData (flagged b))" "msgs (flagged b) q" "config_saved (flagged b)" for b
    using d by (simp_all add: flagged_def lum_setUdpLogFlag_def saveDeviceConfigData_def
        config_shape_def config_saved_def)
  show ?thesis
  proof (cases "tmp = ADD_ALARM_INDEX_EMPTY \<or> uint tmp - uint (0 :: u8) \<ge> MAX_ABSENCE_COUNT")
    case True
    then show ?thesis using tmp d
      by (intro that [of ADD_ALARM_INDEX_EMPTY d q]) (auto simp: setAbsenceData_def ABSENCE_DEPTH_def eval_nat_numeral)
  next
    case bound: False
    then have ti: "unat tmp < 10" using slot_bound [of 10 tmp] by simp
    note st = store_absence_shape [OF d(1), of tmp a]
    obtain d2 q2 where w: "lum_checkAbsenceWhileChange (setAbsenceData_n 10 E) E tmp (store_absence tmp a d)
        = Some d2" "evolves 1 (store_absence tmp a d) q d2 q2"
      using lum_checkAbsenceWhileChange_evolves [OF setAbsenceData_n_deactivates [of 10 E] st, of q E tmp]
        active_absences_le [OF st] d(2,3) by auto
    have e: "config_shape (deviceConfigData d2)" "msgs d2 q2" "config_saved d2"
      "\<exists>xs. q2 = q @ xs \<and> length xs \<le> 11"
      using w(2) active_absences_le [OF st] by (auto simp: evolves_def store_absence_def)
    show ?thesis
    proof (cases "absStartHour a = 7 \<and> absStartMinute a = 15 \<and> endHour a = 8 \<and> endMinute a = 16
        \<or> absStartHour a = 8 \<and> absStartMinute a = 16 \<and> endHour a = 9 \<and> endMinute a = 17")
      case True
      then show ?thesis using tmp bound fl
        by (intro that [of tmp "flagged (if absStartHour a = 7 then 0 else 1)" q])
          (auto simp: setAbsenceData_def ABSENCE_DEPTH_def eval_nat_numeral flagged_def)
    next
      case False
      then show ?thesis using tmp bound w e ti config_shapeD(2) [OF d(1)]
        by (intro that [of tmp d2 q2])
          (auto simp: setAbsenceData_def ABSENCE_DEPTH_def eval_nat_numeral store_absence_def Let_def)
    qed
  qed
qed

text \<open>
  Property C19: setting an absence slot always returns, although it re-evaluates the timer,
  which can set slots again: eleven nested calls are enough (a deeper bound gives the same
  result), no call leaves the arrays, and either no slot was free and nothing changed or the
  configuration that results is in flash.
\<close>

theorem setAbsenceData_terminates:
  "config_shape (deviceConfigData d) \<Longrightarrow> msgs d q \<Longrightarrow> length q < 246 \<Longrightarrow>
   \<exists>r d'. (\<forall>n. setAbsenceData_n (11 + n) E a i 0 d = Some (r, d'))
     \<and> setAbsenceData E a i 0 d = Some (r, d')
     \<and> config_shape (deviceConfigData d')
     \<and> (r = ADD_ALARM_INDEX_EMPTY \<and> d' = d \<or> config_saved d')"
proof -
  assume d: "config_shape (deviceConfigData d)" "msgs d q" "length q < 246"
  obtain r d' q' where s: "setAbsenceData E a i 0 d = Some (r, d')"
    "config_shape (deviceConfigData d')" "msgs d' q'" "\<exists>xs. q' = q @ xs \<and> length xs \<le> 11"
    "r = ADD_ALARM_INDEX_EMPTY \<and> d' = d \<or> config_saved d'"
    using setAbsenceData_total [OF d, of E a i] .
  have "setAbsenceData_n (11 + n) E a i 0 d = Some (r, d')" for n
    by (rule setAbsenceData_n_mono [where n = 11])
      (use s(1) in \<open>simp_all add: setAbsenceData_def ABSENCE_DEPTH_def\<close>)
  then show ?thesis using s by blast
qed

lemma msgs_power_on: "msgs power_on []"
  by (simp add: msgs_def msg_queue.contents_def power_on_def list_ok_def)

theorem setAbsenceData_terminates_witness:
  "\<exists>r d'. setAbsenceData plain_sdk (zero_absence\<lparr>absRepeatData := 0x80\<rparr>) 0xFE 0 power_on = Some (r, d')"
  using setAbsenceData_terminates [OF config_shape_power_on msgs_power_on,
      where E = plain_sdk and a = "zero_absence\<lparr>absRepeatData := 0x80\<rparr>" and i = "0xFE"] by auto

section \<open>Properties: alarms\<close>

definition alarm_starts :: "alarm_data_info \<Rightarrow> time_data_info \<Rightarrow> u16 \<Rightarrow> bool" where
  "alarm_starts a t m \<longleftrightarrow> bActive (repeatData a) \<and> minute_of (startHour a) (startMinute a) = m
     \<and> lum_compareWeekData (repeatData a) (week t)"

definition alarm_stops :: "alarm_data_info \<Rightarrow> time_data_info \<Rightarrow> u16 \<Rightarrow> bool" where
  "alarm_stops a t m \<longleftrightarrow> bActive (repeatData a) \<and> minute_of (stopHour a) (stopMinute a) = m
     \<and> lum_compareWeekData
         (if startHour a \<noteq> 0xFF \<and> startMinute a \<noteq> 0xFF
             \<and> minute_of (stopHour a) (stopMinute a) \<le> minute_of (startHour a) (startMinute a)
          then next_day_week (repeatData a) else repeatData a) (week t)"

definition inactive_alarm :: "alarm_data_info \<Rightarrow> alarm_data_info" where
  "inactive_alarm a = a\<lparr>repeatData := set_bActive False (repeatData a)\<rparr>"

text \<open>A one-shot alarm is over when it has stopped, or started without a stop time.\<close>

definition alarm_over :: "alarm_data_info \<Rightarrow> time_data_info \<Rightarrow> u16 \<Rightarrow> bool" where
  "alarm_over a t m \<longleftrightarrow> repeatData a AND 0x7F = 0 \<and>
     (alarm_stops a t m \<or> alarm_starts a t m \<and> (stopHour a = 0xFF \<or> stopMinute a = 0xFF))"

lemma inactive_alarm_twice: "inactive_alarm (inactive_alarm a) = inactive_alarm a"
  by (simp add: inactive_alarm_def set_bActive_def and.assoc)

lemma lum_checkInactiveAlarm_store:
  assumes "config_shape (deviceConfigData d)" "unat i < 32"
  shows "lum_checkInactiveAlarm i a d = Some (store_alarm (unat i) (inactive_alarm a) d)"
proof -
  have "i \<noteq> ADD_ALARM_INDEX_EMPTY"
  proof
    assume "i = ADD_ALARM_INDEX_EMPTY"
    then have "unat i = 254" by simp
    with assms(2) show False by simp
  qed
  then show ?thesis using assms
    by (simp add: lum_checkInactiveAlarm_def setAlarmData_slot alarm_slot_def inactive_alarm_def)
qed

lemma store_alarm_evolves:
  assumes "config_shape (deviceConfigData d)" "msgs d q"
  shows "evolves 0 d q (store_alarm k a d) q"
  using assms by (auto simp: evolves_def store_alarm_def saveDeviceConfigData_def
      active_absences_def config_shape_def config_saved_def)

lemma alarm_slot_get: "unat i < 32 \<Longrightarrow> getAlarmData i d = Some (alarmData (deviceConfigData d) ! unat i)"
  unfolding getAlarmData_def by (rule if_not_P) (simp add: word_le_nat_alt)

lemma store_alarm_get:
  "config_shape (deviceConfigData d) \<Longrightarrow> unat i < 32 \<Longrightarrow>
    getAlarmData i (store_alarm (unat i) a d) = Some a"
  using config_shapeD(1) [of "deviceConfigData d"] by (simp add: alarm_slot_get store_alarm_def)

text \<open>
  One switch action of a timer, suppressed while the absence simulation runs, and the
  deactivation of a one-shot alarm after it.
\<close>

lemma timer_switch:
  assumes d: "config_shape (deviceConfigData d)" "msgs d q" "length q < 256" and i: "unat i < 32"
    and a: "getAlarmData i d = Some a"
  obtains dx d' q' where
    "(if \<not> absenceRunning d then setSwitchStatus E action p d else Some d) = Some dx"
    "getAlarmData i dx = Some a"
    "(if over then lum_checkInactiveAlarm i a dx else Some dx) = Some d'"
    "evolves 1 d q d' q'" "getAlarmData i d' = Some (if over then inactive_alarm a else a)"
    "relay_level (trace d') = (if absenceRunning d then relay_level (trace d)
       else Some (action = SWITCH_OPEN))" "absenceRunning d' = absenceRunning d"
proof -
  obtain d1 q1 where d1: "(if \<not> absenceRunning d then setSwitchStatus E action p d else Some d) = Some d1"
    "evolves 1 d q d1 q1" "relay_level (trace d1) = (if absenceRunning d then relay_level (trace d)
       else Some (action = SWITCH_OPEN))" "absenceRunning d1 = absenceRunning d"
    "getAlarmData i d1 = getAlarmData i d"
  proof (cases "absenceRunning d")
    case True
    then show ?thesis using that [of d q] evolves_mono [OF evolves_refl [OF d(1,2)], of 1] by simp
  next
    case False
    obtain d1 q1 where x: "setSwitchStatus E action p d = Some d1" "evolves 1 d q d1 q1"
      "relay_level (trace d1) = Some (action = SWITCH_OPEN)" "absenceRunning d1 = absenceRunning d"
      using setSwitchStatus_evolves [OF d] by metis
    then show ?thesis using that [of d1 q1] False core_eqD(1) [OF setSwitchStatus_core(1) [OF x(1)]]
      by (simp add: getAlarmData_def)
  qed
  note e = evolvesD [OF d1(2)]
  show ?thesis
  proof (cases over)
    case True
    then show ?thesis
      using that [of d1 "store_alarm (unat i) (inactive_alarm a) d1" q1] d1 e a i
        evolves_trans [OF d1(2) store_alarm_evolves [OF e(1,2)], of "unat i" "inactive_alarm a"]
      by (simp add: lum_checkInactiveAlarm_store store_alarm_get)
        (simp add: store_alarm_def)
  next
    case False
    then show ?thesis using that [of d1 d1 q1] d1 a by simp
  qed
qed

lemma lum_compareAlarm_effect:
  assumes d: "config_shape (deviceConfigData d)" "msgs d q" "length q + active_absences d < 255"
    and i: "unat i < 32"
    and a: "getAlarmData i d = Some a"
  obtains d' q' where "lum_compareAlarm E t m i d = Some d'" "evolves 2 d q d' q'"
    "relay_level (trace d') =
       (if absenceRunning d then relay_level (trace d)
        else if alarm_stops a t m then Some False
        else if alarm_starts a t m then Some True else relay_level (trace d))"
    "absenceRunning d' = absenceRunning d"
    "getAlarmData i d' = Some (if alarm_over a t m then inactive_alarm a else a)"
proof (cases "bActive (repeatData a)")
  case False
  then show ?thesis using that [of d q] a evolves_mono [OF evolves_refl [OF d(1,2)], of 2]
    by (simp add: lum_compareAlarm_def alarm_stops_def alarm_starts_def alarm_over_def)
next
  case act: True
  let ?b = "minute_of (startHour a) (startMinute a)" and ?e = "minute_of (stopHour a) (stopMinute a)"
  let ?over1 = "(stopHour a = 0xFF \<or> stopMinute a = 0xFF) \<and> repeatData a AND 0x7F = 0"
  let ?a1 = "if alarm_starts a t m \<and> ?over1 then inactive_alarm a else a"
  have len0: "length q < 256" using d(3) by simp
  obtain d1 q1 where s: "alarm_start E i t m (repeatData a) ?b d = Some d1" "evolves 1 d q d1 q1"
    "relay_level (trace d1) = (if absenceRunning d then relay_level (trace d)
       else if alarm_starts a t m then Some True else relay_level (trace d))"
    "absenceRunning d1 = absenceRunning d" "getAlarmData i d1 = Some ?a1"
  proof (cases "alarm_starts a t m")
    case True
    obtain dx d1 q1 where x:
      "(if \<not> absenceRunning d then setSwitchStatus E SWITCH_OPEN SWITCH_PIN_1 d else Some d) = Some dx"
      "getAlarmData i dx = Some a"
      "(if ?over1 then lum_checkInactiveAlarm i a dx else Some dx) = Some d1"
      "evolves 1 d q d1 q1" "getAlarmData i d1 = Some (if ?over1 then inactive_alarm a else a)"
      "relay_level (trace d1) = (if absenceRunning d then relay_level (trace d)
         else Some (SWITCH_OPEN = SWITCH_OPEN))"
      "absenceRunning d1 = absenceRunning d"
      using timer_switch [OF d(1,2) len0 i a, of E SWITCH_OPEN SWITCH_PIN_1 ?over1] .
    have "alarm_start E i t m (repeatData a) ?b d = Some d1"
      using True x(1-3)
      by (simp add: alarm_start_def alarm_starts_def lum_bAbsenceRunNow_def
          lum_getAlarmSwitchPinFlag_def Let_def)
    then show ?thesis using that [of d1 q1] x True by simp
  next
    case False
    then show ?thesis using that [of d q] a act evolves_mono [OF evolves_refl [OF d(1,2)], of 1]
      by (auto simp: alarm_start_def alarm_starts_def)
  qed
  note e = evolvesD [OF s(2)]
  have same: "startHour ?a1 = startHour a" "startMinute ?a1 = startMinute a"
    by (simp_all add: inactive_alarm_def)
  define w where "w = (if startHour a \<noteq> 0xFF \<and> startMinute a \<noteq> 0xFF \<and> ?e \<le> ?b
    then next_day_week (repeatData a) else repeatData a)"
  have w0: "(w AND 0x7F = 0) = (repeatData a AND 0x7F = 0)" by (simp add: w_def next_day_zero)
  have len: "length q1 < 256" using s(2) d(3) by (auto simp: evolves_def)
  have stop: "alarm_stops a t m \<longleftrightarrow> ?e = m \<and> lum_compareWeekData w (week t)"
    using act unfolding alarm_stops_def w_def by blast
  have cmp: "lum_compareAlarm E t m i d = alarm_stop E i t m (repeatData a) ?b ?e d1"
    using a act s(1) by (simp add: lum_compareAlarm_def)
  have unf: "alarm_stop E i t m (repeatData a) ?b ?e d1 =
    (if ?e = m \<and> lum_compareWeekData w (week t)
     then Option.bind (if \<not> absenceRunning d1 then setSwitchStatus E SWITCH_CLOSE SWITCH_PIN_1 d1 else Some d1)
       (\<lambda>dx. if w AND 0x7F = 0 then lum_checkInactiveAlarm i ?a1 dx else Some dx)
     else Some d1)"
    unfolding alarm_stop_def s(5) Option.bind.bind_lunit same Let_def w_def
    by (simp add: lum_bAbsenceRunNow_def lum_getAlarmSwitchPinFlag_def)
  show ?thesis
  proof (cases "alarm_stops a t m")
    case True
    obtain dx d2 q2 where x:
      "(if \<not> absenceRunning d1 then setSwitchStatus E SWITCH_CLOSE SWITCH_PIN_1 d1 else Some d1) = Some dx"
      "getAlarmData i dx = Some ?a1"
      "(if w AND 0x7F = 0 then lum_checkInactiveAlarm i ?a1 dx else Some dx) = Some d2"
      "evolves 1 d1 q1 d2 q2"
      "getAlarmData i d2 = Some (if w AND 0x7F = 0 then inactive_alarm ?a1 else ?a1)"
      "relay_level (trace d2) = (if absenceRunning d1 then relay_level (trace d1)
         else Some (SWITCH_CLOSE = SWITCH_OPEN))"
      "absenceRunning d2 = absenceRunning d1"
      using timer_switch [OF e(1,2) len i s(5), of E SWITCH_CLOSE SWITCH_PIN_1 "w AND 0x7F = 0"] .
    have "alarm_stop E i t m (repeatData a) ?b ?e d1 = Some d2"
      using True x(3) unfolding unf x(1) stop by simp
    then have "lum_compareAlarm E t m i d = Some d2" using cmp by simp
    moreover have "relay_level (trace d2) = (if absenceRunning d then relay_level (trace d) else Some False)"
      using x(6) s(3,4) by simp
    moreover have "getAlarmData i d2 = Some (if alarm_over a t m then inactive_alarm a else a)"
      using x(5) True unfolding alarm_over_def w0
      by (simp add: inactive_alarm_twice split: if_splits)
    ultimately show ?thesis
      using that [of d2 q2] evolves_trans [OF s(2) x(4), unfolded one_add_one] x(7) s(4) True
      by simp
  next
    case False
    have "alarm_stop E i t m (repeatData a) ?b ?e d1 = Some d1"
      using False unfolding unf stop by (rule if_not_P)
    then show ?thesis
      using that [of d1 q1] cmp False s evolves_mono [OF s(2), of 2] 
      by (simp add: alarm_over_def conj_ac)
  qed
qed

text \<open>
  Property C22: an alarm opens the switch in its start minute and closes it in its stop minute,
  on the days it is set for (a stop before the start counts for the following day), unless it
  is inactive or the absence simulation runs; a one-shot alarm is deactivated when it is over.
\<close>

theorem alarm_switches:
  "config_shape (deviceConfigData d) \<Longrightarrow> msgs d q \<Longrightarrow> length q + active_absences d < 255 \<Longrightarrow>
   unat i < 32 \<Longrightarrow> getAlarmData i d = Some a \<Longrightarrow>
   \<exists>d'. lum_compareAlarm E t m i d = Some d'
     \<and> relay_level (trace d') =
        (if absenceRunning d then relay_level (trace d)
         else if alarm_stops a t m then Some False
         else if alarm_starts a t m then Some True else relay_level (trace d))
     \<and> getAlarmData i d' = Some (if alarm_over a t m then inactive_alarm a else a)"
  using lum_compareAlarm_effect [of d q i a E t m] by metis

definition evening_alarm :: alarm_data_info where
  "evening_alarm = zero_alarm\<lparr>repeatData := 0x80, startHour := 18, startMinute := 30,
     stopHour := 0xFF, stopMinute := 0xFF\<rparr>"

definition friday_evening :: time_data_info where
  "friday_evening = \<lparr>year = 2015, month = 5, day = 8, week = 5, hour = 18, minute = 30, second = 7\<rparr>"

theorem alarm_switches_witness:
  "\<exists>d'. lum_compareAlarm plain_sdk friday_evening 1110 5 (store_alarm 5 evening_alarm power_on) = Some d'
     \<and> relay_level (trace d') = Some True
     \<and> map_option (\<lambda>a. bActive (repeatData a)) (getAlarmData 5 d') = Some False"
proof -
  let ?d = "store_alarm 5 evening_alarm power_on"
  have e: "evolves 0 power_on [] ?d []"
    by (rule store_alarm_evolves [OF config_shape_power_on msgs_power_on])
  have g: "getAlarmData 5 ?d = Some evening_alarm"
    using store_alarm_get [OF config_shape_power_on, of 5 evening_alarm] by simp
  have n: "length ([] :: (nat \<times> msg_node_body) list) + active_absences ?d < 255"
    using active_absences_le [OF evolvesD(1) [OF e]] by simp
  have f: "alarm_starts evening_alarm friday_evening 1110" "\<not> alarm_stops evening_alarm friday_evening 1110"
    "alarm_over evening_alarm friday_evening 1110" "\<not> absenceRunning ?d"
    by (code_simp, code_simp, code_simp, code_simp)
  show ?thesis
    using alarm_switches [OF evolvesD(1,2) [OF e] n _ g, where E = plain_sdk and t = friday_evening
        and m = 1110] f by (auto simp: inactive_alarm_def)
qed

end
