(* ===== verification/Aes.thy ===== *)
theory Aes
  imports Aes_Tables
begin

text \<open>
  The block cipher of \<open>aes.c\<close> with its table lookups: key schedule, one block in both
  directions, and cipher block chaining.  Memory that the code reads both as bytes and as words
  is a list of bytes; the round keys are the words of \<open>aes->key\<close>.
\<close>

record aes =
  aes_key :: "u32 list"
  rounds :: u32
  aes_reg :: "u8 list"

datatype direction = AES_ENCRYPTION | AES_DECRYPTION

abbreviation (input) "AES_BLOCK_SIZE \<equiv> 16"
abbreviation (input) "BAD_FUNC_ARG \<equiv> - 173 :: int"

section \<open>Words and bytes\<close>

definition rotlFixed :: "u32 \<Rightarrow> nat \<Rightarrow> u32" where
  "rotlFixed x y = push_bit y x OR drop_bit (32 - y) x"

definition ByteReverseWord32 :: "u32 \<Rightarrow> u32" where
  "ByteReverseWord32 value =
     rotlFixed (drop_bit 8 (value AND 0xFF00FF00) OR push_bit 8 (value AND 0x00FF00FF)) 16"

definition load_word :: "u8 list \<Rightarrow> nat \<Rightarrow> u32" where
  "load_word buf i = of_le32 (take 4 (drop (4 * i) buf))"

definition ByteReverseWords :: "u32 list \<Rightarrow> u32 list" where
  "ByteReverseWords ws = map ByteReverseWord32 ws"

definition XorWords :: "u32 list \<Rightarrow> u32 list \<Rightarrow> u32 list" where
  "XorWords r a = map2 (XOR) r a"

definition xorbuf :: "u8 list \<Rightarrow> u8 list \<Rightarrow> nat \<Rightarrow> u8 list" where
  "xorbuf buf mask_buf count =
     map2 (XOR) (take count buf) (take count mask_buf) @ drop count buf"

definition GETBYTE :: "u32 \<Rightarrow> nat \<Rightarrow> u8" where
  "GETBYTE x y = ucast (drop_bit (8 * y) x)"

definition te :: "nat \<Rightarrow> u32 \<Rightarrow> nat \<Rightarrow> u32" where
  "te k x y = Te k ! unat (GETBYTE x y)"

definition td :: "nat \<Rightarrow> u32 \<Rightarrow> nat \<Rightarrow> u32" where
  "td k x y = Td k ! unat (GETBYTE x y)"

section \<open>Key schedule\<close>

definition AesSetIV :: "aes \<Rightarrow> u8 list option \<Rightarrow> aes" where
  "AesSetIV a iv = (case iv of None \<Rightarrow> a | Some v \<Rightarrow> a\<lparr>aes_reg := take AES_BLOCK_SIZE v\<rparr>)"

definition rot_sub_word :: "u32 \<Rightarrow> u32" where
  "rot_sub_word temp = te 4 temp 2 AND 0xff000000 XOR te 4 temp 1 AND 0x00ff0000
     XOR te 4 temp 0 AND 0x0000ff00 XOR te 4 temp 3 AND 0x000000ff"

definition sub_word :: "u32 \<Rightarrow> u32" where
  "sub_word temp = te 4 temp 3 AND 0xff000000 XOR te 4 temp 2 AND 0x00ff0000
     XOR te 4 temp 1 AND 0x0000ff00 XOR te 4 temp 0 AND 0x000000ff"

text \<open>One step \<open>rk[n] = rk[n - d] ^ rk[n - 1]\<close> of an expansion.\<close>

definition chain_key :: "nat \<Rightarrow> nat \<Rightarrow> u32 list \<Rightarrow> u32 list" where
  "chain_key d n rk = rk[n := rk ! (n - d) XOR rk ! (n - 1)]"

definition expand_128 :: "nat \<Rightarrow> u32 list \<Rightarrow> u32 list" where
  "expand_128 i rk =
     (let o4 = 4 * i; temp = rk ! (o4 + 3);
          rk1 = rk[o4 + 4 := rk ! o4 XOR rot_sub_word temp XOR rcon ! i]
      in fold (chain_key 4) [o4 + 5, o4 + 6, o4 + 7] rk1)"

definition expand_192 :: "nat \<Rightarrow> u32 list \<Rightarrow> u32 list" where
  "expand_192 i rk =
     (let o6 = 6 * i; temp = rk ! (o6 + 5);
          rk1 = rk[o6 + 6 := rk ! o6 XOR rot_sub_word temp XOR rcon ! i];
          rk2 = fold (chain_key 6) [o6 + 7, o6 + 8, o6 + 9] rk1
      in if i + 1 = 8 then rk2 else fold (chain_key 6) [o6 + 10, o6 + 11] rk2)"

definition expand_256 :: "nat \<Rightarrow> u32 list \<Rightarrow> u32 list" where
  "expand_256 i rk =
     (let o8 = 8 * i; temp = rk ! (o8 + 7);
          rk1 = rk[o8 + 8 := rk ! o8 XOR rot_sub_word temp XOR rcon ! i];
          rk2 = fold (chain_key 8) [o8 + 9, o8 + 10, o8 + 11] rk1
      in if i + 1 = 7 then rk2
         else let rk3 = rk2[o8 + 12 := rk2 ! (o8 + 4) XOR sub_word (rk2 ! (o8 + 11))]
              in fold (chain_key 8) [o8 + 13, o8 + 14, o8 + 15] rk3)"

definition swap_words :: "nat \<Rightarrow> nat \<Rightarrow> u32 list \<Rightarrow> u32 list" where
  "swap_words i j rk = rk[i := rk ! j, j := rk ! i]"

function invert_keys :: "nat \<Rightarrow> nat \<Rightarrow> u32 list \<Rightarrow> u32 list" where
  "invert_keys i j rk =
     (if i < j
      then invert_keys (i + 4) (j - 4)
             (fold (\<lambda>c. swap_words (i + c) (j + c)) [0, 1, 2, 3] rk)
      else rk)"
  by pat_completeness auto
termination by (relation "measure (\<lambda>(i, j, rk). j - i)") auto

declare invert_keys.simps [simp del]

definition inv_mix_key :: "u32 \<Rightarrow> u32" where
  "inv_mix_key w = Td 0 ! unat (te 4 w 3 AND 0xff) XOR Td 1 ! unat (te 4 w 2 AND 0xff)
     XOR Td 2 ! unat (te 4 w 1 AND 0xff) XOR Td 3 ! unat (te 4 w 0 AND 0xff)"

definition inv_mix_round :: "nat \<Rightarrow> u32 list \<Rightarrow> u32 list" where
  "inv_mix_round i rk = fold (\<lambda>c rk. rk[4 * i + c := inv_mix_key (rk ! (4 * i + c))]) [0, 1, 2, 3] rk"

definition AesSetKeyLocal ::
    "aes \<Rightarrow> u8 list \<Rightarrow> nat \<Rightarrow> u8 list option \<Rightarrow> direction \<Rightarrow> int \<times> aes" where
  "AesSetKeyLocal a userKey keylen iv dir =
     (let n = keylen div 4; nr = n + 6;
          rk = ByteReverseWords (map (load_word userKey) [0..<n]) @ drop n (aes_key a);
          a0 = a\<lparr>rounds := of_nat nr, aes_key := rk\<rparr>
      in if keylen \<noteq> 16 \<and> keylen \<noteq> 24 \<and> keylen \<noteq> 32 then (BAD_FUNC_ARG, a0)
         else let rk1 = (if keylen = 16 then fold expand_128 [0..<10] rk
                         else if keylen = 24 then fold expand_192 [0..<8] rk
                         else fold expand_256 [0..<7] rk);
                  rk2 = (if dir = AES_DECRYPTION
                         then fold inv_mix_round [1..<nr] (invert_keys 0 (4 * nr) rk1) else rk1)
              in (0, AesSetIV (a0\<lparr>aes_key := rk2\<rparr>) iv))"

definition AesSetKey ::
    "aes \<Rightarrow> u8 list \<Rightarrow> nat \<Rightarrow> u8 list option \<Rightarrow> direction \<Rightarrow> int \<times> aes" where
  "AesSetKey a userKey keylen iv dir =
     (if \<not> (keylen = 16 \<or> keylen = 24 \<or> keylen = 32) then (BAD_FUNC_ARG, a)
      else AesSetKeyLocal a userKey keylen iv dir)"

section \<open>One block\<close>

type_synonym state4 = "u32 \<times> u32 \<times> u32 \<times> u32"

definition load_state :: "u8 list \<Rightarrow> u32 list \<Rightarrow> state4" where
  "load_state buf rk =
     (ByteReverseWord32 (load_word buf 0) XOR rk ! 0, ByteReverseWord32 (load_word buf 1) XOR rk ! 1,
      ByteReverseWord32 (load_word buf 2) XOR rk ! 2, ByteReverseWord32 (load_word buf 3) XOR rk ! 3)"

definition store_state :: "state4 \<Rightarrow> u8 list" where
  "store_state = (\<lambda>(s0, s1, s2, s3).
     le32 (ByteReverseWord32 s0) @ le32 (ByteReverseWord32 s1)
     @ le32 (ByteReverseWord32 s2) @ le32 (ByteReverseWord32 s3))"

definition enc_word :: "u32 \<Rightarrow> u32 \<Rightarrow> u32 \<Rightarrow> u32 \<Rightarrow> u32 \<Rightarrow> u32" where
  "enc_word a b c d k = te 0 a 3 XOR te 1 b 2 XOR te 2 c 1 XOR te 3 d 0 XOR k"

definition enc_round :: "u32 list \<Rightarrow> nat \<Rightarrow> state4 \<Rightarrow> state4" where
  "enc_round rk p = (\<lambda>(s0, s1, s2, s3).
     (enc_word s0 s1 s2 s3 (rk ! p), enc_word s1 s2 s3 s0 (rk ! (p + 1)),
      enc_word s2 s3 s0 s1 (rk ! (p + 2)), enc_word s3 s0 s1 s2 (rk ! (p + 3))))"

fun enc_rounds :: "u32 list \<Rightarrow> nat \<Rightarrow> nat \<Rightarrow> state4 \<Rightarrow> state4 \<times> nat" where
  "enc_rounds rk p r s =
     (let t = enc_round rk (p + 4) s; p' = p + 8
      in if r \<le> 1 then (t, p') else enc_rounds rk p' (r - 1) (enc_round rk p' t))"

definition enc_last_word :: "u32 \<Rightarrow> u32 \<Rightarrow> u32 \<Rightarrow> u32 \<Rightarrow> u32 \<Rightarrow> u32" where
  "enc_last_word a b c d k = te 4 a 3 AND 0xff000000 XOR te 4 b 2 AND 0x00ff0000
     XOR te 4 c 1 AND 0x0000ff00 XOR te 4 d 0 AND 0x000000ff XOR k"

definition enc_last :: "u32 list \<Rightarrow> nat \<Rightarrow> state4 \<Rightarrow> state4" where
  "enc_last rk p = (\<lambda>(t0, t1, t2, t3).
     (enc_last_word t0 t1 t2 t3 (rk ! p), enc_last_word t1 t2 t3 t0 (rk ! (p + 1)),
      enc_last_word t2 t3 t0 t1 (rk ! (p + 2)), enc_last_word t3 t0 t1 t2 (rk ! (p + 3))))"

text \<open>\<open>outBlock\<close> is what the output block held before: it stays when the key is improper.\<close>

definition AesEncrypt :: "aes \<Rightarrow> u8 list \<Rightarrow> u8 list \<Rightarrow> u8 list" where
  "AesEncrypt a inBlock outBlock =
     (let r = unat (drop_bit 1 (rounds a)); rk = aes_key a
      in if r > 7 \<or> r = 0 then outBlock
         else let (t, p) = enc_rounds rk 0 r (load_state inBlock rk)
              in store_state (enc_last rk p t))"

definition dec_word :: "u32 \<Rightarrow> u32 \<Rightarrow> u32 \<Rightarrow> u32 \<Rightarrow> u32 \<Rightarrow> u32" where
  "dec_word a b c d k = td 0 a 3 XOR td 1 b 2 XOR td 2 c 1 XOR td 3 d 0 XOR k"

definition dec_round :: "u32 list \<Rightarrow> nat \<Rightarrow> state4 \<Rightarrow> state4" where
  "dec_round rk p = (\<lambda>(s0, s1, s2, s3).
     (dec_word s0 s3 s2 s1 (rk ! p), dec_word s1 s0 s3 s2 (rk ! (p + 1)),
      dec_word s2 s1 s0 s3 (rk ! (p + 2)), dec_word s3 s2 s1 s0 (rk ! (p + 3))))"

fun dec_rounds :: "u32 list \<Rightarrow> nat \<Rightarrow> nat \<Rightarrow> state4 \<Rightarrow> state4 \<times> nat" where
  "dec_rounds rk p r s =
     (let t = dec_round rk (p + 4) s; p' = p + 8
      in if r \<le> 1 then (t, p') else dec_rounds rk p' (r - 1) (dec_round rk p' t))"

definition dec_last_word :: "u32 \<Rightarrow> u32 \<Rightarrow> u32 \<Rightarrow> u32 \<Rightarrow> u32 \<Rightarrow> u32" where
  "dec_last_word a b c d k = td 4 a 3 AND 0xff000000 XOR td 4 b 2 AND 0x00ff0000
     XOR td 4 c 1 AND 0x0000ff00 XOR td 4 d 0 AND 0x000000ff XOR k"

definition dec_last :: "u32 list \<Rightarrow> nat \<Rightarrow> state4 \<Rightarrow> state4" where
  "dec_last rk p = (\<lambda>(t0, t1, t2, t3).
     (dec_last_word t0 t3 t2 t1 (rk ! p), dec_last_word t1 t0 t3 t2 (rk ! (p + 1)),
      dec_last_word t2 t1 t0 t3 (rk ! (p + 2)), dec_last_word t3 t2 t1 t0 (rk ! (p + 3))))"

definition AesDecrypt :: "aes \<Rightarrow> u8 list \<Rightarrow> u8 list \<Rightarrow> u8 list" where
  "AesDecrypt a inBlock outBlock =
     (let r = unat (drop_bit 1 (rounds a)); rk = aes_key a
      in if r > 7 \<or> r = 0 then outBlock
         else let (t, p) = dec_rounds rk 0 r (load_state inBlock rk)
              in store_state (dec_last rk p t))"

declare enc_rounds.simps [simp del] dec_rounds.simps [simp del]

section \<open>Cipher block chaining\<close>

text \<open>The bytes written to \<open>out\<close>, and the cipher state with the register after the last block.\<close>

primrec cbc_encrypt_blocks :: "nat \<Rightarrow> aes \<Rightarrow> u8 list \<Rightarrow> u8 list \<times> aes" where
  "cbc_encrypt_blocks 0 a buf = ([], a)"
| "cbc_encrypt_blocks (Suc blocks) a buf =
     (let x = xorbuf (aes_reg a) buf AES_BLOCK_SIZE;
          c = AesEncrypt a x x;
          (rest, a') = cbc_encrypt_blocks blocks (a\<lparr>aes_reg := c\<rparr>) (drop AES_BLOCK_SIZE buf)
      in (c @ rest, a'))"

definition AesCbcEncrypt :: "aes \<Rightarrow> u8 list \<Rightarrow> nat \<Rightarrow> u8 list \<times> aes" where
  "AesCbcEncrypt a buf sz = cbc_encrypt_blocks (sz div AES_BLOCK_SIZE) a buf"

text \<open>\<open>out\<close> holds the old contents of the output buffer.\<close>

primrec cbc_decrypt_blocks :: "nat \<Rightarrow> aes \<Rightarrow> u8 list \<Rightarrow> u8 list \<Rightarrow> u8 list \<times> aes" where
  "cbc_decrypt_blocks 0 a out buf = ([], a)"
| "cbc_decrypt_blocks (Suc blocks) a out buf =
     (let c = take AES_BLOCK_SIZE buf;
          x = AesDecrypt a c (take AES_BLOCK_SIZE out);
          (rest, a') = cbc_decrypt_blocks blocks (a\<lparr>aes_reg := c\<rparr>)
                         (drop AES_BLOCK_SIZE out) (drop AES_BLOCK_SIZE buf)
      in (xorbuf x (aes_reg a) AES_BLOCK_SIZE @ rest, a'))"

definition AesCbcDecrypt :: "aes \<Rightarrow> u8 list \<Rightarrow> u8 list \<Rightarrow> nat \<Rightarrow> u8 list \<times> aes" where
  "AesCbcDecrypt a out buf sz = cbc_decrypt_blocks (sz div AES_BLOCK_SIZE) a out buf"

section \<open>The tables as a linear map over a substitution\<close>

definition S :: "u8 \<Rightarrow> u8" where
  "S b = ucast (Te4 ! unat b)"

definition Si :: "u8 \<Rightarrow> u8" where
  "Si b = ucast (Td4 ! unat b)"

lemma Si_S [simp]: "Si (S b) = b"
proof -
  have "(map (\<lambda>w. ucast (Td4 ! unat (ucast w :: u8))) Te4) ! unat b
    = (map (of_nat :: nat \<Rightarrow> u8) [0..<256]) ! unat b"
    by (simp only: Td4_inverse)
  then show ?thesis by (simp add: S_def Si_def length_tables)
qed

lemma bit_word_of: "bit (word_of b3 b2 b1 b0) n =
    (if n < 8 then bit b0 n else if n < 16 then bit b1 (n - 8)
     else if n < 24 then bit b2 (n - 16) else bit b3 (n - 24))"
  by (auto simp: word_of_def bit_simps dest: bit_u8_high)

lemma GETBYTE_word_of [simp]:
  "GETBYTE (word_of b3 b2 b1 b0) 3 = b3" "GETBYTE (word_of b3 b2 b1 b0) 2 = b2"
  "GETBYTE (word_of b3 b2 b1 b0) 1 = b1" "GETBYTE (word_of b3 b2 b1 b0) (Suc 0) = b1"
  "GETBYTE (word_of b3 b2 b1 b0) 0 = b0"
  by (rule bit_word_eqI; simp add: GETBYTE_def bit_simps bit_word_of)+

lemma word_of_GETBYTE: "word_of (GETBYTE w 3) (GETBYTE w 2) (GETBYTE w 1) (GETBYTE w 0) = w"
  by (rule bit_word_eqI) (auto simp: GETBYTE_def bit_simps bit_word_of)

lemma word_of_xor [simp]:
  "word_of a b c d XOR word_of a' b' c' d' = word_of (a XOR a') (b XOR b') (c XOR c') (d XOR d')"
  by (rule bit_word_eqI) (simp add: bit_simps bit_word_of)

lemma rotr8_word_of [simp]: "rotr8 (word_of a b c d) = word_of d a b c"
  by (rule bit_word_eqI) (auto simp: rotr8_def bit_simps bit_word_of dest: bit_u8_high)

lemma word_of_and_word_of:
  "word_of a b c d AND word_of a' b' c' d' = word_of (a AND a') (b AND b') (c AND c') (d AND d')"
  by (rule bit_word_eqI) (simp add: bit_simps bit_word_of)

lemma and_FF: "b AND 0xFF = (b :: u8)"
proof -
  have "(0xFF :: u8) = - 1" by simp
  then show ?thesis by (simp only: and.right_neutral)
qed

lemma word_of_masks: "(0xff000000 :: u32) = word_of 0xFF 0 0 0" "(0xff0000 :: u32) = word_of 0 0xFF 0 0"
  "(0xff00 :: u32) = word_of 0 0 0xFF 0" "(0xff :: u32) = word_of 0 0 0 0xFF"
  by (simp_all add: word_of_def)

lemma word_of_and [simp]:
  "word_of a b c d AND 0xff000000 = word_of a 0 0 0" "word_of a b c d AND 0xff0000 = word_of 0 b 0 0"
  "word_of a b c d AND 0xff00 = word_of 0 0 c 0" "word_of a b c d AND 0xff = word_of 0 0 0 d"
  unfolding word_of_masks word_of_and_word_of and_FF by simp_all

lemma xtime_xor [simp]: "xtime (a XOR b) = xtime a XOR xtime b"
  by (rule bit_word_eqI) (auto simp: xtime_def bit_simps)

lemma Te_nth: "Te 4 ! unat b = word_of (S b) (S b) (S b) (S b)"
  "Te 0 ! unat b = mix_column (S b)"
  "Te 1 ! unat b = rotr8 (mix_column (S b))"
  "Te 2 ! unat b = rotr8 (rotr8 (mix_column (S b)))"
  "Te 3 ! unat b = rotr8 (rotr8 (rotr8 (mix_column (S b))))"
proof -
  have "Te4 ! unat b = map rep_word (map ucast Te4) ! unat b" by (simp only: Te4_byte [symmetric])
  then show "Te 4 ! unat b = word_of (S b) (S b) (S b) (S b)" by (simp add: Te_def S_def rep_word_def)
qed (simp_all add: Te_def Te1_rot Te2_rot Te3_rot Te0_mix S_def)

lemma Td_nth: "Td 4 ! unat b = word_of (Si b) (Si b) (Si b) (Si b)"
  "Td 0 ! unat b = inv_mix_column (Si b)"
  "Td 1 ! unat b = rotr8 (inv_mix_column (Si b))"
  "Td 2 ! unat b = rotr8 (rotr8 (inv_mix_column (Si b)))"
  "Td 3 ! unat b = rotr8 (rotr8 (rotr8 (inv_mix_column (Si b))))"
proof -
  have "Td4 ! unat b = map rep_word (map ucast Td4) ! unat b" by (simp only: Td4_byte [symmetric])
  then show "Td 4 ! unat b = word_of (Si b) (Si b) (Si b) (Si b)" by (simp add: Td_def Si_def rep_word_def)
qed (simp_all add: Td_def Td1_rot Td2_rot Td3_rot Td0_mix Si_def)

lemma ucast_word_of [simp]: "unat (word_of 0 0 0 d) = unat d"
proof -
  have "word_of 0 0 0 d = ucast d" by (simp add: word_of_def)
  moreover have "unat d < 2 ^ 32" by (rule less_trans [OF unat_u8_less]) simp
  ultimately show ?thesis by (simp add: unsigned_ucast_eq take_bit_eq_mod)
qed

lemma xor_cancel: "a XOR (a XOR b) = (b :: 'a :: len word)"
  by (simp add: xor.assoc [symmetric])

lemma enc_last_word_bytes:
  "enc_last_word a b c d k =
   word_of (S (GETBYTE a 3)) (S (GETBYTE b 2)) (S (GETBYTE c 1)) (S (GETBYTE d 0)) XOR k"
  by (simp add: enc_last_word_def te_def Te_nth xor.assoc [symmetric] del: One_nat_def)

lemma dec_last_word_bytes:
  "dec_last_word a b c d k =
   word_of (Si (GETBYTE a 3)) (Si (GETBYTE b 2)) (Si (GETBYTE c 1)) (Si (GETBYTE d 0)) XOR k"
  by (simp add: dec_last_word_def td_def Td_nth xor.assoc [symmetric] del: One_nat_def)

lemma inv_mix_key_bytes:
  "inv_mix_key w = inv_mix_column (GETBYTE w 3) XOR rotr8 (inv_mix_column (GETBYTE w 2))
    XOR rotr8 (rotr8 (inv_mix_column (GETBYTE w 1)))
    XOR rotr8 (rotr8 (rotr8 (inv_mix_column (GETBYTE w 0))))"
  by (simp add: inv_mix_key_def te_def Te_nth Td_nth del: One_nat_def)

lemma dec_word_bytes:
  "dec_word a b c d k =
   inv_mix_key (word_of (Si (GETBYTE a 3)) (Si (GETBYTE b 2)) (Si (GETBYTE c 1)) (Si (GETBYTE d 0))) XOR k"
  by (simp add: dec_word_def td_def Td_nth inv_mix_key_bytes xor.assoc del: One_nat_def)

lemma GETBYTE_xor [simp]: "GETBYTE (v XOR w) y = GETBYTE v y XOR GETBYTE w y"
  by (rule bit_word_eqI) (simp add: GETBYTE_def bit_simps)

lemma inv_mix_column_word:
  "inv_mix_column b = word_of (xtime (xtime (xtime b)) XOR xtime (xtime b) XOR xtime b)
     (xtime (xtime (xtime b)) XOR b) (xtime (xtime (xtime b)) XOR xtime (xtime b) XOR b)
     (xtime (xtime (xtime b)) XOR xtime b XOR b)"
  by (simp add: inv_mix_column_def inv_mix_word_def)

lemma inv_mix_column_xor: "inv_mix_column (a XOR b) = inv_mix_column a XOR inv_mix_column b"
  by (simp add: inv_mix_column_word xor.assoc xor.commute xor.left_commute)

lemma rotr8_bytes: "rotr8 w = word_of (GETBYTE w 0) (GETBYTE w 3) (GETBYTE w 2) (GETBYTE w 1)"
  by (subst word_of_GETBYTE [of w, symmetric]) (simp only: rotr8_word_of)

lemma rotr8_xor: "rotr8 (v XOR w) = rotr8 v XOR rotr8 w"
  by (simp add: rotr8_bytes)

lemma rotr8_4: "rotr8 (rotr8 (rotr8 (rotr8 w))) = w"
  by (simp add: rotr8_bytes [of w] word_of_GETBYTE del: One_nat_def)

lemma inv_mix_key_xor: "inv_mix_key (v XOR w) = inv_mix_key v XOR inv_mix_key w"
  by (simp add: inv_mix_key_bytes inv_mix_column_xor rotr8_xor xor.assoc xor.commute xor.left_commute
      del: One_nat_def)

lemma xor_self_left: "(a :: 'a :: len word) XOR (a XOR b) = b"
  by (simp add: xor.assoc [symmetric])

lemma inv_mix_key_enc_word:
  "inv_mix_key (enc_word a b c d k) =
   word_of (S (GETBYTE a 3)) (S (GETBYTE b 2)) (S (GETBYTE c 1)) (S (GETBYTE d 0)) XOR inv_mix_key k"
proof -
  have "inv_mix_key (mix_column x) = word_of x 0 0 0" for x
    by (simp add: inv_mix_key_bytes mix_column_def inv_mix_column_word
        xor_self_left xor.assoc xor.commute xor.left_commute)
  moreover have "inv_mix_key (rotr8 w) = rotr8 (inv_mix_key w)" for w
    by (simp add: inv_mix_key_bytes rotr8_bytes [of w] rotr8_xor rotr8_4 xor.assoc xor.commute
        xor.left_commute del: One_nat_def)
  ultimately show ?thesis
    by (simp add: enc_word_def te_def Te_nth inv_mix_key_xor xor.assoc [symmetric] del: One_nat_def)
qed

section \<open>The decryption key schedule\<close>

lemma block_index: "c < 4 \<Longrightarrow> c' < 4 \<Longrightarrow> (4 * m + c = 4 * n + c') = (m = (n :: nat) \<and> c = c')"
  by presburger

lemma less_4_cases: "(c :: nat) < 4 \<Longrightarrow> c = 0 \<or> c = 1 \<or> c = 2 \<or> c = 3"
  by linarith

lemma length_swaps [simp]: "length (fold (\<lambda>c. swap_words (i + c) (j + c)) cs rk) = length rk"
  by (induction cs arbitrary: rk) (simp_all add: swap_words_def)

lemma in_block: "c < 4 \<Longrightarrow> (4 * m + c \<in> (+) (4 * a) ` set [0, 1, 2, 3]) = (m = (a :: nat))"
proof -
  assume c: "c < 4"
  have "4 * m + c = 4 * a + x \<longleftrightarrow> m = a \<and> c = x" if "x < 4" for x
    using block_index [OF c that] .
  then show ?thesis using less_4_cases [OF c] by (auto simp: image_iff)
qed

lemma fold_swap_nth:
  "distinct cs \<Longrightarrow> \<forall>c\<in>set cs. i + c < length rk \<and> j + c < length rk \<Longrightarrow>
   \<forall>x\<in>set cs. \<forall>y\<in>set cs. i + x \<noteq> j + y \<Longrightarrow>
   (\<forall>x\<in>set cs. fold (\<lambda>c. swap_words (i + c) (j + c)) cs rk ! (i + x) = rk ! (j + x)
      \<and> fold (\<lambda>c. swap_words (i + c) (j + c)) cs rk ! (j + x) = rk ! (i + x))
   \<and> (\<forall>k. (\<forall>x\<in>set cs. k \<noteq> i + x \<and> k \<noteq> j + x) \<longrightarrow>
        fold (\<lambda>c. swap_words (i + c) (j + c)) cs rk ! k = rk ! k)"
proof (induction cs arbitrary: rk)
  case (Cons c cs)
  let ?rk = "swap_words (i + c) (j + c) rk"
  have l: "length ?rk = length rk" by (simp add: swap_words_def)
  have r: "?rk ! n = (if n = j + c then rk ! (i + c) else if n = i + c then rk ! (j + c) else rk ! n)" for n
    using Cons.prems(2) by (simp add: swap_words_def nth_list_update)
  let ?f = "\<lambda>k. fold (\<lambda>c. swap_words (i + c) (j + c)) cs ?rk ! k"
  have dj: "\<forall>x\<in>set cs. j + x \<noteq> i + c \<and> i + x \<noteq> j + c \<and> x \<noteq> c" "i + c \<noteq> j + c"
    using Cons.prems(1,3) by fastforce+
  have sub: "(\<forall>x\<in>set cs. ?f (i + x) = ?rk ! (j + x) \<and> ?f (j + x) = ?rk ! (i + x))
      \<and> (\<forall>k. (\<forall>x\<in>set cs. k \<noteq> i + x \<and> k \<noteq> j + x) \<longrightarrow> ?f k = ?rk ! k)"
    by (rule Cons.IH) (use Cons.prems l in auto)
  have "?f (i + c) = rk ! (j + c)" "?f (j + c) = rk ! (i + c)"
    using sub [THEN conjunct2, THEN spec, of "i + c"] sub [THEN conjunct2, THEN spec, of "j + c"]
      dj by (force simp: r)+
  then show ?case using sub dj by (simp add: r)
qed simp

lemma fold_update_nth:
  "distinct cs \<Longrightarrow> \<forall>c\<in>set cs. i + c < length rk \<Longrightarrow>
   fold (\<lambda>c rk. rk[i + c := f (rk ! (i + c))]) cs rk ! k =
     (if k \<in> (+) i ` set cs then f (rk ! k) else rk ! k)"
  by (induction cs arbitrary: rk) (auto simp: nth_list_update)

lemma swap_blocks_nth:
  assumes "a < b" "4 * b + 4 \<le> length rk" "c < 4"
  shows "fold (\<lambda>c. swap_words (4 * a + c) (4 * b + c)) [0, 1, 2, 3] rk ! (4 * m + c) =
    (if m = a then rk ! (4 * b + c) else if m = b then rk ! (4 * a + c) else rk ! (4 * m + c))"
proof -
  have c: "c \<in> set [0, 1, 2, 3]" using less_4_cases [OF assms(3)] by auto
  have ne: "4 * m + c \<noteq> 4 * n + x" if "m \<noteq> n" "x \<in> set [0, 1, 2, 3]" for n x
    using block_index [OF assms(3), of x m n] that by auto
  have "\<forall>x\<in>set [0, 1, 2, 3]. \<forall>y\<in>set [0, 1, 2, 3]. 4 * a + x \<noteq> 4 * b + y"
    "\<forall>c\<in>set [0, 1, 2, 3]. 4 * a + c < length rk \<and> 4 * b + c < length rk" "distinct [0, 1, 2, 3 :: nat]"
    using assms(1,2) by auto
  note sw = fold_swap_nth [OF this(3,2,1)]
  show ?thesis
    using sw [THEN conjunct1, THEN bspec, OF c] sw [THEN conjunct2, THEN spec, of "4 * m + c"] ne [of a] ne [of b]
    by (auto simp del: fold_simps list.set)
qed

lemma invert_keys_nth:
  "4 * b + 4 \<le> length rk \<Longrightarrow> c < 4 \<Longrightarrow>
   invert_keys (4 * a) (4 * b) rk ! (4 * m + c) =
     (if a \<le> m \<and> m \<le> b then rk ! (4 * (a + b - m) + c) else rk ! (4 * m + c))
   \<and> length (invert_keys (4 * a) (4 * b) rk) = length rk"
proof (induction "b - a" arbitrary: a b rk m rule: less_induct)
  case less
  show ?case
  proof (cases "a < b")
    case False
    then have "a \<le> m \<and> m \<le> b \<Longrightarrow> a + b - m = m" by linarith
    then show ?thesis using False by (subst (1 2) invert_keys.simps) auto
  next
    case True
    let ?rk = "fold (\<lambda>c. swap_words (4 * a + c) (4 * b + c)) [0, 1, 2, 3] rk"
    have u: "invert_keys (4 * a) (4 * b) rk = invert_keys (4 * (a + 1)) (4 * (b - 1)) ?rk"
      using True by (subst invert_keys.simps) (simp add: algebra_simps)
    have IH: "invert_keys (4 * (a + 1)) (4 * (b - 1)) ?rk ! (4 * m + c) =
        (if a + 1 \<le> m \<and> m \<le> b - 1 then ?rk ! (4 * (a + 1 + (b - 1) - m) + c) else ?rk ! (4 * m + c))
      \<and> length (invert_keys (4 * (a + 1)) (4 * (b - 1)) ?rk) = length ?rk"
      by (rule less.hyps) (use True less.prems in \<open>simp_all add: swap_words_def\<close>)
    have sw: "?rk ! (4 * n + c) =
      (if n = a then rk ! (4 * b + c) else if n = b then rk ! (4 * a + c) else rk ! (4 * n + c))" for n
      by (rule swap_blocks_nth [OF True less.prems])
    show ?thesis unfolding u IH [THEN conjunct1] IH [THEN conjunct2] sw
      using True by (auto simp: swap_words_def)
  qed
qed

lemma inv_mix_round_nth:
  assumes "4 * i + 4 \<le> length rk" "c < 4"
  shows "inv_mix_round i rk ! (4 * m + c) = (if m = i then inv_mix_key (rk ! (4 * m + c)) else rk ! (4 * m + c))"
  unfolding inv_mix_round_def using assms(1) in_block [OF assms(2), of m i]
  by (subst fold_update_nth) auto

lemma length_inv_mix_round [simp]: "length (inv_mix_round i rk) = length rk"
  by (simp add: inv_mix_round_def)

lemma length_inv_mix_rounds [simp]: "length (fold inv_mix_round is rk) = length rk"
  by (induction "is" arbitrary: rk) simp_all

lemma inv_mix_rounds_nth:
  "4 * n \<le> length rk \<Longrightarrow> c < 4 \<Longrightarrow> 1 \<le> n \<Longrightarrow>
   fold inv_mix_round [1..<n] rk ! (4 * m + c) =
     (if 1 \<le> m \<and> m < n then inv_mix_key (rk ! (4 * m + c)) else rk ! (4 * m + c))"
proof (induction n arbitrary: m)
  case (Suc n)
  show ?case
  proof (cases "n = 0")
    case False
    then have "[1..<Suc n] = [1..<n] @ [n]" by simp
    then show ?thesis
      using Suc False by (auto simp: inv_mix_round_nth less_Suc_eq)
  qed auto
qed simp

lemma decryption_keys:
  assumes "4 * nr + 4 \<le> length rk" "c < 4" "1 \<le> nr" "m \<le> nr"
  shows "fold inv_mix_round [1..<nr] (invert_keys 0 (4 * nr) rk) ! (4 * m + c) =
    (if m = 0 \<or> m = nr then rk ! (4 * (nr - m) + c) else inv_mix_key (rk ! (4 * (nr - m) + c)))"
proof -
  have i: "invert_keys 0 (4 * nr) rk ! (4 * m + c) = rk ! (4 * (nr - m) + c)"
    "length (invert_keys 0 (4 * nr) rk) = length rk"
    using invert_keys_nth [OF assms(1,2), of 0 m] assms(4) by simp_all
  show ?thesis
    using inv_mix_rounds_nth [of nr "invert_keys 0 (4 * nr) rk" c m] assms i by auto
qed

section \<open>Decryption undoes encryption, round by round\<close>

definition xor_state :: "state4 \<Rightarrow> state4 \<Rightarrow> state4" where
  "xor_state = (\<lambda>(a, b, c, d) (a', b', c', d'). (a XOR a', b XOR b', c XOR c', d XOR d'))"

definition round_key :: "u32 list \<Rightarrow> nat \<Rightarrow> state4" where
  "round_key rk p = (rk ! p, rk ! (p + 1), rk ! (p + 2), rk ! (p + 3))"

definition inv_mix_state :: "state4 \<Rightarrow> state4" where
  "inv_mix_state = (\<lambda>(a, b, c, d). (inv_mix_key a, inv_mix_key b, inv_mix_key c, inv_mix_key d))"

definition sub_shift_word :: "u32 \<Rightarrow> u32 \<Rightarrow> u32 \<Rightarrow> u32 \<Rightarrow> u32" where
  "sub_shift_word a b c d = word_of (S (GETBYTE a 3)) (S (GETBYTE b 2)) (S (GETBYTE c 1)) (S (GETBYTE d 0))"

definition sub_shift :: "state4 \<Rightarrow> state4" where
  "sub_shift = (\<lambda>(a, b, c, d). (sub_shift_word a b c d, sub_shift_word b c d a,
     sub_shift_word c d a b, sub_shift_word d a b c))"

lemma enc_last_state: "enc_last rk p s = xor_state (sub_shift s) (round_key rk p)"
  by (cases s) (simp add: enc_last_def xor_state_def sub_shift_def round_key_def enc_last_word_bytes
      sub_shift_word_def)

lemma inv_mix_enc_round:
  "inv_mix_state (enc_round rk p s) = xor_state (sub_shift s) (inv_mix_state (round_key rk p))"
  by (cases s) (simp add: enc_round_def xor_state_def sub_shift_def round_key_def inv_mix_state_def
      inv_mix_key_enc_word sub_shift_word_def)

lemma dec_round_sub_shift: "dec_round dk p (sub_shift s) = xor_state (inv_mix_state s) (round_key dk p)"
  by (cases s) (simp add: dec_round_def xor_state_def sub_shift_def round_key_def inv_mix_state_def
      dec_word_bytes sub_shift_word_def word_of_GETBYTE del: One_nat_def)

lemma dec_last_sub_shift: "dec_last dk p (sub_shift s) = xor_state s (round_key dk p)"
  by (cases s) (simp add: dec_last_def xor_state_def sub_shift_def round_key_def dec_last_word_bytes
      sub_shift_word_def word_of_GETBYTE del: One_nat_def)

lemma xor_state_twice [simp]: "xor_state (xor_state s k) k = s"
  by (cases s; cases k) (simp add: xor_state_def xor.assoc)

lemma inv_mix_xor_state: "inv_mix_state (xor_state s k) = xor_state (inv_mix_state s) (inv_mix_state k)"
  by (cases s; cases k) (simp add: xor_state_def inv_mix_state_def inv_mix_key_xor)

primrec enc_state :: "u32 list \<Rightarrow> state4 \<Rightarrow> nat \<Rightarrow> state4" where
  "enc_state rk s 0 = s"
| "enc_state rk s (Suc n) = enc_round rk (4 * Suc n) (enc_state rk s n)"

primrec dec_state :: "u32 list \<Rightarrow> state4 \<Rightarrow> nat \<Rightarrow> state4" where
  "dec_state rk s 0 = s"
| "dec_state rk s (Suc n) = dec_round rk (4 * Suc n) (dec_state rk s n)"

lemma enc_rounds_state:
  "1 \<le> r \<Longrightarrow> enc_rounds rk (4 * m) r (enc_state rk s m)
    = (enc_state rk s (m + 2 * r - 1), 4 * (m + 2 * r))"
proof (induction r arbitrary: m)
  case (Suc r)
  show ?case
  proof (cases "r = 0")
    case True
    then show ?thesis by (subst enc_rounds.simps) (simp add: algebra_simps)
  next
    case False
    have "enc_rounds rk (4 * m) (Suc r) (enc_state rk s m)
        = enc_rounds rk (4 * (m + 2)) r (enc_state rk s (m + 2))"
      using False by (subst enc_rounds.simps) (simp add: Let_def algebra_simps numeral_2_eq_2)
    then show ?thesis using Suc.IH [of "m + 2"] False by simp
  qed
qed simp

lemma dec_rounds_state:
  "1 \<le> r \<Longrightarrow> dec_rounds rk (4 * m) r (dec_state rk s m)
    = (dec_state rk s (m + 2 * r - 1), 4 * (m + 2 * r))"
proof (induction r arbitrary: m)
  case (Suc r)
  show ?case
  proof (cases "r = 0")
    case True
    then show ?thesis by (subst dec_rounds.simps) (simp add: algebra_simps)
  next
    case False
    have "dec_rounds rk (4 * m) (Suc r) (dec_state rk s m)
        = dec_rounds rk (4 * (m + 2)) r (dec_state rk s (m + 2))"
      using False by (subst dec_rounds.simps) (simp add: Let_def algebra_simps numeral_2_eq_2)
    then show ?thesis using Suc.IH [of "m + 2"] False by simp
  qed
qed simp

definition inverse_keys :: "nat \<Rightarrow> u32 list \<Rightarrow> u32 list \<Rightarrow> bool" where
  "inverse_keys nr rk dk \<longleftrightarrow> (\<forall>m \<le> nr. round_key dk (4 * m) =
     (if m = 0 \<or> m = nr then round_key rk (4 * (nr - m)) else inv_mix_state (round_key rk (4 * (nr - m)))))"

lemma dec_state_enc_state:
  assumes k: "inverse_keys nr rk dk"
  shows "n < nr \<Longrightarrow> dec_state dk (sub_shift (enc_state rk s (nr - 1))) n = sub_shift (enc_state rk s (nr - 1 - n))"
proof (induction n)
  case (Suc n)
  define j where "j = nr - 1 - Suc n"
  have j: "nr - 1 - n = Suc j" "nr - Suc n = Suc j" "nr - Suc (Suc n) = j" using Suc.prems by (auto simp: j_def)
  have "round_key dk (4 * Suc n) = inv_mix_state (round_key rk (4 * Suc j))"
    using k Suc.prems j unfolding inverse_keys_def by (auto dest!: spec [of _ "Suc n"])
  then show ?case
    using Suc j by (simp add: dec_round_sub_shift inv_mix_enc_round flip: j_def)
qed simp

section \<open>Blocks, keys and chaining\<close>

lemma le32_of_le32: "length bs = 4 \<Longrightarrow> le32 (of_le32 bs) = bs"
proof -
  assume "length bs = 4"
  then obtain a b c d where bs: "bs = [a, b, c, d]" by (auto simp: numeral_eq_Suc length_Suc_conv)
  have "of_le32 bs = word_of d c b a" by (simp add: bs word_of_def or.commute or.left_commute)
  then have "le32 (of_le32 bs) = [GETBYTE (word_of d c b a) 0, GETBYTE (word_of d c b a) 1,
     GETBYTE (word_of d c b a) 2, GETBYTE (word_of d c b a) 3]"
    by (simp add: le32_def GETBYTE_def)
  then show ?thesis by (simp add: bs)
qed

lemma ByteReverse_word_of: "ByteReverseWord32 (word_of a b c d) = word_of d c b a"
proof (rule bit_word_eqI)
  fix n assume n: "n < LENGTH(32)"
  have m: "(0xFF00FF00 :: u32) = word_of 0xFF 0 0xFF 0" "(0x00FF00FF :: u32) = word_of 0 0xFF 0 0xFF"
    by (simp_all add: word_of_def)
  consider "n < 8" | "8 \<le> n" "n < 16" | "16 \<le> n" "n < 24" | "24 \<le> n" "n < 32" using n by force
  then show "bit (ByteReverseWord32 (word_of a b c d)) n = bit (word_of d c b a) n"
    unfolding ByteReverseWord32_def m word_of_and_word_of and_FF and_zero_eq
    by cases (auto simp: rotlFixed_def bit_simps bit_word_of dest: bit_u8_high)
qed

lemma ByteReverse_twice [simp]: "ByteReverseWord32 (ByteReverseWord32 w) = w"
proof -
  obtain a b c d where "w = word_of a b c d" using word_of_GETBYTE by metis
  then show ?thesis by (simp add: ByteReverse_word_of)
qed

lemma store_words:
  "store_state (a, b, c, d) = le32 (ByteReverseWord32 a) @ le32 (ByteReverseWord32 b)
     @ le32 (ByteReverseWord32 c) @ le32 (ByteReverseWord32 d)"
  by (simp add: store_state_def)

lemma load_word_append:
  "length a = 4 \<Longrightarrow> length b = 4 \<Longrightarrow> length c = 4 \<Longrightarrow> length d = 4 \<Longrightarrow>
   load_word (a @ b @ c @ d) 0 = of_le32 a \<and> load_word (a @ b @ c @ d) 1 = of_le32 b
   \<and> load_word (a @ b @ c @ d) 2 = of_le32 c \<and> load_word (a @ b @ c @ d) 3 = of_le32 d"
  by (simp add: load_word_def)

lemma length_store_state [simp]: "length (store_state s) = 16"
  by (cases s) (simp add: store_words)

lemma load_store_state: "load_state (store_state s) rk = xor_state s (round_key rk 0)"
proof (cases s)
  case (fields a b c d)
  show ?thesis unfolding fields store_words load_state_def
    by (simp add: load_word_append [simplified numeral_2_eq_2 numeral_3_eq_3 One_nat_def]
        xor_state_def round_key_def numeral_2_eq_2 numeral_3_eq_3)
qed

lemma store_load_state:
  assumes "length b = 16"
  shows "store_state (xor_state (load_state b rk) (round_key rk 0)) = b"
proof -
  let ?w = "\<lambda>i. take 4 (drop (4 * i) b)"
  have len: "length (?w 0) = 4" "length (?w 1) = 4" "length (?w 2) = 4" "length (?w 3) = 4"
    using assms by simp_all
  have b: "b = ?w 0 @ ?w 1 @ ?w 2 @ ?w 3"
  proof -
    have "b = take 4 b @ take 4 (drop 4 b) @ take 4 (drop 4 (drop 4 b)) @ drop 4 (drop 4 (drop 4 b))"
      by (simp only: append_take_drop_id)
    then show ?thesis using assms by simp
  qed
  have "store_state (xor_state (load_state b rk) (round_key rk 0)) = le32 (of_le32 (?w 0))
      @ le32 (of_le32 (?w 1)) @ le32 (of_le32 (?w 2)) @ le32 (of_le32 (?w 3))"
    by (simp add: load_state_def load_word_def xor_state_def round_key_def store_words xor.assoc
        numeral_2_eq_2)
  also have "\<dots> = b" unfolding le32_of_le32 [OF len(1)] le32_of_le32 [OF len(2)]
      le32_of_le32 [OF len(3)] le32_of_le32 [OF len(4)] using b by simp
  finally show ?thesis .
qed

lemma xor_state_commute: "xor_state s k = xor_state k s"
  by (cases s; cases k) (simp add: xor_state_def xor.commute)

text \<open>The two schedules of the same key, with the same number of rounds, undo each other.\<close>

lemma AesDecrypt_AesEncrypt:
  assumes k: "inverse_keys (2 * r) (aes_key e) (aes_key d)" and r: "1 \<le> r" "r \<le> 7"
    and rounds: "unat (drop_bit 1 (rounds e)) = r" "unat (drop_bit 1 (rounds d)) = r"
    and len: "length b = 16"
  shows "AesDecrypt d (AesEncrypt e b x) y = b"
proof -
  let ?s = "load_state b (aes_key e)"
  let ?e = "enc_state (aes_key e) ?s (2 * r - 1)"
  have enc: "AesEncrypt e b x = store_state (xor_state (sub_shift ?e) (round_key (aes_key e) (8 * r)))"
    using enc_rounds_state [OF r(1), of "aes_key e" 0 ?s] r rounds
    by (simp add: AesEncrypt_def Let_def enc_last_state)
  have k0: "round_key (aes_key d) 0 = round_key (aes_key e) (8 * r)"
    "round_key (aes_key d) (8 * r) = round_key (aes_key e) 0"
    using k [unfolded inverse_keys_def, THEN spec, of 0] k [unfolded inverse_keys_def, THEN spec, of "2 * r"]
    by simp_all
  have "load_state (AesEncrypt e b x) (aes_key d) = sub_shift ?e"
    unfolding enc load_store_state k0 by simp
  moreover have "dec_state (aes_key d) (sub_shift ?e) (2 * r - 1) = sub_shift ?s"
    using dec_state_enc_state [OF k, of "2 * r - 1" ?s] r by simp
  ultimately have "AesDecrypt d (AesEncrypt e b x) y
      = store_state (dec_last (aes_key d) (8 * r) (sub_shift ?s))"
    using dec_rounds_state [OF r(1), of "aes_key d" 0 "sub_shift ?e"] r rounds
    by (simp add: AesDecrypt_def Let_def)
  then show ?thesis
    using store_load_state [OF len] by (simp add: dec_last_sub_shift k0)
qed

lemma length_AesEncrypt: "1 \<le> unat (drop_bit 1 (rounds e)) \<Longrightarrow> unat (drop_bit 1 (rounds e)) \<le> 7 \<Longrightarrow>
    length (AesEncrypt e b x) = 16"
  by (simp add: AesEncrypt_def Let_def split: prod.split)

lemma length_chain [simp]: "length (fold (chain_key d) ns rk) = length rk"
  by (induction ns arbitrary: rk) (simp_all add: chain_key_def)

lemma length_expand_all [simp]:
  "length (fold expand_128 is rk) = length rk" "length (fold expand_192 is rk) = length rk"
  "length (fold expand_256 is rk) = length rk"
  by (induction "is" arbitrary: rk)
    (simp_all add: expand_128_def expand_192_def expand_256_def chain_key_def Let_def)

definition expanded_key :: "aes \<Rightarrow> u8 list \<Rightarrow> nat \<Rightarrow> u32 list" where
  "expanded_key a userKey keylen = aes_key (snd (AesSetKey a userKey keylen None AES_ENCRYPTION))"

lemma AesSetIV_simps [simp]: "aes_key (AesSetIV a iv) = aes_key a" "rounds (AesSetIV a iv) = rounds a"
  "aes_reg (AesSetIV a (Some v)) = take 16 v"
  by (simp_all add: AesSetIV_def split: option.split)

lemma AesSetKey_fields:
  assumes "keylen = 16 \<or> keylen = 24 \<or> keylen = 32"
  shows "aes_key (snd (AesSetKey a k keylen iv AES_ENCRYPTION)) = expanded_key a k keylen"
    "aes_key (snd (AesSetKey a k keylen iv AES_DECRYPTION)) =
       fold inv_mix_round [1..<keylen div 4 + 6] (invert_keys 0 (4 * (keylen div 4 + 6)) (expanded_key a k keylen))"
    "unat (drop_bit 1 (rounds (snd (AesSetKey a k keylen iv dir)))) = keylen div 8 + 3"
    "aes_reg (snd (AesSetKey a k keylen (Some v) dir)) = take 16 v"
    "fst (AesSetKey a k keylen iv dir) = 0"
  using assms by (auto simp: AesSetKey_def AesSetKeyLocal_def expanded_key_def Let_def)

lemma length_expanded_key:
  "length (aes_key a) = 60 \<Longrightarrow> keylen = 16 \<or> keylen = 24 \<or> keylen = 32 \<Longrightarrow>
    length (expanded_key a k keylen) = 60"
  by (auto simp: expanded_key_def AesSetKey_def AesSetKeyLocal_def Let_def ByteReverseWords_def)

lemma AesSetKey_inverse:
  assumes "length (aes_key a) = 60" "keylen = 16 \<or> keylen = 24 \<or> keylen = 32"
  shows "inverse_keys (keylen div 4 + 6) (aes_key (snd (AesSetKey a k keylen iv AES_ENCRYPTION)))
     (aes_key (snd (AesSetKey a k keylen iv' AES_DECRYPTION)))"
proof -
  let ?nr = "keylen div 4 + 6" and ?rk = "expanded_key a k keylen"
  have l: "4 * ?nr + 4 \<le> length ?rk" using length_expanded_key [OF assms] assms(2) by auto
  have 1: "1 \<le> ?nr" by simp
  note d = decryption_keys [OF l _ 1]
  show ?thesis
    unfolding inverse_keys_def AesSetKey_fields [OF assms(2)] round_key_def
    using d [of 0] d [of 1] d [of 2] d [of 3] by (auto simp: inv_mix_state_def)
qed

lemma AesSetKey_round_trip:
  assumes "length (aes_key a) = 60" "keylen = 16 \<or> keylen = 24 \<or> keylen = 32" "length b = 16"
    "e = snd (AesSetKey a k keylen iv AES_ENCRYPTION)" "d = snd (AesSetKey a k keylen iv' AES_DECRYPTION)"
  shows "AesDecrypt d (AesEncrypt e b x) y = b" "length (AesEncrypt e b x) = 16"
proof -
  have r: "2 * (keylen div 8 + 3) = keylen div 4 + 6" using assms(2) by auto
  have b: "1 \<le> keylen div 8 + 3" "keylen div 8 + 3 \<le> 7" using assms(2) by auto
  show "AesDecrypt d (AesEncrypt e b x) y = b"
    by (rule AesDecrypt_AesEncrypt [where r = "keylen div 8 + 3"])
      (use assms b AesSetKey_inverse [OF assms(1,2)] AesSetKey_fields(3) [OF assms(2)] r in simp_all)
  show "length (AesEncrypt e b x) = 16"
    by (rule length_AesEncrypt) (use assms(4) b AesSetKey_fields(3) [OF assms(2)] in simp_all)
qed

section \<open>Block ciphers and their chaining\<close>

text \<open>
  What chaining needs of a cipher: it maps blocks to blocks, and decryption undoes it.
  \<open>cbc_enc\<close> and \<open>cbc_dec\<close> chain any pair of functions.
\<close>

primrec cbc_enc :: "(u8 list \<Rightarrow> u8 list) \<Rightarrow> nat \<Rightarrow> u8 list \<Rightarrow> u8 list \<Rightarrow> u8 list" where
  "cbc_enc f 0 iv buf = []"
| "cbc_enc f (Suc n) iv buf =
     (let c = f (map2 (XOR) iv (take 16 buf)) in c @ cbc_enc f n c (drop 16 buf))"

primrec cbc_dec :: "(u8 list \<Rightarrow> u8 list) \<Rightarrow> nat \<Rightarrow> u8 list \<Rightarrow> u8 list \<Rightarrow> u8 list" where
  "cbc_dec g 0 iv buf = []"
| "cbc_dec g (Suc n) iv buf =
     map2 (XOR) (g (take 16 buf)) iv @ cbc_dec g n (take 16 buf) (drop 16 buf)"

lemma map2_xor_cancel:
  "length a = length b \<Longrightarrow> map2 (XOR) (map2 (XOR) a b) a = (b :: u8 list)"
  by (induction a b rule: list_induct2) (simp_all add: xor.commute xor.left_commute)

locale block_cipher =
  fixes enc dec :: "u8 list \<Rightarrow> u8 list"
  assumes enc_length: "length b = 16 \<Longrightarrow> length (enc b) = 16"
    and dec_enc: "length b = 16 \<Longrightarrow> dec (enc b) = b"
begin

lemma length_cbc_enc:
  "length iv = 16 \<Longrightarrow> length buf = 16 * n \<Longrightarrow> length (cbc_enc enc n iv buf) = 16 * n"
  by (induction n arbitrary: iv buf) (simp_all add: Let_def enc_length)

lemma cbc_dec_enc:
  "length iv = 16 \<Longrightarrow> length buf = 16 * n \<Longrightarrow> cbc_dec dec n iv (cbc_enc enc n iv buf) = buf"
proof (induction n arbitrary: iv buf)
  case (Suc n)
  let ?x = "map2 (XOR) iv (take 16 buf)"
  have x: "length ?x = 16" "length (take 16 buf) = 16" using Suc.prems by simp_all
  have "map2 (XOR) (dec (enc ?x)) iv = take 16 buf"
    using dec_enc [OF x(1)] map2_xor_cancel [of iv "take 16 buf"] x(2) Suc.prems(1) by simp
  moreover have "cbc_dec dec n (enc ?x) (cbc_enc enc n (enc ?x) (drop 16 buf)) = drop 16 buf"
    by (rule Suc.IH) (use enc_length [OF x(1)] Suc.prems in simp_all)
  ultimately show ?case using enc_length [OF x(1)] by (simp add: Let_def)
qed simp

end

text \<open>A cipher state as it is on the stack before the first \<open>AesSetKey\<close>.\<close>

definition fresh_aes :: aes where
  "fresh_aes = \<lparr>aes_key = replicate 60 0, rounds = 0, aes_reg = replicate 16 0\<rparr>"

interpretation aes128: block_cipher
  "\<lambda>b. AesEncrypt (snd (AesSetKey fresh_aes k 16 (Some iv) AES_ENCRYPTION)) b []"
  "\<lambda>b. AesDecrypt (snd (AesSetKey fresh_aes k 16 (Some iv) AES_DECRYPTION)) b []" for k iv
  by unfold_locales
    (rule AesSetKey_round_trip [OF _ _ _ refl refl]; simp add: fresh_aes_def)+

text \<open>The loops of the code are the chaining of the block function with their register.\<close>

lemma AesEncrypt_reg [simp]: "AesEncrypt (a\<lparr>aes_reg := r\<rparr>) b x = AesEncrypt a b x"
  by (simp add: AesEncrypt_def)

lemma AesDecrypt_reg [simp]: "AesDecrypt (a\<lparr>aes_reg := r\<rparr>) b x = AesDecrypt a b x"
  by (simp add: AesDecrypt_def)

lemma AesEncrypt_out:
  "unat (drop_bit 1 (rounds a)) \<in> {1..7} \<Longrightarrow> AesEncrypt a b x = AesEncrypt a b y"
  by (auto simp: AesEncrypt_def Let_def)

lemma AesDecrypt_out:
  "unat (drop_bit 1 (rounds a)) \<in> {1..7} \<Longrightarrow> AesDecrypt a b x = AesDecrypt a b y"
  by (auto simp: AesDecrypt_def Let_def)

lemma xorbuf_whole: "length a = 16 \<Longrightarrow> xorbuf a b 16 = map2 (XOR) a (take 16 b)"
  by (simp add: xorbuf_def)

lemma cbc_encrypt_blocks_cbc:
  "unat (drop_bit 1 (rounds a)) \<in> {1..7} \<Longrightarrow> length (aes_reg a) = 16 \<Longrightarrow> length buf = 16 * n \<Longrightarrow>
   fst (cbc_encrypt_blocks n a buf) = cbc_enc (\<lambda>b. AesEncrypt a b []) n (aes_reg a) buf"
proof (induction n arbitrary: a buf)
  case (Suc n)
  let ?x = "map2 (XOR) (aes_reg a) (take 16 buf)"
  let ?a = "a\<lparr>aes_reg := AesEncrypt a ?x []\<rparr>"
  have l: "length (AesEncrypt a ?x []) = 16" using Suc.prems(1) by (intro length_AesEncrypt) auto
  have o: "AesEncrypt a b x = AesEncrypt a b []" for b x using AesEncrypt_out [OF Suc.prems(1)] .
  have IH: "fst (cbc_encrypt_blocks n ?a (drop 16 buf))
      = cbc_enc (\<lambda>b. AesEncrypt a b []) n (AesEncrypt a ?x []) (drop 16 buf)"
    using Suc.IH [of ?a "drop 16 buf"] Suc.prems l by simp
  show ?case
    unfolding cbc_encrypt_blocks.simps Let_def xorbuf_whole [OF Suc.prems(2)] o [of ?x ?x]
    using IH by (simp add: Let_def case_prod_unfold)
qed simp

lemma cbc_decrypt_blocks_cbc:
  "unat (drop_bit 1 (rounds a)) \<in> {1..7} \<Longrightarrow> length (aes_reg a) = 16 \<Longrightarrow> length buf = 16 * n \<Longrightarrow>
   fst (cbc_decrypt_blocks n a out buf) = cbc_dec (\<lambda>b. AesDecrypt a b []) n (aes_reg a) buf"
proof (induction n arbitrary: a out buf)
  case (Suc n)
  let ?c = "take 16 buf"
  let ?a = "a\<lparr>aes_reg := ?c\<rparr>"
  have o: "AesDecrypt a b x = AesDecrypt a b []" for b x using AesDecrypt_out [OF Suc.prems(1)] .
  have l: "length (AesDecrypt a ?c []) = 16"
    using Suc.prems(1) by (auto simp: AesDecrypt_def Let_def split: prod.split)
  have IH: "fst (cbc_decrypt_blocks n ?a (drop 16 out) (drop 16 buf))
      = cbc_dec (\<lambda>b. AesDecrypt a b []) n ?c (drop 16 buf)"
    using Suc.IH [of ?a "drop 16 buf" "drop 16 out"] Suc.prems by simp
  show ?case
    unfolding cbc_decrypt_blocks.simps Let_def o [of ?c "take 16 out"] xorbuf_whole [OF l]
    using IH Suc.prems(2) by (simp add: Let_def case_prod_unfold)
qed simp

lemma cbc_round_trip:
  assumes "length k = 16" "length buf = 16 * n"
    "e = snd (AesSetKey fresh_aes k 16 (Some k) AES_ENCRYPTION)"
    "d = snd (AesSetKey fresh_aes k 16 (Some k) AES_DECRYPTION)"
  shows "fst (AesCbcDecrypt d out (fst (AesCbcEncrypt e buf (16 * n))) (16 * n)) = buf"
    "length (fst (AesCbcEncrypt e buf (16 * n))) = 16 * n"
proof -
  have r: "unat (drop_bit 1 (rounds e)) \<in> {1..7}" "unat (drop_bit 1 (rounds d)) \<in> {1..7}"
    "aes_reg e = k" "aes_reg d = k" "length (aes_reg e) = 16" "length (aes_reg d) = 16"
    using assms(1) by (simp_all add: assms(3,4) AesSetKey_fields del: One_nat_def)
  have enc: "fst (AesCbcEncrypt e buf (16 * n)) = cbc_enc (\<lambda>b. AesEncrypt e b []) n k buf"
    using cbc_encrypt_blocks_cbc [OF r(1,5) assms(2)] by (simp add: AesCbcEncrypt_def r(3))
  have len: "length (cbc_enc (\<lambda>b. AesEncrypt e b []) n k buf) = 16 * n"
    unfolding assms(3) by (rule aes128.length_cbc_enc [OF assms(1,2)])
  then show "length (fst (AesCbcEncrypt e buf (16 * n))) = 16 * n" by (simp add: enc)
  have "fst (AesCbcDecrypt d out (fst (AesCbcEncrypt e buf (16 * n))) (16 * n))
      = cbc_dec (\<lambda>b. AesDecrypt d b []) n k (cbc_enc (\<lambda>b. AesEncrypt e b []) n k buf)"
    using cbc_decrypt_blocks_cbc [OF r(2,6) len] by (simp add: AesCbcDecrypt_def enc r(4))
  also have "\<dots> = buf" unfolding assms(3,4) by (rule aes128.cbc_dec_enc [OF assms(1,2)])
  finally show "fst (AesCbcDecrypt d out (fst (AesCbcEncrypt e buf (16 * n))) (16 * n)) = buf" .
qed

section \<open>The reference cipher\<close>

text \<open>
  The cipher of FIPS-197 on states of four columns: \<open>sub_shift\<close> is SubBytes and ShiftRows,
  \<open>mix_columns\<close> multiplies every column with the matrix of the standard (\<open>xtime\<close> doubles a
  byte in the field), \<open>xor_state\<close> adds a round key.
\<close>

definition mix_word :: "u32 \<Rightarrow> u32" where
  "mix_word w = (let b3 = GETBYTE w 3; b2 = GETBYTE w 2; b1 = GETBYTE w 1; b0 = GETBYTE w 0
     in word_of (xtime b3 XOR (xtime b2 XOR b2) XOR b1 XOR b0)
          (b3 XOR xtime b2 XOR (xtime b1 XOR b1) XOR b0)
          (b3 XOR b2 XOR xtime b1 XOR (xtime b0 XOR b0))
          ((xtime b3 XOR b3) XOR b2 XOR b1 XOR xtime b0))"

definition mix_columns :: "state4 \<Rightarrow> state4" where
  "mix_columns = (\<lambda>(a, b, c, d). (mix_word a, mix_word b, mix_word c, mix_word d))"

definition fips_cipher :: "nat \<Rightarrow> u32 list \<Rightarrow> state4 \<Rightarrow> state4" where
  "fips_cipher nr rk s =
     xor_state (sub_shift (fold (\<lambda>m s. xor_state (mix_columns (sub_shift s)) (round_key rk (4 * m)))
                  [1..<nr] (xor_state s (round_key rk 0)))) (round_key rk (4 * nr))"

lemma enc_word_mix: "enc_word a b c d k = mix_word (sub_shift_word a b c d) XOR k"
  by (simp add: enc_word_def te_def Te_nth mix_word_def sub_shift_word_def mix_column_def Let_def
      xor.assoc [symmetric] del: One_nat_def)

lemma enc_round_mix: "enc_round rk p s = xor_state (mix_columns (sub_shift s)) (round_key rk p)"
  by (cases s) (simp add: enc_round_def xor_state_def sub_shift_def round_key_def mix_columns_def enc_word_mix)

lemma enc_state_fold:
  "enc_state rk s n = fold (\<lambda>m s. xor_state (mix_columns (sub_shift s)) (round_key rk (4 * m))) [1..<Suc n] s"
  by (induction n) (simp_all add: enc_round_mix)

definition block_state :: "u8 list \<Rightarrow> state4" where
  "block_state b = (word_of (b ! 0) (b ! 1) (b ! 2) (b ! 3), word_of (b ! 4) (b ! 5) (b ! 6) (b ! 7),
     word_of (b ! 8) (b ! 9) (b ! 10) (b ! 11), word_of (b ! 12) (b ! 13) (b ! 14) (b ! 15))"

lemma load_word_block:
  "4 * i + 3 < length b \<Longrightarrow> ByteReverseWord32 (load_word b i) =
    word_of (b ! (4 * i)) (b ! (4 * i + 1)) (b ! (4 * i + 2)) (b ! (4 * i + 3))"
proof -
  assume l: "4 * i + 3 < length b"
  have "take 4 (drop (4 * i) b) = [b ! (4 * i), b ! (4 * i + 1), b ! (4 * i + 2), b ! (4 * i + 3)]"
    by (rule nth_equalityI) (use l in \<open>auto simp: less_Suc_eq numeral_eq_Suc\<close>)
  moreover have "of_le32 [a, b, c, d] = word_of d c b a" for a b c d
    by (simp add: word_of_def or.commute or.left_commute)
  ultimately show ?thesis by (simp add: load_word_def ByteReverse_word_of)
qed

lemma load_state_block: "length b = 16 \<Longrightarrow> load_state b rk = xor_state (block_state b) (round_key rk 0)"
  unfolding load_state_def block_state_def xor_state_def round_key_def
  by (subst load_word_block, simp)+ (simp add: numeral_2_eq_2)

section \<open>Properties\<close>



text \<open>
  Property C20: for each of the three key sizes, decrypting a block with the decryption schedule
  undoes encrypting it with the encryption schedule of the same key, whatever the two cipher
  structures and the output blocks held before.
\<close>

theorem aes_block_round_trip:
  "length (aes_key a) = 60 \<Longrightarrow> keylen = 16 \<or> keylen = 24 \<or> keylen = 32 \<Longrightarrow> length b = 16 \<Longrightarrow>
   AesDecrypt (snd (AesSetKey a k keylen iv' AES_DECRYPTION))
     (AesEncrypt (snd (AesSetKey a k keylen iv AES_ENCRYPTION)) b x) y = b"
  by (rule AesSetKey_round_trip(1)) auto

theorem aes_block_round_trip_witness:
  "AesDecrypt (snd (AesSetKey fresh_aes (replicate 24 7) 24 None AES_DECRYPTION))
     (AesEncrypt (snd (AesSetKey fresh_aes (replicate 24 7) 24 None AES_ENCRYPTION)) (replicate 16 5) [])
     [] = replicate 16 5"
  by (rule aes_block_round_trip) (simp_all add: fresh_aes_def)

end
