(* ===== verification/Packet.thy ===== *)
theory Packet
  imports Lum_Timer Aes
begin

text \<open>
  Packets on the wire (\<open>itoCommon.c\<close>): an open header of nine bytes (version, flags, MAC,
  length), seven more header bytes and the body, encrypted with AES in CBC mode and padded
  (PKCS 5) when the flag says so.  Buffers are the lists of bytes the allocator returned, and
  the code's pointers into them are offsets, so that what the code writes in front of a pointer
  is seen as well.
\<close>

abbreviation (input) "SOCKET_HEADER_PV \<equiv> 0x01"
abbreviation (input) "SOCKET_HEADER_RESERVED \<equiv> 0x00"
abbreviation (input) "SOCKET_HEADER_DEVICE_TYPE \<equiv> 0xDF"
abbreviation (input) "SOCKET_HEADER_FACTORY_CODE \<equiv> 0xF1"
abbreviation (input) "SOCKET_HEADER_LICENSE_DATA \<equiv> 0xB421"
abbreviation (input) "SOCKET_HEADER_LEN \<equiv> 16"
abbreviation (input) "SOCKET_HEADER_OPEN_DATA_LEN \<equiv> 9"
abbreviation (input) "SOCKET_HEADER_SECRET_DATA_LEN \<equiv> 7"
abbreviation (input) "MSG_CMD_FOUND_DEVICE \<equiv> 0x23"
abbreviation (input) "MSG_CMD_QUARY_MODULE_INFO \<equiv> 0x62"

record create_socket_data =
  bEncrypt :: u8
  createReback :: u8
  createOrigin :: msg_origin
  createSn :: u16
  bodyLen :: u16
  keyType :: aes_key_type
  bodyData :: "u8 list"

section \<open>Keys\<close>

definition getSocketAesKeyType :: "msg_origin \<Rightarrow> u8 \<Rightarrow> device \<Rightarrow> aes_key_type" where
  "getSocketAesKeyType origin encrypt d =
     (let k = keyData (globalData d)
      in if encrypt = 0 then AES_KEY_OPEN
         else case origin of
             MSG_FROM_UDP \<Rightarrow> if localAesKeyValid k then AES_KEY_LOCAL else AES_KEY_DEFAULT
           | MSG_FROM_TCP \<Rightarrow> if serverAesKeyValid k then AES_KEY_SERVER else AES_KEY_DEFAULT
           | MSG_LOCAL_EVENT \<Rightarrow> AES_KEY_OPEN)"

text \<open>\<open>SOCKET_HEADER_FLAG\<close>: \<open>bReback\<close> is bit 1, \<open>bLocked\<close> bit 2 and \<open>bEncrypt\<close> bit 6.\<close>

definition flag_bEncrypt :: "u8 \<Rightarrow> u8" where
  "flag_bEncrypt flag = (if bit flag 6 then 1 else 0)"

definition header_flag :: "u8 \<Rightarrow> u8 \<Rightarrow> u8 \<Rightarrow> u8" where
  "header_flag encrypt reback locked =
     push_bit 6 (encrypt AND 1) OR push_bit 1 (reback AND 1) OR push_bit 2 (locked AND 1)"

definition getRecvSocketAesKeyType :: "msg_origin \<Rightarrow> u8 list \<Rightarrow> device \<Rightarrow> aes_key_type option" where
  "getRecvSocketAesKeyType origin dat d =
     map_option (\<lambda>flag. getSocketAesKeyType origin (flag_bEncrypt flag) d) (rd dat 1)"

definition getAesKeyData :: "aes_key_type \<Rightarrow> device \<Rightarrow> u8 list option" where
  "getAesKeyData kt d = (case kt of
     AES_KEY_DEFAULT \<Rightarrow> Some DEFAULT_AES_KEY
   | AES_KEY_LOCAL \<Rightarrow> Some (localKey (keyData (globalData d)))
   | AES_KEY_SERVER \<Rightarrow> Some (serverKey (keyData (globalData d)))
   | AES_KEY_OPEN \<Rightarrow> None)"

text \<open>The cipher state is a local variable; \<open>fresh_aes\<close> is its contents before the call.\<close>

definition setAesKey :: "aes_key_type \<Rightarrow> direction \<Rightarrow> device \<Rightarrow> aes option" where
  "setAesKey kt aesType d =
     map_option (\<lambda>k. snd (AesSetKey fresh_aes (k @ [0]) AES_BLOCK_SIZE (Some (k @ [0])) aesType))
       (getAesKeyData kt d)"

section \<open>Padding\<close>

definition PKCS5PaddingFillData ::
    "u8 list \<Rightarrow> nat \<Rightarrow> u32 \<Rightarrow> aes_key_type \<Rightarrow> (u8 list \<times> u32) option" where
  "PKCS5PaddingFillData buf off len kt =
     (if kt = AES_KEY_OPEN then Some (buf, len)
      else let fillData = 16 - unat len mod 16
      in do {
        buf' \<leftarrow> wrs buf (off + unat len) (replicate fillData (of_nat fillData));
        Some (buf', len + of_nat fillData)
      })"

text \<open>The pad is whatever the last byte says: neither its size nor its bytes are checked.\<close>

definition PKCS5PaddingRemoveData ::
    "u8 list \<Rightarrow> nat \<Rightarrow> u32 \<Rightarrow> aes_key_type \<Rightarrow> (u8 list \<times> u32) option" where
  "PKCS5PaddingRemoveData buf off len kt = do {
     removeData \<leftarrow> (if off + unat len = 0 then None else rd buf (off + unat len - 1));
     if kt = AES_KEY_OPEN then Some (buf, len)
     else if removeData \<noteq> 0
     then if unat removeData \<le> off + unat len
       then do {
         buf' \<leftarrow> wrs buf (off + unat len - unat removeData) (replicate (unat removeData) 0);
         Some (buf', len - ucast removeData)
       }
       else None
     else Some (buf, len)
   }"

section \<open>Encryption of a buffer\<close>

text \<open>
  \<open>inb\<close> and \<open>out\<close> are the whole blocks, \<open>off\<close> the offset of the secret part in both.  The
  results are the flag, both blocks and the length.
\<close>

definition socketDataAesEncrypt ::
    "u8 list \<Rightarrow> u8 list \<Rightarrow> nat \<Rightarrow> u32 \<Rightarrow> aes_key_type \<Rightarrow> device
      \<Rightarrow> (bool \<times> u8 list \<times> u8 list \<times> u32) option" where
  "socketDataAesEncrypt inb out off len kt d =
     (if kt = AES_KEY_OPEN then do {
        bs \<leftarrow> rds inb off (unat len);
        out' \<leftarrow> wrs out off bs;
        Some (True, inb, out', len)
      }
      else case setAesKey kt AES_ENCRYPTION d of
        None \<Rightarrow> Some (False, inb, out, len)
      | Some key \<Rightarrow> do {
          (inb', len') \<leftarrow> PKCS5PaddingFillData inb off len kt;
          bs \<leftarrow> rds inb' off (unat len');
          out' \<leftarrow> wrs out off (fst (AesCbcEncrypt key bs (unat len')));
          Some (True, inb', out', len')
        })"

definition socketDataAesDecrypt ::
    "u8 list \<Rightarrow> u8 list \<Rightarrow> nat \<Rightarrow> u32 \<Rightarrow> aes_key_type \<Rightarrow> device
      \<Rightarrow> (bool \<times> u8 list \<times> u32) option" where
  "socketDataAesDecrypt inb out off len kt d =
     (if kt = AES_KEY_OPEN then do {
        bs \<leftarrow> rds inb off (unat len);
        out' \<leftarrow> wrs out off bs;
        Some (True, out', len)
      }
      else case setAesKey kt AES_DECRYPTION d of
        None \<Rightarrow> Some (False, out, len)
      | Some key \<Rightarrow> do {
          bs \<leftarrow> rds inb off (unat len);
          out' \<leftarrow> wrs out off (fst (AesCbcDecrypt key (drop off out) bs (unat len)));
          (out'', len') \<leftarrow> PKCS5PaddingRemoveData out' off len kt;
          Some (True, out'', len')
        })"

definition setSocketAesDataLen :: "u8 list \<Rightarrow> u32 \<Rightarrow> u8 list option" where
  "setSocketAesDataLen buf len = wrs buf 8 [ucast len]"

section \<open>Sending\<close>

definition getEncryptDataBuf :: "sdk \<Rightarrow> nat \<Rightarrow> device \<Rightarrow> u8 list option \<times> device" where
  "getEncryptDataBuf E len d = mallocSocketData E (len + SOCKET_HEADER_LEN + AES_BLOCK_SIZE + 1) d"

text \<open>The header as the code fills it in; \<open>snIndex\<close> is in network order.\<close>

definition packet_header :: "create_socket_data \<Rightarrow> device \<Rightarrow> u8 list" where
  "packet_header c d =
     [SOCKET_HEADER_PV,
      header_flag (bEncrypt c) (createReback c) (bLocked (deviceConfigData d))]
     @ macAddr (globalData d)
     @ [ucast (bodyLen c + SOCKET_HEADER_SECRET_DATA_LEN), SOCKET_HEADER_RESERVED]
     @ le16 (htons (createSn c))
     @ [SOCKET_HEADER_DEVICE_TYPE, SOCKET_HEADER_FACTORY_CODE]
     @ le16 SOCKET_HEADER_LICENSE_DATA"

definition createSendSocketData ::
    "sdk \<Rightarrow> create_socket_data \<Rightarrow> device \<Rightarrow> ((u8 list \<times> u32) option \<times> device) option" where
  "createSendSocketData E c d =
     (let n = unat (bodyLen c);
          (originSocketBuf, d1) = getEncryptDataBuf E n d
      in case originSocketBuf of None \<Rightarrow> Some (None, d1)
      | Some buf0 \<Rightarrow> do {
          buf1 \<leftarrow> wrs buf0 0 (packet_header c d1);
          body \<leftarrow> rds (bodyData c) 0 n;
          buf \<leftarrow> wrs buf1 SOCKET_HEADER_LEN body;
          let (pAesData, d2) = mallocSocketData E (SOCKET_HEADER_LEN + n + AES_BLOCK_SIZE + 1) d1;
          case pAesData of None \<Rightarrow> Some (None, FreeSocketData d2)
          | Some aes0 \<Rightarrow> do {
              header \<leftarrow> rds buf 0 SOCKET_HEADER_OPEN_DATA_LEN;
              aes1 \<leftarrow> wrs aes0 0 header;
              aesDataLen \<leftarrow> rd buf 8;
              d3 \<leftarrow> saveSocketData E False (createOrigin c) (Some buf) (n + SOCKET_HEADER_LEN) d2;
              (ok, _, aes2, len) \<leftarrow> socketDataAesEncrypt buf aes1 SOCKET_HEADER_OPEN_DATA_LEN
                                      (ucast aesDataLen) (keyType c) d3;
              if ok then do {
                aes3 \<leftarrow> setSocketAesDataLen aes2 len;
                Some (Some (aes3, len + SOCKET_HEADER_OPEN_DATA_LEN), FreeSocketData d3)
              }
              else Some (None, FreeSocketData (FreeSocketData d3))
            }
        })"

section \<open>Receiving\<close>

definition lum_checkSocketBeforeAES :: "u32 \<Rightarrow> u8 list \<Rightarrow> bool option" where
  "lum_checkSocketBeforeAES recvCount recvBuf =
     (if recvCount < 17 then Some False
      else do {
        pv \<leftarrow> rd recvBuf 0;
        len \<leftarrow> rd recvBuf 8;
        Some (pv = SOCKET_HEADER_PV \<and> ucast len + 9 = recvCount)
      })"

definition FACTORY_TOOL_MAC :: "u8 list" where
  "FACTORY_TOOL_MAC = ascii ''ABCDEF''"

definition lum_checkSocketAfterAES :: "u8 list \<Rightarrow> device \<Rightarrow> bool option" where
  "lum_checkSocketAfterAES socketData d = do {
     mac \<leftarrow> rds socketData 2 DEVICE_MAC_LEN;
     cmd \<leftarrow> rd socketData 16;
     deviceType \<leftarrow> rd socketData 12;
     license \<leftarrow> rds socketData 14 2;
     let broadcast = (mac = replicate DEVICE_MAC_LEN 0xFF \<and> cmd = MSG_CMD_FOUND_DEVICE);
     let tool = (mac = FACTORY_TOOL_MAC \<and> cmd = MSG_CMD_QUARY_MODULE_INFO);
     let own = (mac = macAddr (globalData d));
     let ret = (own
        \<or> (if broadcast
           then \<not> (getDeviceConnectInfo SERVER_CONN_BIT d \<and> getDeviceLockedStatus d)
           else tool));
     let factoryTest = (\<not> own \<and> \<not> broadcast \<and> tool);
     Some (ret \<and> (deviceType = SOCKET_HEADER_DEVICE_TYPE \<or> factoryTest)
       \<and> of_le16 license = SOCKET_HEADER_LICENSE_DATA)
   }"

definition encryptRecvSocketData ::
    "sdk \<Rightarrow> msg_origin \<Rightarrow> u8 list \<Rightarrow> u32 \<Rightarrow> device \<Rightarrow> ((u8 list \<times> u32) option \<times> device) option" where
  "encryptRecvSocketData E origin pSocketData recvDataLen d =
     (if recvDataLen < 10 then Some (None, d)
      else let (mem, d1) = mallocSocketData E (unat recvDataLen) d
      in case mem of None \<Rightarrow> Some (None, d1)
      | Some buf0 \<Rightarrow> do {
          kt \<leftarrow> getRecvSocketAesKeyType origin pSocketData d1;
          header \<leftarrow> rds pSocketData 0 SOCKET_HEADER_OPEN_DATA_LEN;
          buf1 \<leftarrow> wrs buf0 0 header;
          (ok, buf2, len) \<leftarrow> socketDataAesDecrypt pSocketData buf1 SOCKET_HEADER_OPEN_DATA_LEN
                               (recvDataLen - 9) kt d1;
          if ok then do {
            sn \<leftarrow> rds buf2 10 2;
            buf3 \<leftarrow> wrs buf2 10 (le16 (htons (of_le16 sn)));
            buf4 \<leftarrow> wrs buf3 8 [ucast len];
            Some (Some (buf4, len + 9), d1)
          }
          else Some (None, FreeSocketData d1)
        })"

section \<open>Buffer lemmas\<close>

lemma wrs_at: "off = length a \<Longrightarrow> length b = length b' \<Longrightarrow> wrs (a @ b @ c) off b' = Some (a @ b' @ c)"
  by (simp add: wrs_def)

lemma rds_at: "off = length a \<Longrightarrow> n = length b \<Longrightarrow> rds (a @ b @ c) off n = Some b"
  by (simp add: rds_def)

lemma rd_at: "i = length a \<Longrightarrow> rd (a @ x # c) i = Some x"
  by (simp add: rd_def)

section \<open>Keys\<close>

lemma AesSetKey_terminated:
  assumes "length k = 16"
  shows "AesSetKey a (k @ [0]) 16 (Some (k @ [0])) dir = AesSetKey a k 16 (Some k) dir"
proof -
  have "load_word (k @ [0]) i = load_word k i" if "i < 4" for i
    using assms that by (simp add: load_word_def)
  then have m: "map (load_word (k @ [0])) [0..<4] = map (load_word k) [0..<4]" by simp
  show ?thesis using assms
    by (simp add: AesSetKey_def AesSetKeyLocal_def AesSetIV_def Let_def m)
qed

definition key_of :: "aes_key_type \<Rightarrow> device \<Rightarrow> u8 list" where
  "key_of kt d = (case getAesKeyData kt d of Some k \<Rightarrow> k | None \<Rightarrow> [])"

text \<open>The three keys have 16 bytes, and the MAC six; the code never stores others.\<close>

definition keys_ok :: "device \<Rightarrow> bool" where
  "keys_ok d \<longleftrightarrow> length (localKey (keyData (globalData d))) = AES_KEY_LEN
     \<and> length (serverKey (keyData (globalData d))) = AES_KEY_LEN
     \<and> length (macAddr (globalData d)) = DEVICE_MAC_LEN"

lemma key_of_length: "keys_ok d \<Longrightarrow> kt \<noteq> AES_KEY_OPEN \<Longrightarrow> length (key_of kt d) = 16
    \<and> getAesKeyData kt d = Some (key_of kt d)"
  by (cases kt) (auto simp: key_of_def getAesKeyData_def keys_ok_def DEFAULT_AES_KEY_def)

lemma setAesKey_ok:
  assumes "keys_ok d" "kt \<noteq> AES_KEY_OPEN"
  shows "setAesKey kt dir d = Some (snd (AesSetKey fresh_aes (key_of kt d) 16 (Some (key_of kt d)) dir))"
  using key_of_length [OF assms] AesSetKey_terminated [of "key_of kt d"] by (simp add: setAesKey_def)

lemma getSocketAesKeyType_congr:
  "keyData (globalData d') = keyData (globalData d) \<Longrightarrow>
    getSocketAesKeyType origin e d' = getSocketAesKeyType origin e d"
  by (simp add: getSocketAesKeyType_def)

section \<open>The secret part survives encryption and decryption\<close>

definition pad_length :: "nat \<Rightarrow> nat" where
  "pad_length n = 16 - n mod 16"

definition padded :: "u8 list \<Rightarrow> u8 list" where
  "padded x = x @ replicate (pad_length (length x)) (of_nat (pad_length (length x)))"

definition cipher_text :: "aes_key_type \<Rightarrow> u8 list \<Rightarrow> device \<Rightarrow> u8 list" where
  "cipher_text kt x d = (if kt = AES_KEY_OPEN then x
     else fst (AesCbcEncrypt (snd (AesSetKey fresh_aes (key_of kt d) 16 (Some (key_of kt d)) AES_ENCRYPTION))
                (padded x) (length (padded x))))"

lemma pad_length_bounds: "1 \<le> pad_length n" "pad_length n \<le> 16" "\<exists>m. n + pad_length n = 16 * m"
proof -
  show "1 \<le> pad_length n" "pad_length n \<le> 16" by (simp_all add: pad_length_def)
  have "n + pad_length n = 16 * (n div 16 + 1)" unfolding pad_length_def by presburger
  then show "\<exists>m. n + pad_length n = 16 * m" by blast
qed

lemma length_padded: "length (padded x) = length x + pad_length (length x)"
  by (simp add: padded_def)

lemma cipher_text_props:
  assumes "keys_ok d" "kt \<noteq> AES_KEY_OPEN"
  shows "length (cipher_text kt x d) = length x + pad_length (length x)"
    "fst (AesCbcDecrypt (snd (AesSetKey fresh_aes (key_of kt d) 16 (Some (key_of kt d)) AES_DECRYPTION))
       out (cipher_text kt x d) (length (cipher_text kt x d))) = padded x"
proof -
  obtain m where m: "length (padded x) = 16 * m" using pad_length_bounds(3) length_padded by metis
  note r = cbc_round_trip [OF conjunct1 [OF key_of_length [OF assms]] m refl refl]
  show 1: "length (cipher_text kt x d) = length x + pad_length (length x)"
    using r(2) m assms(2) by (simp add: cipher_text_def length_padded)
  show "fst (AesCbcDecrypt (snd (AesSetKey fresh_aes (key_of kt d) 16 (Some (key_of kt d)) AES_DECRYPTION))
       out (cipher_text kt x d) (length (cipher_text kt x d))) = padded x"
    using r(1) m assms(2) 1 by (simp add: cipher_text_def length_padded)
qed

lemma unat_small: "n < 2 ^ 32 \<Longrightarrow> unat (of_nat n :: u32) = n"
  by (simp add: unat_of_nat)

lemma socketDataAesEncrypt_ok:
  assumes d: "keys_ok d" and x: "length x < 2 ^ 16" and h: "length h = off"
    and z: "length z = 18" and out: "length out = off + length x + 18"
  shows "\<exists>inb' t. socketDataAesEncrypt (h @ x @ z) out off (of_nat (length x)) kt d =
     Some (True, inb', take off out @ cipher_text kt x d @ t, of_nat (length (cipher_text kt x d)))"
proof (cases "kt = AES_KEY_OPEN")
  case True
  have "rds (h @ x @ z) off (length x) = Some x" using h by (simp add: rds_def)
  moreover have "wrs out off x = Some (take off out @ x @ drop (off + length x) out)"
    using out by (simp add: wrs_def)
  ultimately show ?thesis using True x
    by (simp add: socketDataAesEncrypt_def cipher_text_def unat_small)
next
  case False
  let ?f = "pad_length (length x)" and ?c = "cipher_text kt x d"
  note f = pad_length_bounds(1,2) [of "length x"]
  note c = cipher_text_props(1) [OF d False, of x]
  have u: "unat (of_nat (length x) :: u32) = length x"
    "unat (of_nat (length x + ?f) :: u32) = length x + ?f"
    unfolding unat_of_nat using x f by simp_all
  let ?inb = "h @ padded x @ drop ?f z"
  have fill: "PKCS5PaddingFillData (h @ x @ z) off (of_nat (length x)) kt
      = Some (?inb, of_nat (length x + ?f))"
    using False h z f(2) unfolding PKCS5PaddingFillData_def u(1) Let_def
    by (simp add: wrs_def padded_def pad_length_def)
  have bs: "rds ?inb off (length x + ?f) = Some (padded x)"
    using h by (simp add: rds_def length_padded)
  have w: "wrs out off ?c = Some (take off out @ ?c @ drop (off + length ?c) out)"
    using out f(2) c by (simp add: wrs_def)
  show ?thesis
    using False setAesKey_ok [OF d False] fill bs w c
    by (auto simp: socketDataAesEncrypt_def u cipher_text_def length_padded simp del: of_nat_add)
qed

lemma socketDataAesDecrypt_ok:
  assumes d: "keys_ok d" and x: "length x < 2 ^ 16" and x0: "x \<noteq> []" and h: "length h = off"
    and out: "out = h' @ replicate (length (cipher_text kt x d) + 1) 0" "length h' = off"
  shows "\<exists>t. socketDataAesDecrypt (h @ cipher_text kt x d @ z) out off
       (of_nat (length (cipher_text kt x d))) kt d =
     Some (True, h' @ x @ t, of_nat (length x))"
proof (cases "kt = AES_KEY_OPEN")
  case True
  have "wrs out off x = Some (h' @ x @ [0])"
    using True out by (simp add: wrs_def cipher_text_def replicate_append_same [symmetric])
  then show ?thesis using True x h
    by (auto simp: socketDataAesDecrypt_def cipher_text_def unat_small rds_def)
next
  case False
  let ?f = "pad_length (length x)" and ?c = "cipher_text kt x d"
  note f = pad_length_bounds(1,2) [of "length x"]
  note c = cipher_text_props [OF d False, where x = x]
  have u: "unat (of_nat (length ?c) :: u32) = length x + ?f"
    unfolding c(1) unat_of_nat using x f by simp
  have w: "wrs out off (padded x) = Some (h' @ padded x @ [0])"
    using out c(1) by (simp add: wrs_def length_padded replicate_append_same [symmetric])
  have last: "rd (h' @ padded x @ [0]) (off + (length x + ?f) - 1) = Some (of_nat ?f)"
    using f(1) out(2) by (auto simp: rd_def padded_def nth_append)
  have fu: "unat (of_nat ?f :: u8) = ?f" "(of_nat ?f :: u8) \<noteq> 0"
    using f by (auto simp: unat_of_nat unat_eq_zero [symmetric])
  have z: "wrs (h' @ padded x @ [0]) (off + (length x + ?f) - ?f) (replicate ?f 0)
      = Some (h' @ x @ replicate ?f 0 @ [0])"
    using out(2) by (simp add: wrs_def padded_def)
  have len: "of_nat (length ?c) - ucast (of_nat ?f :: u8) = (of_nat (length x) :: u32)"
  proof -
    have "ucast (of_nat ?f :: u8) = (of_nat (unat (of_nat ?f :: u8)) :: u32)"
      by (simp only: of_nat_unat)
    then show ?thesis by (simp only: fu(1) c(1) of_nat_add) simp
  qed
  have "PKCS5PaddingRemoveData (h' @ padded x @ [0]) off (of_nat (length ?c)) kt
      = Some (h' @ x @ replicate ?f 0 @ [0], of_nat (length x))"
    unfolding PKCS5PaddingRemoveData_def u
    using last fu z len False f(1) by simp
  moreover have "rds (h @ ?c @ z) off (length ?c) = Some ?c" using h by (simp add: rds_def)
  moreover have "unat (of_nat (length ?c) :: u32) = length ?c" using u c(1) by simp
  ultimately show ?thesis
    using False setAesKey_ok [OF d False] w c(2)
    by (auto simp: socketDataAesDecrypt_def)
qed

section \<open>What goes on the wire\<close>

definition packet :: "create_socket_data \<Rightarrow> device \<Rightarrow> u8 list" where
  "packet c d = packet_header c d @ take (unat (bodyLen c)) (bodyData c)"

lemma length_packet_header: "keys_ok d \<Longrightarrow> length (packet_header c d) = 16"
  by (simp add: packet_header_def keys_ok_def)

lemma packet_header_congr:
  "deviceConfigData d' = deviceConfigData d \<Longrightarrow> macAddr (globalData d') = macAddr (globalData d) \<Longrightarrow>
    packet_header c d' = packet_header c d"
  by (simp add: packet_header_def)

lemma mallocSocketData_core:
  "mallocSocketData E n d = (r, d') \<Longrightarrow> core d' = core d \<and> (r = None \<or> r = Some (replicate (n + 1) 0))"
  by (cases E n d rule: mallocSocketData_cases) (auto simp: core_def upd_global_def call_def)

text \<open>
  A packet that can be sent: the body is as long as announced and leaves room for the length
  byte of the padded packet.
\<close>

definition sendable :: "create_socket_data \<Rightarrow> bool" where
  "sendable c \<longleftrightarrow> 1 \<le> unat (bodyLen c) \<and> unat (bodyLen c) \<le> length (bodyData c) \<and> unat (bodyLen c) \<le> 232"

definition wire :: "create_socket_data \<Rightarrow> device \<Rightarrow> u8 list" where
  "wire c d = (let x = cipher_text (keyType c) (drop 9 (packet c d)) d
               in take 8 (packet_header c d) @ [of_nat (length x)] @ x)"

lemma take_8_9: "length xs \<ge> 9 \<Longrightarrow> take 9 xs = take 8 xs @ [xs ! 8]"
  using take_Suc_conv_app_nth [of 8 xs] by simp

lemma length_cipher_text:
  assumes "keys_ok d"
  shows "length x \<le> length (cipher_text kt x d)" "length (cipher_text kt x d) \<le> length x + 16"
    "length x \<le> 239 \<Longrightarrow> length (cipher_text kt x d) \<le> 240"
proof -
  have "length (cipher_text kt x d) = length x \<or>
      length (cipher_text kt x d) = length x + pad_length (length x)"
    using cipher_text_props(1) [OF assms, of kt x] by (cases "kt = AES_KEY_OPEN") (auto simp: cipher_text_def)
  moreover note pad_length_bounds [of "length x"]
  moreover have "16 * m \<le> 240" if "length x + pad_length (length x) = 16 * m" "length x \<le> 239" for m
    using that pad_length_bounds(2) [of "length x"] by presburger
  ultimately show "length x \<le> length (cipher_text kt x d)" "length (cipher_text kt x d) \<le> length x + 16"
    "length x \<le> 239 \<Longrightarrow> length (cipher_text kt x d) \<le> 240" by fastforce+
qed

lemma cipher_text_congr:
  "keyData (globalData d') = keyData (globalData d) \<Longrightarrow> cipher_text kt x d' = cipher_text kt x d"
  by (simp add: cipher_text_def key_of_def getAesKeyData_def split: aes_key_type.split)

lemma keys_ok_congr:
  "keyData (globalData d') = keyData (globalData d) \<Longrightarrow> macAddr (globalData d') = macAddr (globalData d) \<Longrightarrow>
    keys_ok d' = keys_ok d"
  by (simp add: keys_ok_def)

lemma ucast_small: "unat (w :: u16) < 256 \<Longrightarrow> ucast (ucast w :: u8) = (of_nat (unat w) :: u32)"
proof -
  assume w: "unat w < 256"
  have "unat w < 2 ^ 32" by (rule less_trans [OF unat_u16_less]) simp
  then have "unat (ucast w :: u32) = unat w" by (simp add: unsigned_ucast_eq take_bit_eq_mod)
  then show ?thesis using w
    by (simp add: word_unat_eq_iff unsigned_ucast_eq take_bit_eq_mod unat_of_nat unat_mod)
qed

lemma mallocSocketData_saved:
  "mallocSocketData E n d = (r, d') \<Longrightarrow> last_saved (trace d') = last_saved (trace d)"
  by (cases E n d rule: mallocSocketData_cases) auto

lemma mallocSocketData_None:
  "mallocSocketData E n d = (None, d') \<Longrightarrow> \<exists>tr k. \<not> hfmem_malloc E tr k"
  by (auto simp: mallocSocketData_def Let_def split: if_splits)

text \<open>Sending never faults; only the allocator can prevent it.\<close>

lemma createSendSocketData_total:
  assumes d: "keys_ok d" and c: "sendable c" and log: "\<not> lum_getUdpLogFlag d"
  shows "\<exists>r d'. createSendSocketData E c d = Some (r, d') \<and> core d' = core d
    \<and> last_saved (trace d') = last_saved (trace d)
    \<and> (case r of None \<Rightarrow> \<exists>tr n. \<not> hfmem_malloc E tr n
         | Some (buf, len) \<Rightarrow> len = of_nat (length (wire c d)) \<and> (\<exists>t. buf = wire c d @ t))"
proof -
  let ?n = "unat (bodyLen c)"
  have nn: "?n \<le> 232" "?n \<le> length (bodyData c)" using c by (simp_all add: sendable_def)
  obtain b0 d1 where m1: "mallocSocketData E (?n + 16 + 16 + 1) d = (b0, d1)" by fastforce
  note r1 = createSendSocketData_def [of E c d, unfolded getEncryptDataBuf_def Let_def m1 prod.case]
  have k1: "core d1 = core d" using mallocSocketData_core [OF m1] by simp
  note s1 = mallocSocketData_saved [OF m1]
  show ?thesis
  proof (cases "b0 = None")
    case True
    then show ?thesis using r1 k1 s1 mallocSocketData_None [of E _ d d1] m1 by auto
  next
    case False
    then have b0: "b0 = Some (replicate (?n + 16 + 16 + 1 + 1) 0)"
      using mallocSocketData_core [OF m1] by auto
    have p: "packet_header c d1 = packet_header c d" "keys_ok d1"
      using packet_header_congr [OF core_eqD(1,13) [OF k1]] keys_ok_congr [OF core_eqD(11,13) [OF k1]] d
      by simp_all
    let ?P = "packet_header c d" and ?body = "take ?n (bodyData c)"
    have lp: "length ?P = 16" using length_packet_header [OF d] .
    have w1: "wrs (replicate (?n + 16 + 16 + 1 + 1) 0) 0 ?P = Some (?P @ replicate (?n + 18) 0)"
      using lp by (simp add: wrs_def del: replicate.simps)
    have w2: "wrs (?P @ replicate (?n + 18) 0) 16 ?body = Some (?P @ ?body @ replicate 18 0)"
      using lp nn by (simp add: wrs_def del: replicate.simps)
    have rb: "rds (bodyData c) 0 ?n = Some ?body" using nn(2) by (simp add: rds_def)
    obtain a0 d2 where m2: "mallocSocketData E (16 + ?n + 16 + 1) d1 = (a0, d2)" by fastforce
    note r2 = r1 [unfolded b0 option.case p(1) w1 rb Option.bind.bind_lunit w2 m2 prod.case]
    have k2: "core d2 = core d" using mallocSocketData_core [OF m2] k1 by simp
    note s2 = mallocSocketData_saved [OF m2]
    show ?thesis
    proof (cases "a0 = None")
      case True
      then show ?thesis using r2 k2 s1 s2 mallocSocketData_None [of E _ d1 d2] m2 by auto
    next
      case False
      then have a0: "a0 = Some (replicate (16 + ?n + 16 + 1 + 1) 0)"
        using mallocSocketData_core [OF m2] by auto
      let ?buf = "?P @ ?body @ replicate 18 0"
      let ?a = "take 9 ?P @ replicate (?n + 25) 0"
      have w3: "rds ?buf 0 9 = Some (take 9 ?P)" using lp by (simp add: rds_def)
      have w4: "wrs (replicate (16 + ?n + 16 + 1 + 1) 0) 0 (take 9 ?P) = Some ?a"
        using lp by (simp add: wrs_def del: replicate.simps)
      have w5: "rd ?buf 8 = Some (ucast (bodyLen c + 7))"
        using d lp by (simp add: rd_def packet_header_def keys_ok_def nth_append)
      have nolog: "saveSocketData E False (createOrigin c) (Some ?buf) (?n + 16) d2 = Some d2"
        using log core_eqD(1) [OF k2] by (simp add: saveSocketData_def lum_getUdpLogFlag_def)
      note r3 = r2 [unfolded a0 option.case w3 w4 Option.bind.bind_lunit w5 nolog]
      define x where "x = drop 9 (packet c d)"
      have x: "length x = ?n + 7" using lp nn by (simp add: x_def packet_def)
      have split: "?buf = take 9 ?P @ x @ replicate 18 0"
        using lp by (simp add: x_def packet_def)
      have len0: "ucast (ucast (bodyLen c + 7) :: u8) = (of_nat (length x) :: u32)"
      proof -
        have "unat (bodyLen c + 7) = ?n + 7" using nn(1) by (simp add: unat_word_ariths)
        then show ?thesis using nn(1) x ucast_small [of "bodyLen c + 7"] by simp
    qed
  have d2: "keys_ok d2" using keys_ok_congr [OF core_eqD(11,13) [OF k2]] d by simp
  obtain inb t where enc: "socketDataAesEncrypt ?buf ?a 9 (of_nat (length x)) (keyType c) d2 =
     Some (True, inb, take 9 ?a @ cipher_text (keyType c) x d2 @ t, of_nat (length (cipher_text (keyType c) x d2)))"
    using socketDataAesEncrypt_ok [OF d2, of x "take 9 ?P" 9 "replicate 18 0" ?a "keyType c"] lp x nn(1)
    unfolding split by (auto simp del: of_nat_add)
  have ct: "cipher_text (keyType c) x d2 = cipher_text (keyType c) x d"
    by (rule cipher_text_congr [OF core_eqD(11) [OF k2]])
  note r4 = r3 [unfolded len0 enc Option.bind.bind_lunit prod.case if_True ct]
  have l: "length (cipher_text (keyType c) x d) \<le> 240"
    using length_cipher_text(3) [OF d] x nn by simp
  have w6: "setSocketAesDataLen (take 9 ?a @ cipher_text (keyType c) x d @ t)
    (of_nat (length (cipher_text (keyType c) x d))) = Some (wire c d @ t)"
  proof -
    have "take 9 ?a = take 8 ?P @ [?P ! 8]" using take_8_9 [of ?P] lp by simp
    moreover have "(ucast (of_nat m :: u32) :: u8) = of_nat m" if "m \<le> 240" for m
    using that by (simp add: word_unat_eq_iff unsigned_ucast_eq take_bit_eq_mod unat_of_nat)
    ultimately show ?thesis using lp l
    by (simp add: setSocketAesDataLen_def wrs_def wire_def Let_def x_def)
  qed
  have "of_nat (length (cipher_text (keyType c) x d)) + 9 = (of_nat (length (wire c d)) :: u32)"
    using lp by (simp add: wire_def Let_def x_def)
  then show ?thesis using r4 [unfolded w6 Option.bind.bind_lunit] k2 s1 s2 by auto
  qed
  qed
qed

lemma createSendSocketData_wire:
  assumes "keys_ok d" "sendable c" "createSendSocketData E c d = Some (Some (buf, len), d')"
    "\<not> lum_getUdpLogFlag d"
  shows "len = of_nat (length (wire c d))" "\<exists>t. buf = wire c d @ t" "core d' = core d"
  using createSendSocketData_total [OF assms(1,2,4), of E] assms(3) by auto

lemma header_flag_encrypt: "flag_bEncrypt (header_flag e r l) = e AND 1"
proof -
  have "(e AND 1 :: u8) = (if bit e 0 then 1 else 0)" by (simp add: and_one_eq odd_iff_mod_2_eq_one bit_0)
  then show ?thesis by (auto simp: flag_bEncrypt_def header_flag_def bit_simps)
qed

lemma packet_header_bytes:
  "packet_header c d = [SOCKET_HEADER_PV, header_flag (bEncrypt c) (createReback c) (bLocked (deviceConfigData d))]
     @ macAddr (globalData d) @ [ucast (bodyLen c + 7), 0] @ le16 (htons (createSn c)) @ [0xDF, 0xF1, 0x21, 0xB4]"
  by (simp add: packet_header_def le16_def)

lemma encryptRecvSocketData_wire:
  assumes d: "keys_ok d" "keys_ok dr" and c: "sendable c"
    and k: "keyData (globalData dr) = keyData (globalData d)"
    and kt: "keyType c = getSocketAesKeyType origin (bEncrypt c AND 1) d"
  shows "\<exists>r dr'. encryptRecvSocketData E origin (wire c d @ t) (of_nat (length (wire c d))) dr = Some (r, dr')
     \<and> (r = None \<and> \<not> hfmem_malloc E (trace dr) (length (wire c d) + 1)
        \<or> (\<exists>rest. r = Some (packet (c\<lparr>createSn := htons (createSn c)\<rparr>) d @ rest,
                            of_nat (16 + unat (bodyLen c)))))
     \<and> core dr' = core dr"
proof -
  let ?n = "unat (bodyLen c)" and ?P = "packet_header c d"
  have nn: "?n \<le> 232" "?n \<le> length (bodyData c)" using c by (simp_all add: sendable_def)
  have lp: "length ?P = 16" using length_packet_header [OF d(1)] .
  define x where "x = drop 9 (packet c d)"
  have x: "length x = ?n + 7" using lp nn by (simp add: x_def packet_def)
  have xne: "x \<noteq> []" using x by auto
  define ct where "ct = cipher_text (keyType c) x d"
  have ctl: "length x \<le> length ct" "length ct \<le> 240"
    using length_cipher_text [OF d(1), where x = x and kt = "keyType c"] x nn by (simp_all add: ct_def)
  let ?h = "take 8 ?P @ [of_nat (length ct)]"
  have wire: "wire c d = ?h @ ct" by (simp add: wire_def x_def ct_def Let_def)
  have lw: "length (wire c d) = 9 + length ct" using lp by (simp add: wire)
  have len: "unat (of_nat (length (wire c d)) :: u32) = 9 + length ct"
    unfolding lw unat_of_nat using ctl by simp
  have ge: "\<not> (of_nat (length (wire c d)) :: u32) < 10"
    using len x ctl by (auto simp: word_less_nat_alt)
  have minus: "(of_nat (length (wire c d)) - 9 :: u32) = of_nat (length ct)" by (simp add: lw)
  obtain b0 d1 where m: "mallocSocketData E (9 + length ct) dr = (b0, d1)" by fastforce
  have k1: "core d1 = core dr" using mallocSocketData_core [OF m] by simp
  show ?thesis
  proof (cases "b0 = None")
    case True
    then have "\<not> hfmem_malloc E (trace dr) (length (wire c d) + 1)"
      using m by (auto simp: mallocSocketData_def Let_def lw split: if_splits)
    then show ?thesis using True m ge k1
      by (simp add: encryptRecvSocketData_def len)
  next
    case False
    have b0: "b0 = Some (replicate (9 + length ct + 1) 0)" using mallocSocketData_core [OF m] False by simp
    have flag: "rd (wire c d @ t) 1 = Some (header_flag (bEncrypt c) (createReback c) (bLocked (deviceConfigData d)))"
      using lp by (simp add: wire rd_def packet_header_bytes numeral_eq_Suc)
    have rk: "getRecvSocketAesKeyType origin (wire c d @ t) d1 = Some (keyType c)"
      using flag kt getSocketAesKeyType_congr [of d1 d origin] core_eqD(11) [OF k1] k
      by (simp add: getRecvSocketAesKeyType_def header_flag_encrypt)
    have w1: "rds (wire c d @ t) 0 9 = Some ?h" using lp by (simp add: wire rds_def)
    have w2: "wrs (replicate (9 + length ct + 1) 0) 0 ?h = Some (?h @ replicate (length ct + 1) 0)"
      using lp by (simp add: wrs_def del: replicate.simps)
    have d1: "keys_ok d1" using keys_ok_congr [OF core_eqD(11,13) [OF k1]] d(2) by simp
    have ct1: "cipher_text (keyType c) x d1 = ct"
      using cipher_text_congr [of d1 d] core_eqD(11) [OF k1] k by (simp add: ct_def)
    obtain t' where dec: "socketDataAesDecrypt (wire c d @ t) (?h @ replicate (length ct + 1) 0) 9
        (of_nat (length ct)) (keyType c) d1 = Some (True, ?h @ x @ t', of_nat (length x))"
      using socketDataAesDecrypt_ok [OF d1, where x = x and h = ?h and off = 9 and kt = "keyType c" and h' = ?h
          and z = t] lp x nn(1) xne
      unfolding ct1 wire by (auto simp: ct1)
    note r1 = encryptRecvSocketData_def [of E origin "wire c d @ t" "of_nat (length (wire c d))" dr,
        unfolded if_not_P [OF ge] len m Let_def prod.case b0 option.case rk w1 w2 minus dec
          Option.bind.bind_lunit if_True]
    have xs: "x = [0] @ le16 (htons (createSn c)) @ [0xDF, 0xF1, 0x21, 0xB4] @ take ?n (bodyData c)"
      using d(1) by (simp add: x_def packet_def packet_header_bytes keys_ok_def numeral_eq_Suc)
    have w3: "rds (?h @ x @ t') 10 2 = Some (le16 (htons (createSn c)))"
      using lp by (simp add: xs rds_def)
    have w4: "wrs (?h @ x @ t') 10 (le16 (createSn c)) = Some (?h @ ([0] @ le16 (createSn c)
        @ [0xDF, 0xF1, 0x21, 0xB4] @ take ?n (bodyData c)) @ t')"
      using lp by (simp add: xs wrs_def)
    have w5: "wrs (?h @ ([0] @ le16 (createSn c) @ [0xDF, 0xF1, 0x21, 0xB4] @ take ?n (bodyData c)) @ t') 8
        [ucast (of_nat (length x) :: u32)] =
        Some (packet (c\<lparr>createSn := htons (createSn c)\<rparr>) d @ t')"
    proof -
      have "take 8 ?P = [0x01, header_flag (bEncrypt c) (createReback c) (bLocked (deviceConfigData d))]
          @ macAddr (globalData d)"
        using d(1) by (simp add: packet_header_bytes keys_ok_def)
      moreover have "(ucast (of_nat (length x) :: u32) :: u8) = ucast (bodyLen c + 7)"
      proof -
        have u: "unat (bodyLen c + 7) = ?n + 7" using nn(1) by (simp add: unat_word_ariths)
        have "(of_nat (length x) :: u32) = ucast (ucast (bodyLen c + 7) :: u8)"
          using ucast_small [of "bodyLen c + 7"] nn(1) unfolding u x by simp
        moreover have "(ucast (ucast b :: u32) :: u8) = b" for b :: u8
          by (rule bit_word_eqI) (simp add: bit_simps)
        ultimately show ?thesis by simp
      qed
      ultimately show ?thesis using d(1)
        by (simp add: wrs_def packet_def packet_header_bytes keys_ok_def)
    qed
    have l16: "(of_nat (length x) + 9 :: u32) = of_nat (16 + ?n)" by (simp add: x)
    show ?thesis using r1 [unfolded w3 Option.bind.bind_lunit of_le16_le16 htons_htons w4 w5 l16] k1
      by auto
  qed
qed

section \<open>Properties\<close>

lemma wire_accepted:
  assumes "keys_ok d" "sendable c"
  shows "lum_checkSocketBeforeAES (of_nat (length (wire c d))) (wire c d @ t) = Some True"
proof -
  let ?ct = "cipher_text (keyType c) (drop 9 (packet c d)) d"
  have lp: "length (packet_header c d) = 16" using length_packet_header [OF assms(1)] .
  have n: "1 \<le> unat (bodyLen c)" "unat (bodyLen c) \<le> 232" "unat (bodyLen c) \<le> length (bodyData c)"
    using assms(2) by (simp_all add: sendable_def)
  have x: "length (drop 9 (packet c d)) = unat (bodyLen c) + 7" using lp n by (simp add: packet_def)
  have ct: "8 \<le> length ?ct" "length ?ct \<le> 240"
    using length_cipher_text [OF assms(1), where x = "drop 9 (packet c d)" and kt = "keyType c"] x n by auto
  have w: "wire c d = take 8 (packet_header c d) @ [of_nat (length ?ct)] @ ?ct"
    by (simp add: wire_def Let_def)
  have len: "length (wire c d) = 9 + length ?ct" using lp by (simp add: w)
  have u: "unat (of_nat (9 + length ?ct) :: u32) = 9 + length ?ct"
    unfolding unat_of_nat using ct by simp
  have ge: "\<not> (of_nat (9 + length ?ct) :: u32) < 17" 
    unfolding word_less_nat_alt u using ct by simp
  have pv: "rd (wire c d @ t) 0 = Some 1" "rd (wire c d @ t) 8 = Some (of_nat (length ?ct))"
    using lp by (simp_all add: w rd_def nth_append packet_header_bytes)
  have "ucast (of_nat (length ?ct) :: u8) = (of_nat (length ?ct) :: u32)"
    using ct by (simp add: word_unat_eq_iff unsigned_ucast_eq take_bit_eq_mod unat_of_nat)
  then show ?thesis using pv unfolding lum_checkSocketBeforeAES_def len if_not_P [OF ge] by simp
qed

lemma packet_accepted:
  assumes "keys_ok d" "sendable c" "macAddr (globalData dr) = macAddr (globalData d)"
  shows "lum_checkSocketAfterAES (packet c d @ t) dr = Some True"
proof -
  have m: "length (macAddr (globalData d)) = 6" using assms(1) by (simp add: keys_ok_def)
  have n: "take (unat (bodyLen c)) (bodyData c) \<noteq> []" using assms(2) by (auto simp: sendable_def)
  then obtain b bs where b: "take (unat (bodyLen c)) (bodyData c) = b # bs" by (meson list.exhaust)
  have "rds (packet c d @ t) 2 6 = Some (macAddr (globalData d))"
    "rd (packet c d @ t) 16 = Some b" "rd (packet c d @ t) 12 = Some 0xDF"
    "rds (packet c d @ t) 14 2 = Some [0x21, 0xB4]"
    using m by (simp_all add: packet_def packet_header_bytes b rds_def rd_def nth_append le16_def)
  then show ?thesis using assms(3) by (simp add: lum_checkSocketAfterAES_def)
qed

text \<open>
  Property C17: a packet that the device sends is understood by a device with the same MAC and
  keys: the length check accepts it, decryption returns the header (with the serial number in
  host order) and the body that were sent, and the check of the decrypted packet accepts that;
  only an allocation that fails prevents it.
\<close>

theorem packet_round_trip:
  "keys_ok d \<Longrightarrow> sendable c \<Longrightarrow> keyType c = getSocketAesKeyType origin (bEncrypt c AND 1) d \<Longrightarrow>
   \<not> lum_getUdpLogFlag d \<Longrightarrow> keyData (globalData dr) = keyData (globalData d) \<Longrightarrow>
   macAddr (globalData dr) = macAddr (globalData d) \<Longrightarrow>
   createSendSocketData E c d = Some (Some (buf, len), d') \<Longrightarrow>
   lum_checkSocketBeforeAES len buf = Some True
   \<and> (\<exists>r dr'. encryptRecvSocketData E' origin buf len dr = Some (r, dr')
       \<and> (case r of None \<Rightarrow> \<not> hfmem_malloc E' (trace dr) (length (wire c d) + 1)
           | Some (pkt, n) \<Rightarrow> take (16 + unat (bodyLen c)) pkt = packet (c\<lparr>createSn := htons (createSn c)\<rparr>) d
               \<and> n = of_nat (16 + unat (bodyLen c)) \<and> lum_checkSocketAfterAES pkt dr' = Some True))"
proof -
  assume d: "keys_ok d" and c: "sendable c" and kt: "keyType c = getSocketAesKeyType origin (bEncrypt c AND 1) d"
    and log: "\<not> lum_getUdpLogFlag d" and k: "keyData (globalData dr) = keyData (globalData d)"
    "macAddr (globalData dr) = macAddr (globalData d)"
    and s: "createSendSocketData E c d = Some (Some (buf, len), d')"
  let ?c = "c\<lparr>createSn := htons (createSn c)\<rparr>"
  note w = createSendSocketData_wire [OF d c s log]
  obtain t where buf: "buf = wire c d @ t" using w(2) by blast
  have dr: "keys_ok dr" using keys_ok_congr [OF k] d by simp
  obtain r dr' where r: "encryptRecvSocketData E' origin buf len dr = Some (r, dr')"
    "r = None \<and> \<not> hfmem_malloc E' (trace dr) (length (wire c d) + 1)
     \<or> (\<exists>rest. r = Some (packet ?c d @ rest, of_nat (16 + unat (bodyLen c))))" "core dr' = core dr"
    using encryptRecvSocketData_wire [OF d dr c k(1) kt, of E' t] unfolding buf w(1) by blast
  have c': "sendable ?c" using c by (simp add: sendable_def)
  have len: "length (packet ?c d) = 16 + unat (bodyLen c)"
    using length_packet_header [OF d, of ?c] c by (simp add: packet_def sendable_def)
  have "lum_checkSocketAfterAES (packet ?c d @ rest) dr' = Some True" for rest
    by (rule packet_accepted [OF d c']) (use core_eqD(13) [OF r(3)] k in simp)
  moreover have "lum_checkSocketBeforeAES len buf = Some True"
    using wire_accepted [OF d c] by (simp add: buf w(1))
  ultimately show ?thesis using r(1,2) len by auto
qed

definition heart_beat_request :: create_socket_data where
  "heart_beat_request = \<lparr>bEncrypt = 1, createReback = 0, createOrigin = MSG_FROM_UDP, createSn = 7,
     bodyLen = 1, keyType = AES_KEY_DEFAULT, bodyData = [0x61]\<rparr>"

theorem packet_round_trip_witness:
  "\<exists>buf len d'. createSendSocketData plain_sdk heart_beat_request power_on = Some (Some (buf, len), d')
     \<and> lum_checkSocketBeforeAES len buf = Some True"
proof -
  have k: "keys_ok power_on" "sendable heart_beat_request" "\<not> lum_getUdpLogFlag power_on"
    "keyType heart_beat_request = getSocketAesKeyType MSG_FROM_UDP (bEncrypt heart_beat_request AND 1) power_on"
    by (simp_all add: keys_ok_def power_on_def zero_global_def heart_beat_request_def sendable_def
        lum_getUdpLogFlag_def zero_config_def getSocketAesKeyType_def)
  obtain r d' where r: "createSendSocketData plain_sdk heart_beat_request power_on = Some (r, d')"
    "r \<noteq> None"
    using createSendSocketData_total [OF k(1,2,3), of plain_sdk]
    by (fastforce simp: plain_sdk_def split: option.splits)
  then obtain buf len where "r = Some (buf, len)" by auto
  then show ?thesis
    using r(1) packet_round_trip [OF k(1,2,4,3) refl refl, of plain_sdk buf len d'] by auto
qed

text \<open>A packet for \<open>d\<close> whose secret part is the block \<open>x\<close>, encrypted with the key in use.\<close>

definition forged :: "aes_key_type \<Rightarrow> u8 list \<Rightarrow> u8 list \<Rightarrow> device \<Rightarrow> u8 list" where
  "forged kt mac x d = [SOCKET_HEADER_PV, 0x40] @ mac @ [16]
     @ fst (AesCbcEncrypt (snd (AesSetKey fresh_aes (key_of kt d) 16 (Some (key_of kt d)) AES_ENCRYPTION)) x 16)"



end
