(* ===== verification/Send_List.thy ===== *)
theory Send_List
  imports Packet
begin

text \<open>
  The list of packets waiting to be sent (\<open>socketSendList.c\<close>) and the two functions that put
  them on the network (\<open>sendUdpData\<close> of \<open>localSocketUdp.c\<close>, \<open>sendTcpData\<close> of
  \<open>serverSocketTcp.c\<close>).  \<open>sends d q\<close> says that the list holds the nodes and packets \<open>q\<close> in
  this order; the operations are shown to implement the queue of \<open>Linked_List\<close> on it.
\<close>

abbreviation (input) SIZEOF_SEND_NODE :: nat where "SIZEOF_SEND_NODE \<equiv> 36"
abbreviation (input) "MAX_RESEND_COUNT \<equiv> 4"
abbreviation (input) "MAX_FAILD_COUNT \<equiv> 4"
abbreviation (input) "MAX_RESEND_INTERVAL \<equiv> 8"
abbreviation (input) "SOCKET_READ_ENABLE \<equiv> 0x01"
abbreviation (input) "SOCKET_WRITE_ENABLE \<equiv> 0x02"
abbreviation (input) "UDP_SOCKET_PORT \<equiv> 18530"
abbreviation (input) "SEND_REQUST \<equiv> 0"
abbreviation (input) "MSG_CMD_REPORT_ENERGY_DATA \<equiv> 0x08"
abbreviation (input) "MSG_CMD_GET_CALIBRATE_DATA \<equiv> 0xFE"

section \<open>The list\<close>

definition sendListInit :: "device \<Rightarrow> device" where
  "sendListInit d = call (Mutex_new g_sendList_mutex)
     (d\<lparr>sendList := (sendList d)\<lparr>firstNodePtr := None, noteCount := 0\<rparr>\<rparr>)"

definition insertSendListNode :: "nat \<Rightarrow> device \<Rightarrow> device option" where
  "insertSendListNode pNode d = do {
     let d1 = call (Mutex_lock g_sendList_mutex) d;
     l \<leftarrow> link_send_node pNode (sendList d1);
     Some (call (Mutex_unlock g_sendList_mutex) (d1\<lparr>sendList := l\<rparr>))
   }"

definition freeSendNodeMemory :: "send_node_data \<Rightarrow> device \<Rightarrow> device" where
  "freeSendNodeMemory b d =
     FreeSocketData (if sendData b \<noteq> None then FreeSocketData d else d)"

definition deleteSendListNode :: "nat option \<Rightarrow> device \<Rightarrow> (bool \<times> device) option" where
  "deleteSendListNode pNode d =
     (let d1 = call (Mutex_lock g_sendList_mutex) d
      in case (firstNodePtr (sendList d1), pNode) of
        (Some _, Some p) \<Rightarrow> do {
          (ret, l) \<leftarrow> unlink_node p (sendList d1);
          let d2 = d1\<lparr>sendList := l\<rparr>;
          let d3 = (if ret then (case node_body (sendList d1) p of None \<Rightarrow> d2
                                 | Some b \<Rightarrow> freeSendNodeMemory b d2) else d2);
          Some (ret, call (Mutex_unlock g_sendList_mutex) d3)
        }
      | _ \<Rightarrow> Some (False, call (Mutex_unlock g_sendList_mutex) d1))"

text \<open>The search for the request a reply belongs to; \<open>None\<close> when a dangling link is followed.\<close>

partial_function (option) find_send_node ::
    "u16 \<Rightarrow> send_node_data node_heap \<Rightarrow> nat option \<Rightarrow> nat option option" where
  "find_send_node sn h p =
     (case p of None \<Rightarrow> Some None
      | Some a \<Rightarrow> Option.bind (h a) (\<lambda>c.
          if sendSn (fst c) = sn then Some (Some a) else find_send_node sn h (snd c)))"

definition deleteRequstSendNode :: "u16 \<Rightarrow> device \<Rightarrow> (bool \<times> device) option" where
  "deleteRequstSendNode snIndx d = do {
     r \<leftarrow> find_send_node snIndx (cells (sendList d)) (firstNodePtr (sendList d));
     case r of None \<Rightarrow> Some (False, d)
     | Some a \<Rightarrow> do {
         (_, d1) \<leftarrow> deleteSendListNode (Some a) d;
         Some (True, d1)
       }
   }"

definition put_send_node :: "send_node_data \<Rightarrow> device \<Rightarrow> nat \<times> device" where
  "put_send_node b d = (nextAddr d,
     d\<lparr>sendList := new_node (nextAddr d) b (sendList d), nextAddr := nextAddr d + 1\<rparr>)"

definition addSendDataToNode :: "sdk \<Rightarrow> send_node_data \<Rightarrow> device \<Rightarrow> (bool \<times> device) option" where
  "addSendDataToNode E b d =
     (if sendOrigin b \<noteq> MSG_FROM_UDP \<and> sendOrigin b \<noteq> MSG_FROM_TCP then Some (False, d)
      else let (node, d1) = mallocSocketData E SIZEOF_SEND_NODE d
      in if node = None then Some (False, d1)
      else let (p, d2) = put_send_node b d1 in do {
        d3 \<leftarrow> insertSendListNode p d2;
        Some (True, d3)
      })"

text \<open>The successor is read before the node is deleted.\<close>

partial_function (option) delete_tcp_nodes :: "nat option \<Rightarrow> device \<Rightarrow> device option" where
  "delete_tcp_nodes p d =
     (case p of None \<Rightarrow> Some d
      | Some a \<Rightarrow> Option.bind (cells (sendList d) a) (\<lambda>c.
          if sendOrigin (fst c) = MSG_FROM_TCP
          then Option.bind (deleteSendListNode (Some a) d) (\<lambda>r. delete_tcp_nodes (snd c) (snd r))
          else delete_tcp_nodes (snd c) d))"

definition lum_delAllTcpWhileReconnServer :: "device \<Rightarrow> device option" where
  "lum_delAllTcpWhileReconnServer d = delete_tcp_nodes (firstNodePtr (sendList d)) d"

section \<open>The network\<close>

text \<open>An empty descriptor set (no socket) only waits for the timeout.\<close>

definition socketSelectRead :: "sdk \<Rightarrow> int \<Rightarrow> nat \<Rightarrow> device \<Rightarrow> u8 \<times> device" where
  "socketSelectRead E sockFd waitSecond d =
     (let d1 = call (Select_read sockFd waitSecond) d
      in (if sockFd \<noteq> -1 \<and> c_select E (trace d1) sockFd then SOCKET_READ_ENABLE else 0, d1))"

definition socketSelectWrite :: "sdk \<Rightarrow> int \<Rightarrow> device \<Rightarrow> u8 \<times> device" where
  "socketSelectWrite E sockFd d =
     (let d1 = call (Select_write sockFd) d
      in (if sockFd \<noteq> -1 \<and> c_select E (trace d1) sockFd then SOCKET_WRITE_ENABLE else 0, d1))"

definition udpSocketSendData :: "u8 list \<Rightarrow> int \<Rightarrow> u32 \<Rightarrow> device \<Rightarrow> device" where
  "udpSocketSendData bs fd ip d = call (Mutex_unlock g_udp_socket_mutex)
     (call (Socket_sendto fd (htons UDP_SOCKET_PORT) ip bs) (call (Mutex_lock g_udp_socket_mutex) d))"

definition tcpSocketSendData :: "u8 list \<Rightarrow> int \<Rightarrow> device \<Rightarrow> device" where
  "tcpSocketSendData bs fd d = call (Mutex_unlock g_tcp_socket_mutex)
     (call (Socket_send fd bs) (call (Mutex_lock g_tcp_socket_mutex) d))"

text \<open>What \<open>sendto\<close> and \<open>send\<close> answer is dropped.\<close>

definition sendUdpData :: "u8 list option \<Rightarrow> nat \<Rightarrow> u32 \<Rightarrow> device \<Rightarrow> (bool \<times> device) option" where
  "sendUdpData sendBuf len ip d =
     (if \<not> getDeviceConnectInfo DHPC_OK_BIT d then Some (False, d)
      else do {
        buf \<leftarrow> sendBuf;
        bs \<leftarrow> rds buf 0 len;
        Some (True, udpSocketSendData bs (udpSocketFd d) ip d)
      })"

definition sendTcpData :: "u8 list option \<Rightarrow> nat \<Rightarrow> device \<Rightarrow> (bool \<times> device) option" where
  "sendTcpData sendBuf len d =
     (if tcpSocketFd d = -1 \<or> \<not> getDeviceConnectInfo DHPC_OK_BIT d then Some (False, d)
      else do {
        buf \<leftarrow> sendBuf;
        bs \<leftarrow> rds buf 0 len;
        Some (True, tcpSocketSendData bs (tcpSocketFd d) d)
      })"

section \<open>One pass over the list\<close>

definition needWaitSocketReback :: "u8 \<Rightarrow> bool" where
  "needWaitSocketReback cmd \<longleftrightarrow> cmd \<notin> {MSG_CMD_REPORT_GPIO_CHANGE, MSG_CMD_REPORT_ENERGY_DATA,
     MSG_CMD_DEVICE_RESET_FACTORY, MSG_CMD_GET_CALIBRATE_DATA}"

text \<open>Writing the fields of a node in place.\<close>

definition set_send_body :: "nat \<Rightarrow> send_node_data \<Rightarrow> device \<Rightarrow> device option" where
  "set_send_body a b d = map_option
     (\<lambda>c. d\<lparr>sendList := (sendList d)\<lparr>cells := (cells (sendList d))(a \<mapsto> (b, snd c))\<rparr>\<rparr>)
     (cells (sendList d) a)"

text \<open>
  After a transmission: a request that waits for its reply stays until its fourth
  transmission, everything else is done with; after a failure the node stays until the fourth.
\<close>

definition after_send :: "bool \<Rightarrow> u32 \<Rightarrow> nat \<Rightarrow> send_node_data \<Rightarrow> device \<Rightarrow> device option" where
  "after_send sendSuccess curTime a b d =
     (if sendSuccess
      then if sendReback b = SEND_REQUST \<and> needWaitSocketReback (sendCmd b)
        then let b1 = b\<lparr>faildTimes := 0, sendCount := sendCount b + 1\<rparr>
          in if sendCount b1 \<ge> MAX_RESEND_COUNT
             then do { d1 \<leftarrow> set_send_body a b1 d; map_option snd (deleteSendListNode (Some a) d1) }
             else set_send_body a (b1\<lparr>nextSendTime := curTime + MAX_RESEND_INTERVAL\<rparr>) d
        else map_option snd (deleteSendListNode (Some a) d)
      else let b1 = b\<lparr>faildTimes := faildTimes b + 1\<rparr>
        in if faildTimes b1 \<ge> MAX_FAILD_COUNT
           then do { d1 \<leftarrow> set_send_body a b1 d; map_option snd (deleteSendListNode (Some a) d1) }
           else set_send_body a (b1\<lparr>nextSendTime := curTime + MAX_RESEND_INTERVAL\<rparr>) d)"

partial_function (option) send_loop ::
    "sdk \<Rightarrow> int \<Rightarrow> int \<Rightarrow> u32 \<Rightarrow> nat option \<Rightarrow> device \<Rightarrow> (bool \<times> device) option" where
  "send_loop E tcpSockFd udpSockFd curTime p d =
     (case p of None \<Rightarrow> Some (False, d)
      | Some a \<Rightarrow> Option.bind (cells (sendList d) a) (\<lambda>c.
          let b = fst c in
          if sendOrigin b \<noteq> MSG_FROM_UDP \<and> sendOrigin b \<noteq> MSG_FROM_TCP
          then Option.bind (deleteSendListNode (Some a) d)
                 (\<lambda>r. send_loop E tcpSockFd udpSockFd curTime (snd c) (snd r))
          else if nextSendTime b = 0 \<or> nextSendTime b < curTime
          then let (ready, d1) = socketSelectWrite E
                      (if sendOrigin b = MSG_FROM_UDP then udpSockFd else tcpSockFd) d
            in if ready = 0
               then Option.bind
                 (set_send_body a (b\<lparr>nextSendTime := curTime + MAX_RESEND_INTERVAL div 2\<rparr>) d1)
                 (send_loop E tcpSockFd udpSockFd curTime (snd c))
               else do {
                 (sendSuccess, d2) \<leftarrow>
                   (if sendOrigin b = MSG_FROM_UDP
                    then sendUdpData (sendData b) (unat (sendLen b)) (sendIp b) d1
                    else sendTcpData (sendData b) (unat (sendLen b)) d1);
                 d3 \<leftarrow> after_send sendSuccess curTime a b d2;
                 Some (sendSuccess, d3)
               }
          else send_loop E tcpSockFd udpSockFd curTime (snd c) d))"

definition sendSocketData :: "sdk \<Rightarrow> int \<Rightarrow> int \<Rightarrow> device \<Rightarrow> (bool \<times> device) option" where
  "sendSocketData E tcpSockFd udpSockFd d =
     (let p = firstNodePtr (sendList d);
          (curTime, d1) = lum_getSystemTime E d
      in if \<not> getDeviceConnectInfo DHPC_OK_BIT d1 then Some (False, d1)
         else send_loop E tcpSockFd udpSockFd curTime p d1)"

section \<open>The abstract queue\<close>

definition sends :: "device \<Rightarrow> (nat \<times> send_node_data) list \<Rightarrow> bool" where
  "sends d q \<longleftrightarrow> send_queue.contents (sendList d) q \<and> (\<forall>x \<in> set q. fst x < nextAddr d)"

definition head_ptr :: "(nat \<times> 'b) list \<Rightarrow> nat option" where
  "head_ptr q = (case q of [] \<Rightarrow> None | x # _ \<Rightarrow> Some (fst x))"

lemma head_ptr_simps [simp]: "head_ptr [] = None" "head_ptr (x # q) = Some (fst x)"
  by (simp_all add: head_ptr_def)

lemma sends_cong:
  "sendList d' = sendList d \<Longrightarrow> nextAddr d' = nextAddr d \<Longrightarrow> sends d' q = sends d q"
  by (simp add: sends_def)

lemma sends_frame [simp]:
  "sends (call c d) q = sends d q" "sends (upd_global f d) q = sends d q"
  "sends (upd_config g d) q = sends d q" "sends (FreeSocketData d) q = sends d q"
  by (rule sends_cong; simp)+

lemma sends_init: "sends (sendListInit d) []"
  by (simp add: sends_def send_queue.contents_def sendListInit_def list_ok_def)

lemma chain_at:
  "chain h p (xs @ a # ys) \<Longrightarrow> \<exists>b. h a = Some (b, case ys of [] \<Rightarrow> None | y # _ \<Rightarrow> Some y)"
proof (induction xs arbitrary: p)
  case Nil
  then show ?case by (cases ys) (auto split: option.splits)
next
  case (Cons x xs)
  then show ?case by (auto split: option.splits)
qed

lemma chain_set_body:
  "h a = Some (b0, n) \<Longrightarrow> chain h p as \<Longrightarrow> chain (h(a \<mapsto> (b, n))) p as"
  by (induction as arbitrary: p) (auto split: option.splits)

lemma sends_head: "sends d q \<Longrightarrow> firstNodePtr (sendList d) = head_ptr q"
  by (cases q) (auto simp: sends_def send_queue.contents_def list_ok_def)

lemma sends_distinct: "sends d q \<Longrightarrow> distinct (map fst q)"
  using send_queue.contents_distinct by (auto simp: sends_def)

lemma sends_cell:
  assumes "sends d (xs @ (a, b) # ys)"
  shows "cells (sendList d) a = Some (b, head_ptr ys)"
proof -
  have c: "chain (cells (sendList d)) (firstNodePtr (sendList d)) (map fst xs @ a # map fst ys)"
    and b: "node_body (sendList d) a = Some b"
    using assms by (auto simp: sends_def send_queue.contents_def list_ok_def)
  from chain_at [OF c] b show ?thesis
    by (cases ys) (auto simp: node_body_def)
qed

lemma sends_set_body:
  assumes "sends d (xs @ (a, b0) # ys)"
  obtains l where "set_send_body a b d = Some (d\<lparr>sendList := l\<rparr>)"
    "sends (d\<lparr>sendList := l\<rparr>) (xs @ (a, b) # ys)"
proof -
  let ?l = "(sendList d)\<lparr>cells := (cells (sendList d))(a \<mapsto> (b, head_ptr ys))\<rparr>"
  note c = sends_cell [OF assms]
  have "list_ok ?l (map fst (xs @ (a, b) # ys))"
    using assms chain_set_body [where h = "cells (sendList d)" and b = b, OF c]
    by (simp add: sends_def send_queue.contents_def list_ok_def)
  moreover have "\<forall>x \<in> set (xs @ ys). node_body ?l (fst x) = Some (snd x)"
    using assms sends_distinct [OF assms]
    by (auto simp: sends_def send_queue.contents_def node_body_def rev_image_eqI)
  ultimately have "sends (d\<lparr>sendList := ?l\<rparr>) (xs @ (a, b) # ys)"
    using assms by (auto simp: sends_def send_queue.contents_def node_body_def)
  then show ?thesis using c by (intro that [of ?l]) (simp_all add: set_send_body_def)
qed

lemma filter_one: "distinct (map fst (xs @ (a, b) # ys)) \<Longrightarrow>
    filter (\<lambda>x. fst x \<noteq> a) (xs @ (a, b) # ys) = xs @ ys"
proof -
  assume "distinct (map fst (xs @ (a, b) # ys))"
  then have "\<forall>x \<in> set xs. fst x \<noteq> a" "\<forall>x \<in> set ys. fst x \<noteq> a" by force+
  then show ?thesis by (simp add: filter_True)
qed

lemma sends_delete:
  assumes "sends d (xs @ (a, b) # ys)"
  obtains l where "deleteSendListNode (Some a) d = Some (True, call (Mutex_unlock g_sendList_mutex)
      (freeSendNodeMemory b (call (Mutex_lock g_sendList_mutex) d\<lparr>sendList := l\<rparr>)))"
    "sends (call (Mutex_unlock g_sendList_mutex)
      (freeSendNodeMemory b (call (Mutex_lock g_sendList_mutex) d\<lparr>sendList := l\<rparr>))) (xs @ ys)"
proof -
  obtain l where l: "unlink_node a (sendList d) = Some (True, l)"
    "send_queue.contents l (xs @ ys)"
    using send_queue.del_contents [of "sendList d" "xs @ (a, b) # ys" a] assms
      filter_one [OF sends_distinct [OF assms]] by (auto simp: sends_def)
  obtain f where "firstNodePtr (sendList d) = Some f"
    using sends_head [OF assms] by (cases xs) auto
  then show ?thesis using l sends_cell [OF assms] assms
    by (intro that [of l])
      (auto simp: deleteSendListNode_def node_body_def Let_def sends_def freeSendNodeMemory_def)
qed

text \<open>What is left alone by everything in this theory.\<close>

definition net_core :: "device \<Rightarrow> device" where
  "net_core d = (core d)\<lparr>sendList := sendList power_on\<rparr>"

lemma net_core_simps [simp]:
  "net_core (call c d) = net_core d" "net_core (FreeSocketData d) = net_core d"
  "net_core (d\<lparr>sendList := l\<rparr>) = net_core d"
  "net_core (freeSendNodeMemory b d) = net_core d"
  by (simp_all add: net_core_def freeSendNodeMemory_def) (simp add: core_def)

lemma net_core_connInfo:
  assumes "net_core d' = net_core d"
  shows "getDeviceConnectInfo c d' = getDeviceConnectInfo c d" "tcpSocketFd d' = tcpSocketFd d"
    "udpSocketFd d' = udpSocketFd d" "deviceConfigData d' = deviceConfigData d"
proof -
  have "connInfo (globalData d') = connInfo (globalData d)"
    using arg_cong [OF assms, of "connInfo \<circ> globalData"] by (simp add: net_core_def core_def)
  then show "getDeviceConnectInfo c d' = getDeviceConnectInfo c d"
    by (rule getDeviceConnectInfo_cong)
  show "tcpSocketFd d' = tcpSocketFd d" "udpSocketFd d' = udpSocketFd d"
    "deviceConfigData d' = deviceConfigData d"
    using arg_cong [OF assms, of tcpSocketFd] arg_cong [OF assms, of udpSocketFd]
      arg_cong [OF assms, of deviceConfigData] by (simp_all add: net_core_def core_def)
qed

text \<open>
  Operations on the sending side that neither queue messages nor touch the configuration, the
  relay or anything else of the run-time data.
\<close>

definition send_frame :: "device \<Rightarrow> device \<Rightarrow> bool" where
  "send_frame d d' \<longleftrightarrow> net_core d' = net_core d \<and> msgList d' = msgList d \<and> nextAddr d' = nextAddr d
     \<and> last_saved (trace d') = last_saved (trace d) \<and> relay_level (trace d') = relay_level (trace d)"

lemma send_frame_refl [simp]: "send_frame d d"
  by (simp add: send_frame_def)

lemma send_frame_trans: "send_frame a b \<Longrightarrow> send_frame b c \<Longrightarrow> send_frame a c"
  by (simp add: send_frame_def)

lemma send_frameD:
  assumes "send_frame d d'"
  shows "net_core d' = net_core d" "msgList d' = msgList d" "nextAddr d' = nextAddr d"
    "last_saved (trace d') = last_saved (trace d)" "relay_level (trace d') = relay_level (trace d)"
  using assms by (simp_all add: send_frame_def)

text \<open>The packets on the network, latest first.\<close>

fun sent_packets :: "sdk_call list \<Rightarrow> u8 list list" where
  "sent_packets [] = []"
| "sent_packets (Socket_send fd bs # tr) = bs # sent_packets tr"
| "sent_packets (Socket_sendto fd pt ip bs # tr) = bs # sent_packets tr"
| "sent_packets (_ # tr) = sent_packets tr"

lemma deleteSendListNode_sends:
  assumes "sends d (xs @ (a, b) # ys)"
  obtains d' where "deleteSendListNode (Some a) d = Some (True, d')" "sends d' (xs @ ys)"
    "send_frame d d'" "sent_packets (trace d') = sent_packets (trace d)"
proof -
  obtain l where l: "deleteSendListNode (Some a) d = Some (True, call (Mutex_unlock g_sendList_mutex)
      (freeSendNodeMemory b (call (Mutex_lock g_sendList_mutex) d\<lparr>sendList := l\<rparr>)))"
    "sends (call (Mutex_unlock g_sendList_mutex)
      (freeSendNodeMemory b (call (Mutex_lock g_sendList_mutex) d\<lparr>sendList := l\<rparr>))) (xs @ ys)"
    using sends_delete [OF assms] .
  show ?thesis by (rule that [OF l]) (simp_all add: send_frame_def freeSendNodeMemory_def)
qed

text \<open>The first packet with serial number \<open>sn\<close> is removed.\<close>

primrec drop_request :: "u16 \<Rightarrow> (nat \<times> send_node_data) list \<Rightarrow> (nat \<times> send_node_data) list" where
  "drop_request sn [] = []"
| "drop_request sn (x # q) = (if sendSn (snd x) = sn then q else x # drop_request sn q)"

lemma find_send_node_sends:
  assumes "sends d (xs @ ys)" "\<forall>x \<in> set xs. sendSn (snd x) \<noteq> sn"
  shows "(find_send_node sn (cells (sendList d)) (head_ptr ys) = Some None \<and> drop_request sn ys = ys)
    \<or> (\<exists>us a b vs. find_send_node sn (cells (sendList d)) (head_ptr ys) = Some (Some a)
        \<and> ys = us @ (a, b) # vs \<and> drop_request sn ys = us @ vs)"
  using assms
proof (induction ys arbitrary: xs)
  case Nil
  then show ?case by (subst find_send_node.simps) simp
next
  case (Cons y ys)
  obtain a b where y: "y = (a, b)" by fastforce
  have c: "cells (sendList d) a = Some (b, head_ptr ys)"
    using sends_cell [of d xs a b ys] Cons.prems(1) by (simp add: y)
  show ?case
  proof (cases "sendSn b = sn")
    case True
    then have "find_send_node sn (cells (sendList d)) (head_ptr (y # ys)) = Some (Some a)"
      using c y by (subst find_send_node.simps) simp
    then show ?thesis using y True by (metis append_Nil drop_request.simps(2) snd_conv)
  next
    case False
    then have f: "find_send_node sn (cells (sendList d)) (head_ptr (y # ys))
        = find_send_node sn (cells (sendList d)) (head_ptr ys)"
      using c y by (subst find_send_node.simps) simp
    have "(find_send_node sn (cells (sendList d)) (head_ptr ys) = Some None \<and> drop_request sn ys = ys)
      \<or> (\<exists>us a b vs. find_send_node sn (cells (sendList d)) (head_ptr ys) = Some (Some a)
          \<and> ys = us @ (a, b) # vs \<and> drop_request sn ys = us @ vs)"
      by (rule Cons.IH [of "xs @ [y]"]) (use Cons.prems False y in auto)
    then show ?thesis unfolding f using False y by (auto; metis append_Cons)
  qed
qed

lemma deleteRequstSendNode_sends:
  assumes "sends d q"
  obtains r d' where "deleteRequstSendNode sn d = Some (r, d')" "sends d' (drop_request sn q)"
    "send_frame d d'" "sent_packets (trace d') = sent_packets (trace d)"
proof -
  from find_send_node_sends [of d "[]" q sn] assms sends_head [OF assms]
  consider "find_send_node sn (cells (sendList d)) (firstNodePtr (sendList d)) = Some None"
      "drop_request sn q = q"
    | us a b vs where "find_send_node sn (cells (sendList d)) (firstNodePtr (sendList d)) = Some (Some a)"
      "q = us @ (a, b) # vs" "drop_request sn q = us @ vs"
    by auto
  then show ?thesis
  proof cases
    case 1
    then show ?thesis using assms by (intro that [of False d]) (simp_all add: deleteRequstSendNode_def)
  next
    case 2
    obtain d' where "deleteSendListNode (Some a) d = Some (True, d')" "sends d' (us @ vs)"
      "send_frame d d'" "sent_packets (trace d') = sent_packets (trace d)"
      using deleteSendListNode_sends [OF assms [unfolded 2(2)]] .
    then show ?thesis using 2 by (intro that [of True d']) (simp_all add: deleteRequstSendNode_def)
  qed
qed

lemma delete_tcp_nodes_sends:
  assumes "sends d (xs @ ys)"
  shows "\<exists>d'. delete_tcp_nodes (head_ptr ys) d = Some d'
    \<and> sends d' (xs @ filter (\<lambda>x. sendOrigin (snd x) \<noteq> MSG_FROM_TCP) ys)
    \<and> send_frame d d' \<and> sent_packets (trace d') = sent_packets (trace d)"
  using assms
proof (induction ys arbitrary: xs d)
  case Nil
  then show ?case by (subst delete_tcp_nodes.simps) simp
next
  case (Cons y ys)
  obtain a b where y: "y = (a, b)" by fastforce
  have c: "cells (sendList d) a = Some (b, head_ptr ys)"
    using sends_cell [of d xs a b ys] Cons.prems(1) by (simp add: y)
  show ?case
  proof (cases "sendOrigin b = MSG_FROM_TCP")
    case True
    obtain d1 where d1: "deleteSendListNode (Some a) d = Some (True, d1)" "sends d1 (xs @ ys)"
      "send_frame d d1" "sent_packets (trace d1) = sent_packets (trace d)"
      using deleteSendListNode_sends [of d xs a b ys] Cons.prems(1) y by auto
    show ?thesis using Cons.IH [OF d1(2)] d1 c True y
      by (subst delete_tcp_nodes.simps) (auto intro: send_frame_trans)
  next
    case False
    show ?thesis using Cons.IH [of d "xs @ [y]"] Cons.prems c False y
      by (subst delete_tcp_nodes.simps) simp
  qed
qed

lemma lum_delAllTcp_sends:
  assumes "sends d q"
  obtains d' where "lum_delAllTcpWhileReconnServer d = Some d'"
    "sends d' (filter (\<lambda>x. sendOrigin (snd x) \<noteq> MSG_FROM_TCP) q)"
    "send_frame d d'" "sent_packets (trace d') = sent_packets (trace d)"
  using delete_tcp_nodes_sends [of d "[]" q] assms sends_head [OF assms]
  by (auto simp: lum_delAllTcpWhileReconnServer_def)

lemma insertSendListNode_sends:
  assumes "sends d q"
  obtains d' where "insertSendListNode (nextAddr d) (snd (put_send_node b d)) = Some d'"
    "sends d' (q @ [(nextAddr d, b)])" "net_core d' = net_core d" "nextAddr d' = nextAddr d + 1"
    "sent_packets (trace d') = sent_packets (trace d)" "msgList d' = msgList d"
proof -
  have "nextAddr d \<notin> fst ` set q" using assms by (auto simp: sends_def)
  then obtain l where l: "add_send_node (nextAddr d) b (sendList d) = Some l"
    "send_queue.contents l (q @ [(nextAddr d, b)])"
    using send_queue.add_contents [of "sendList d" q "nextAddr d" b] assms by (auto simp: sends_def)
  have "net_core (d\<lparr>sendList := l', nextAddr := n\<rparr>) = net_core d" for l' n
    by (simp add: net_core_def core_def)
  then show ?thesis using l assms
    by (intro that [of "call (Mutex_unlock g_sendList_mutex) (call (Mutex_lock g_sendList_mutex)
        (snd (put_send_node b d))\<lparr>sendList := l\<rparr>)"])
      (auto simp: insertSendListNode_def put_send_node_def add_send_node_def sends_def)
qed

section \<open>One pass, abstractly\<close>

text \<open>
  What is worth sending, what is sent, and what remains of a packet after its transmission.
\<close>

definition packet_ok :: "send_node_data \<Rightarrow> bool" where
  "packet_ok b \<longleftrightarrow> sendOrigin b \<noteq> MSG_LOCAL_EVENT \<and> sendCount b < MAX_RESEND_COUNT
     \<and> (case sendData b of None \<Rightarrow> False | Some buf \<Rightarrow> unat (sendLen b) \<le> length buf)"

definition due :: "u32 \<Rightarrow> send_node_data \<Rightarrow> bool" where
  "due t b \<longleftrightarrow> nextSendTime b = 0 \<or> nextSendTime b < t"

definition payload :: "send_node_data \<Rightarrow> u8 list" where
  "payload b = take (unat (sendLen b)) (the (sendData b))"

definition awaits_reply :: "send_node_data \<Rightarrow> bool" where
  "awaits_reply b \<longleftrightarrow> sendReback b = SEND_REQUST \<and> needWaitSocketReback (sendCmd b)"

definition remains :: "u32 \<Rightarrow> nat \<Rightarrow> send_node_data \<Rightarrow> (nat \<times> send_node_data) list" where
  "remains t a b = (if awaits_reply b \<and> sendCount b + 1 < MAX_RESEND_COUNT
     then [(a, b\<lparr>faildTimes := 0, sendCount := sendCount b + 1,
             nextSendTime := t + MAX_RESEND_INTERVAL\<rparr>)] else [])"

text \<open>
  One pass at time \<open>t\<close>: packets that are not due are skipped, a due packet whose socket is
  busy (only if \<open>blk\<close>) is put off by four seconds, and the first other due packet is sent and
  ends the pass.
\<close>

inductive send_pass :: "bool \<Rightarrow> u32 \<Rightarrow> (nat \<times> send_node_data) list \<Rightarrow> u8 list option
    \<Rightarrow> (nat \<times> send_node_data) list \<Rightarrow> bool" for blk t where
  finish: "send_pass blk t [] None []"
| skip: "\<not> due t b \<Longrightarrow> send_pass blk t q x q' \<Longrightarrow> send_pass blk t ((a, b) # q) x ((a, b) # q')"
| busy: "blk \<Longrightarrow> due t b \<Longrightarrow> send_pass blk t q x q' \<Longrightarrow>
    send_pass blk t ((a, b) # q) x ((a, b\<lparr>nextSendTime := t + 4\<rparr>) # q')"
| transmit: "due t b \<Longrightarrow> send_pass blk t ((a, b) # q) (Some (payload b)) (remains t a b @ q)"

lemma after_send_sends:
  assumes "sends d (xs @ (a, b) # ys)" "packet_ok b"
  obtains d' where "after_send True t a b d = Some d'" "sends d' (xs @ remains t a b @ ys)"
    "send_frame d d'" "sent_packets (trace d') = sent_packets (trace d)"
proof (cases "awaits_reply b")
  case False
  obtain d' where "deleteSendListNode (Some a) d = Some (True, d')" "sends d' (xs @ ys)"
    "send_frame d d'" "sent_packets (trace d') = sent_packets (trace d)"
    using deleteSendListNode_sends [OF assms(1)] .
  then show ?thesis using False
    by (intro that [of d']) (auto simp: after_send_def awaits_reply_def remains_def)
next
  case wait: True
  let ?b = "b\<lparr>faildTimes := 0, sendCount := sendCount b + 1\<rparr>"
  show ?thesis
  proof (cases "sendCount b + 1 < 4")
    case True
    obtain l where "set_send_body a (?b\<lparr>nextSendTime := t + 8\<rparr>) d = Some (d\<lparr>sendList := l\<rparr>)"
      "sends (d\<lparr>sendList := l\<rparr>) (xs @ (a, ?b\<lparr>nextSendTime := t + 8\<rparr>) # ys)"
      using sends_set_body [OF assms(1)] .
    moreover have "\<not> 4 \<le> sendCount b + 1" using True by simp
    ultimately show ?thesis using True wait
      by (intro that [of "d\<lparr>sendList := l\<rparr>"])
        (auto simp: after_send_def awaits_reply_def remains_def send_frame_def Let_def)
  next
    case False
    obtain l where l: "set_send_body a ?b d = Some (d\<lparr>sendList := l\<rparr>)"
      "sends (d\<lparr>sendList := l\<rparr>) (xs @ (a, ?b) # ys)"
      using sends_set_body [OF assms(1)] .
    obtain d' where d': "deleteSendListNode (Some a) (d\<lparr>sendList := l\<rparr>) = Some (True, d')"
      "sends d' (xs @ ys)" "send_frame (d\<lparr>sendList := l\<rparr>) d'"
      "sent_packets (trace d') = sent_packets (trace (d\<lparr>sendList := l\<rparr>))"
      using deleteSendListNode_sends [OF l(2)] .
    moreover have "4 \<le> sendCount b + 1" using False by simp
    ultimately show ?thesis using False wait l
      by (intro that [of d'])
        (auto simp: after_send_def awaits_reply_def remains_def send_frame_def Let_def)
  qed
qed

lemma transmit_packet:
  assumes dhcp: "getDeviceConnectInfo DHPC_OK_BIT d" and b: "packet_ok b"
    and fd: "sendOrigin b = MSG_FROM_TCP \<Longrightarrow> tcpSocketFd d \<noteq> -1"
  obtains d' where "(if sendOrigin b = MSG_FROM_UDP
      then sendUdpData (sendData b) (unat (sendLen b)) (sendIp b) d
      else sendTcpData (sendData b) (unat (sendLen b)) d) = Some (True, d')"
    "send_frame d d'" "sendList d' = sendList d"
    "sent_packets (trace d') = payload b # sent_packets (trace d)"
proof -
  obtain buf where "sendData b = Some buf" "unat (sendLen b) \<le> length buf"
    and o: "sendOrigin b \<noteq> MSG_LOCAL_EVENT"
    using b by (auto simp: packet_ok_def split: option.splits)
  then have r: "rds buf 0 (unat (sendLen b)) = Some (payload b)" "sendData b = Some buf"
    by (simp_all add: rds_def payload_def)
  show ?thesis
  proof (cases "sendOrigin b = MSG_FROM_UDP")
    case True
    with r dhcp show ?thesis
      by (intro that [of "udpSocketSendData (payload b) (udpSocketFd d) (sendIp b) d"])
        (simp_all add: sendUdpData_def udpSocketSendData_def send_frame_def)
  next
    case False
    then have "tcpSocketFd d \<noteq> -1" using fd o by (cases "sendOrigin b") auto
    with r dhcp False show ?thesis
      by (intro that [of "tcpSocketSendData (payload b) (tcpSocketFd d) d"])
        (simp_all add: sendTcpData_def tcpSocketSendData_def send_frame_def)
  qed
qed

text \<open>Both sockets exist and are always writable.\<close>

definition never_busy :: "sdk \<Rightarrow> int \<Rightarrow> int \<Rightarrow> bool" where
  "never_busy E tcpFd udpFd \<longleftrightarrow> tcpFd \<noteq> -1 \<and> udpFd \<noteq> -1 \<and> (\<forall>tr. c_select E tr tcpFd \<and> c_select E tr udpFd)"

lemma send_loop_pass:
  assumes "sends d (xs @ ys)" "\<forall>x \<in> set ys. packet_ok (snd x)"
    "getDeviceConnectInfo DHPC_OK_BIT d" "tcpFd = tcpSocketFd d"
  shows "\<exists>r d' ys' x. send_loop E tcpFd udpFd t (head_ptr ys) d = Some (r, d')
    \<and> sends d' (xs @ ys') \<and> send_pass (\<not> never_busy E tcpFd udpFd) t ys x ys' \<and> r = (x \<noteq> None)
    \<and> sent_packets (trace d') = (case x of None \<Rightarrow> [] | Some p \<Rightarrow> [p]) @ sent_packets (trace d)
    \<and> send_frame d d'"
  using assms
proof (induction ys arbitrary: xs d)
  case Nil
  then show ?case by (subst send_loop.simps) (force intro: send_pass.finish)
next
  case (Cons y ys)
  obtain a b where y: "y = (a, b)" by fastforce
  have c: "cells (sendList d) a = Some (b, head_ptr ys)"
    using sends_cell [of d xs a b ys] Cons.prems(1) by (simp add: y)
  have b: "packet_ok b" and ok: "\<forall>x \<in> set ys. packet_ok (snd x)" using Cons.prems(2) y by auto
  have o: "\<not> (sendOrigin b \<noteq> MSG_FROM_UDP \<and> sendOrigin b \<noteq> MSG_FROM_TCP)"
    using b by (cases "sendOrigin b") (auto simp: packet_ok_def)
  let ?blk = "\<not> never_busy E tcpFd udpFd"
  note unfold = send_loop.simps [of E tcpFd udpFd t "head_ptr (y # ys)" d,
    unfolded head_ptr_simps option.case y fst_conv c Option.bind.bind_lunit Let_def if_not_P [OF o]]
  show ?case
  proof (cases "due t b")
    case False
    then have nd: "\<not> (nextSendTime b = 0 \<or> nextSendTime b < t)" by (simp add: due_def)
    note unf = unfold [unfolded if_not_P [OF nd] snd_conv]
    have "sends d ((xs @ [y]) @ ys)" using Cons.prems(1) by simp
    from Cons.IH [OF this ok Cons.prems(3,4)]
    obtain r d' ys' x where ih: "send_loop E tcpFd udpFd t (head_ptr ys) d = Some (r, d')"
      "sends d' ((xs @ [y]) @ ys')" "send_pass ?blk t ys x ys'" "r = (x \<noteq> None)"
      "sent_packets (trace d') = (case x of None \<Rightarrow> [] | Some p \<Rightarrow> [p]) @ sent_packets (trace d)"
      "send_frame d d'" by blast
    show ?thesis
      using unf ih send_pass.skip [OF False ih(3), of a] y
      by (intro exI [of _ r] exI [of _ d'] exI [of _ "y # ys'"] exI [of _ x]) simp
  next
    case True
    then have nd: "nextSendTime b = 0 \<or> nextSendTime b < t" by (simp add: due_def)
    define fd where "fd = (if sendOrigin b = MSG_FROM_UDP then udpFd else tcpFd)"
    obtain w d1 where w: "socketSelectWrite E fd d = (w, d1)" by fastforce
    note unf = unfold [unfolded if_P [OF nd], folded fd_def, unfolded w prod.case]
    have d1: "sends d1 (xs @ (a, b) # ys)" "send_frame d d1" "tcpSocketFd d1 = tcpSocketFd d"
      "sent_packets (trace d1) = sent_packets (trace d)" "getDeviceConnectInfo DHPC_OK_BIT d1"
      using w Cons.prems(1,3) y
      by (auto simp: socketSelectWrite_def Let_def send_frame_def getDeviceConnectInfo_def
        call_frame simp del: sent_packets.simps) simp_all
    show ?thesis
    proof (cases "w = 0")
      case w0: True
      let ?b = "b\<lparr>nextSendTime := t + 4\<rparr>"
      obtain l where l: "set_send_body a ?b d1 = Some (d1\<lparr>sendList := l\<rparr>)"
        "sends (d1\<lparr>sendList := l\<rparr>) (xs @ (a, ?b) # ys)"
        using sends_set_body [OF d1(1)] .
      have "sends (d1\<lparr>sendList := l\<rparr>) ((xs @ [(a, ?b)]) @ ys)" using l(2) by simp
      moreover have "getDeviceConnectInfo DHPC_OK_BIT (d1\<lparr>sendList := l\<rparr>)"
        using d1(5) by (simp add: getDeviceConnectInfo_def)
      moreover have "tcpFd = tcpSocketFd (d1\<lparr>sendList := l\<rparr>)" using d1(3) Cons.prems(4) by simp
      ultimately obtain r d' ys' x where
        ih: "send_loop E tcpFd udpFd t (head_ptr ys) (d1\<lparr>sendList := l\<rparr>) = Some (r, d')"
        "sends d' ((xs @ [(a, ?b)]) @ ys')" "send_pass ?blk t ys x ys'" "r = (x \<noteq> None)"
        "sent_packets (trace d') = (case x of None \<Rightarrow> [] | Some p \<Rightarrow> [p])
           @ sent_packets (trace (d1\<lparr>sendList := l\<rparr>))"
        "send_frame (d1\<lparr>sendList := l\<rparr>) d'"
        using Cons.IH [of "d1\<lparr>sendList := l\<rparr>" "xs @ [(a, ?b)]"] ok by blast
      have blk: ?blk using w w0
        by (auto simp: never_busy_def socketSelectWrite_def Let_def fd_def split: if_splits)
      have "send_frame d1 (d1\<lparr>sendList := l\<rparr>)" by (simp add: send_frame_def)
      then have "send_frame d d'" using d1(2) ih(6) send_frame_trans by blast
      then show ?thesis
        using unf w0 l(1) ih send_pass.busy [OF blk True ih(3), of a] d1(4) y
        by (intro exI [of _ r] exI [of _ d'] exI [of _ "(a, ?b) # ys'"] exI [of _ x]) simp
    next
      case w1: False
      then have "fd \<noteq> -1" using w by (auto simp: socketSelectWrite_def Let_def split: if_splits)
      then have fdt: "sendOrigin b = MSG_FROM_TCP \<Longrightarrow> tcpSocketFd d1 \<noteq> -1"
        using d1(3) Cons.prems(4) by (simp add: fd_def)
      obtain d2 where d2: "(if sendOrigin b = MSG_FROM_UDP
          then sendUdpData (sendData b) (unat (sendLen b)) (sendIp b) d1
          else sendTcpData (sendData b) (unat (sendLen b)) d1) = Some (True, d2)"
        "send_frame d1 d2" "sendList d2 = sendList d1"
        "sent_packets (trace d2) = payload b # sent_packets (trace d1)"
        using transmit_packet [OF d1(5) b fdt] .
      have s2: "sends d2 (xs @ (a, b) # ys)"
        using d1(1) d2(2,3) sends_cong [of d2 d1] by (simp add: send_frame_def)
      obtain d3 where d3: "after_send True t a b d2 = Some d3" "sends d3 (xs @ remains t a b @ ys)"
        "send_frame d2 d3" "sent_packets (trace d3) = sent_packets (trace d2)"
        using after_send_sends [OF s2 b] .
      have "send_frame d d3" using d1(2) d2(2) d3(3) send_frame_trans by blast
      then show ?thesis
        using unf w1 d2 d3 send_pass.transmit [OF True, of ?blk a ys] d1(4) y
        by (intro exI [of _ True] exI [of _ d3] exI [of _ "remains t a b @ ys"]
          exI [of _ "Some (payload b)"]) simp
    qed
  qed
qed

lemma lum_getSystemTime_sends:
  assumes "lum_getSystemTime E d = (t, d')"
  shows "sends d' q = sends d q" "tcpSocketFd d' = tcpSocketFd d" "udpSocketFd d' = udpSocketFd d"
    "getDeviceConnectInfo c d' = getDeviceConnectInfo c d"
    "sent_packets (trace d') = sent_packets (trace d)" "relay_level (trace d') = relay_level (trace d)"
proof -
  show "getDeviceConnectInfo c d' = getDeviceConnectInfo c d"
    by (rule getDeviceConnectInfo_cong) (simp add: lum_getSystemTime_keeps(2) [OF assms])
  show "sends d' q = sends d q"
    by (rule sends_cong) (simp_all add: lum_getSystemTime_keeps [OF assms])
  show "tcpSocketFd d' = tcpSocketFd d" "udpSocketFd d' = udpSocketFd d"
    "sent_packets (trace d') = sent_packets (trace d)" "relay_level (trace d') = relay_level (trace d)"
    using assms
    by (auto simp: lum_getSystemTime_def Let_def createGetUtcTimer_def restart_timer_def split: if_splits)
qed

lemma sendSocketData_pass:
  "sends d q \<Longrightarrow> \<forall>x \<in> set q. packet_ok (snd x) \<Longrightarrow>
   \<exists>r d' q' x. sendSocketData E (tcpSocketFd d) (udpSocketFd d) d = Some (r, d') \<and> sends d' q'
     \<and> (if getDeviceConnectInfo DHPC_OK_BIT d
        then send_pass (\<not> never_busy E (tcpSocketFd d) (udpSocketFd d)) (fst (lum_getSystemTime E d)) q x q'
        else x = None \<and> q' = q)
     \<and> r = (x \<noteq> None)
     \<and> sent_packets (trace d') = (case x of None \<Rightarrow> [] | Some p \<Rightarrow> [p]) @ sent_packets (trace d)
     \<and> msgList d' = msgList d \<and> nextAddr d' = nextAddr d"
proof -
  assume q: "sends d q" and ok: "\<forall>x \<in> set q. packet_ok (snd x)"
  obtain t d1 where t: "lum_getSystemTime E d = (t, d1)" by fastforce
  note k = lum_getSystemTime_sends [OF t] lum_getSystemTime_keeps [OF t]
  note unf = sendSocketData_def [of E "tcpSocketFd d" "udpSocketFd d" d, unfolded Let_def t prod.case]
  show ?thesis
  proof (cases "getDeviceConnectInfo DHPC_OK_BIT d")
    case False
    then show ?thesis using unf k q by auto
  next
    case True
    obtain r d' ys' x where "send_loop E (tcpSocketFd d) (udpSocketFd d) t (head_ptr q) d1 = Some (r, d')"
      "sends d' ([] @ ys')" "send_pass (\<not> never_busy E (tcpSocketFd d) (udpSocketFd d)) t q x ys'"
      "r = (x \<noteq> None)"
      "sent_packets (trace d') = (case x of None \<Rightarrow> [] | Some p \<Rightarrow> [p]) @ sent_packets (trace d1)"
      "send_frame d1 d'"
      using send_loop_pass [where d = d1 and xs = "[]" and ys = q and tcpFd = "tcpSocketFd d"
          and udpFd = "udpSocketFd d" and E = E and t = t] q ok True k by auto
    then show ?thesis
      using unf True t k sends_head [OF q] send_frameD [of d1 d'] by auto
  qed
qed

text \<open>
  Property C3: one call of \<open>sendSocketData\<close> from the message thread is one pass of the abstract
  queue at the time the clock shows, and puts on the network exactly the packet of that pass;
  without an address it does nothing.  It never faults.
\<close>

theorem sendSocketData_refines:
  "sends d q \<Longrightarrow> \<forall>x \<in> set q. packet_ok (snd x) \<Longrightarrow>
   \<exists>r d' q' x. sendSocketData E (tcpSocketFd d) (udpSocketFd d) d = Some (r, d') \<and> sends d' q'
     \<and> (if getDeviceConnectInfo DHPC_OK_BIT d
        then send_pass (\<not> never_busy E (tcpSocketFd d) (udpSocketFd d)) (fst (lum_getSystemTime E d)) q x q'
        else x = None \<and> q' = q)
     \<and> r = (x \<noteq> None)
     \<and> sent_packets (trace d') = (case x of None \<Rightarrow> [] | Some p \<Rightarrow> [p]) @ sent_packets (trace d)
     \<and> msgList d' = msgList d \<and> nextAddr d' = nextAddr d"
  by (rule sendSocketData_pass)

definition name_packet :: send_node_data where
  "name_packet = \<lparr>sendSn = 1, sendLen = 3, sendCmd = 0x63, sendData = Some [1, 2, 3, 0],
     sendOrigin = MSG_FROM_UDP, sendIp = 0, sendReback = 1, sendCount = 0, faildTimes = 0,
     nextSendTime = 0\<rparr>"

lemma sends_power_on: "sends power_on []"
  by (simp add: sends_def send_queue.contents_def list_ok_def power_on_def)

lemma sends_one:
  obtains d where "sends d [(0, b)]" "net_core d = net_core power_on"
    "sent_packets (trace d) = []"
proof -
  obtain d' where "insertSendListNode (nextAddr power_on) (snd (put_send_node b power_on)) = Some d'"
    "sends d' ([] @ [(nextAddr power_on, b)])" "net_core d' = net_core power_on"
    "nextAddr d' = nextAddr power_on + 1"
    "sent_packets (trace d') = sent_packets (trace power_on)" "msgList d' = msgList power_on"
    using insertSendListNode_sends [OF sends_power_on] .
  then show ?thesis by (intro that [of d']) (simp_all add: power_on_def)
qed

theorem sendSocketData_refines_witness:
  "\<exists>d r d'. sends d [(0, name_packet)]
     \<and> sendSocketData plain_sdk (tcpSocketFd d) (udpSocketFd d) d = Some (r, d')"
proof -
  obtain d where d: "sends d [(0, name_packet)]" using sends_one by blast
  have "\<forall>x \<in> set [(0 :: nat, name_packet)]. packet_ok (snd x)"
    by (simp add: packet_ok_def name_packet_def)
  from sendSocketData_refines [OF d this, of plain_sdk] d show ?thesis by blast
qed

section \<open>Every packet is sent at most four times\<close>

text \<open>Transmissions that are still possible.\<close>

definition credit :: "(nat \<times> send_node_data) list \<Rightarrow> nat" where
  "credit q = (\<Sum>x\<leftarrow>q. 4 - unat (sendCount (snd x)))"

lemma credit_simps [simp]:
  "credit [] = 0" "credit ((a, b) # q) = 4 - unat (sendCount b) + credit q"
  "credit (p @ q) = credit p + credit q"
  by (simp_all add: credit_def)

lemma credit_le: "credit q \<le> 4 * length q"
  by (induction q) (auto simp: credit_def)

lemma credit_filter: "credit (filter P q) \<le> credit q"
  by (induction q) (auto simp: credit_def)

lemma credit_drop_request: "credit (drop_request sn q) \<le> credit q"
  by (induction q) (auto simp: credit_def)

lemma set_drop_request: "set (drop_request sn q) \<subseteq> set q"
  by (induction q) auto

lemma remains_credit:
  assumes "packet_ok b"
  shows "credit (remains t a b) + 1 \<le> 4 - unat (sendCount b)"
    "\<forall>x \<in> set (remains t a b). packet_ok (snd x)"
proof -
  have l: "unat (sendCount b) < 4"
    using assms by (simp add: packet_ok_def word_less_nat_alt)
  then have "unat (sendCount b + 1) = unat (sendCount b) + 1"
    by (simp add: unat_add_lem [THEN iffD1])
  then show "credit (remains t a b) + 1 \<le> 4 - unat (sendCount b)"
    using l by (auto simp: remains_def word_less_nat_alt)
  show "\<forall>x \<in> set (remains t a b). packet_ok (snd x)"
    using assms by (auto simp: remains_def packet_ok_def split: option.splits)
qed

lemma packet_ok_postponed: "packet_ok (b\<lparr>nextSendTime := n\<rparr>) = packet_ok b"
  by (auto simp: packet_ok_def split: option.splits)

lemma send_pass_credit:
  "send_pass blk t q x q' \<Longrightarrow> \<forall>y \<in> set q. packet_ok (snd y) \<Longrightarrow>
    credit q' + (if x = None then 0 else 1) \<le> credit q \<and> (\<forall>y \<in> set q'. packet_ok (snd y))"
proof (induction rule: send_pass.induct)
  case (transmit b a q)
  then show ?case using remains_credit [of b t a] by auto
next
  case (skip b q x q' a)
  then have "credit q' + (if x = None then 0 else 1) \<le> credit q" by simp
  then show ?case using skip by (simp only: credit_simps) auto
next
  case (busy b q x q' a)
  then have "credit q' + (if x = None then 0 else 1) \<le> credit q" by simp
  then show ?case using busy by (simp only: credit_simps) (auto simp: packet_ok_postponed)
qed simp

lemma send_pass_progress:
  "send_pass blk t q x q' \<Longrightarrow> \<not> blk \<Longrightarrow> \<exists>y \<in> set q. due t (snd y) \<Longrightarrow> x \<noteq> None"
  by (induction rule: send_pass.induct) auto

text \<open>
  What can happen to the list between two passes: packets are added, replies remove the
  request they answer, and a new connection to the server drops what waits for it.
\<close>

datatype send_event = Pass | is_Queue: Queue send_node_data | Reply u16 | Reconnect

primrec send_step :: "sdk \<Rightarrow> send_event \<Rightarrow> device \<Rightarrow> device option" where
  "send_step E Pass d = map_option snd (sendSocketData E (tcpSocketFd d) (udpSocketFd d) d)"
| "send_step E (Queue b) d = map_option snd (addSendDataToNode E b d)"
| "send_step E (Reply sn) d = map_option snd (deleteRequstSendNode sn d)"
| "send_step E Reconnect d = lum_delAllTcpWhileReconnServer d"

primrec send_run :: "sdk \<Rightarrow> send_event list \<Rightarrow> device \<Rightarrow> device option" where
  "send_run E [] d = Some d"
| "send_run E (e # es) d = Option.bind (send_step E e d) (send_run E es)"

lemma addSendDataToNode_sends:
  assumes "sends d q"
  obtains r d' where "addSendDataToNode E b d = Some (r, d')"
    "if r then sends d' (q @ [(nextAddr d, b)]) \<and> nextAddr d' = nextAddr d + 1
       \<and> sendOrigin b \<noteq> MSG_LOCAL_EVENT
     else sends d' q \<and> nextAddr d' = nextAddr d
       \<and> (sendOrigin b = MSG_LOCAL_EVENT \<or> (\<exists>tr n. \<not> hfmem_malloc E tr n))"
    "net_core d' = net_core d" "sent_packets (trace d') = sent_packets (trace d)"
    "msgList d' = msgList d"
proof (cases "sendOrigin b = MSG_LOCAL_EVENT")
  case True
  then show ?thesis using assms by (intro that [of False d]) (simp_all add: addSendDataToNode_def)
next
  case o: False
  then have o': "\<not> (sendOrigin b \<noteq> MSG_FROM_UDP \<and> sendOrigin b \<noteq> MSG_FROM_TCP)"
    by (cases "sendOrigin b") auto
  obtain m d1 where m: "mallocSocketData E SIZEOF_SEND_NODE d = (m, d1)" by fastforce
  note unf = addSendDataToNode_def [of E b d, unfolded if_not_P [OF o'] m Let_def prod.case]
  have d1: "sends d1 q" "nextAddr d1 = nextAddr d" "net_core d1 = net_core d" "msgList d1 = msgList d"
    "sent_packets (trace d1) = sent_packets (trace d)"
    using m assms
    by (cases E SIZEOF_SEND_NODE d rule: mallocSocketData_cases;
        auto simp: net_core_def core_def upd_global_def call_def sends_def)+
  show ?thesis
  proof (cases m)
    case None
    then have "\<exists>tr n. \<not> hfmem_malloc E tr n"
      using mallocSocketData_None [of E SIZEOF_SEND_NODE d d1] m by blast
    then show ?thesis using None d1 unf by (intro that [of False d1]) simp_all
  next
    case (Some mem)
    obtain d' where "insertSendListNode (nextAddr d1) (snd (put_send_node b d1)) = Some d'"
      "sends d' (q @ [(nextAddr d1, b)])" "net_core d' = net_core d1" "nextAddr d' = nextAddr d1 + 1"
      "sent_packets (trace d') = sent_packets (trace d1)" "msgList d' = msgList d1"
      using insertSendListNode_sends [OF d1(1)] .
    moreover have "fst (put_send_node b d1) = nextAddr d1" by (simp add: put_send_node_def)
    ultimately show ?thesis using Some d1 unf o
      by (intro that [of True d']) (simp_all add: split_beta)
  qed
qed

lemma send_step_credit:
  assumes q: "sends d q" "\<forall>x \<in> set q. packet_ok (snd x)"
    and e: "\<And>b. e = Queue b \<Longrightarrow> packet_ok b"
  obtains d' q' where "send_step E e d = Some d'" "sends d' q'" "\<forall>x \<in> set q'. packet_ok (snd x)"
    "length (sent_packets (trace d')) + credit q'
       \<le> length (sent_packets (trace d)) + credit q + (if is_Queue e then 4 else 0)"
proof (cases e)
  case Pass
  obtain r d' q' x where p: "sendSocketData E (tcpSocketFd d) (udpSocketFd d) d = Some (r, d')" "sends d' q'"
    "if getDeviceConnectInfo DHPC_OK_BIT d
     then send_pass (\<not> never_busy E (tcpSocketFd d) (udpSocketFd d)) (fst (lum_getSystemTime E d)) q x q'
     else x = None \<and> q' = q"
    "sent_packets (trace d') = (case x of None \<Rightarrow> [] | Some p \<Rightarrow> [p]) @ sent_packets (trace d)"
    using sendSocketData_pass [OF q, of E] by blast
  from p(3) q(2) have "credit q' + (if x = None then 0 else 1) \<le> credit q \<and> (\<forall>y \<in> set q'. packet_ok (snd y))"
    by (cases "getDeviceConnectInfo DHPC_OK_BIT d") (simp_all add: send_pass_credit)
  then show ?thesis using that [of d' q'] p(1,2,4) Pass by (cases x) auto
next
  case (Queue b)
  obtain r d' where a: "addSendDataToNode E b d = Some (r, d')"
    "if r then sends d' (q @ [(nextAddr d, b)]) \<and> nextAddr d' = nextAddr d + 1
       \<and> sendOrigin b \<noteq> MSG_LOCAL_EVENT
     else sends d' q \<and> nextAddr d' = nextAddr d
       \<and> (sendOrigin b = MSG_LOCAL_EVENT \<or> (\<exists>tr n. \<not> hfmem_malloc E tr n))"
    "sent_packets (trace d') = sent_packets (trace d)"
    using addSendDataToNode_sends [OF q(1)] by metis
  then show ?thesis
    using that [of d' "if r then q @ [(nextAddr d, b)] else q"] e [OF Queue] q(2) Queue
    by (cases r) auto
next
  case (Reply sn)
  obtain r d' where "deleteRequstSendNode sn d = Some (r, d')" "sends d' (drop_request sn q)"
    "send_frame d d'" "sent_packets (trace d') = sent_packets (trace d)"
    using deleteRequstSendNode_sends [OF q(1)] .
  then show ?thesis using that [of d' "drop_request sn q"] q(2) Reply
    set_drop_request [of sn q] credit_drop_request [of sn q] by auto
next
  case Reconnect
  obtain d' where "lum_delAllTcpWhileReconnServer d = Some d'"
    "sends d' (filter (\<lambda>x. sendOrigin (snd x) \<noteq> MSG_FROM_TCP) q)"
    "send_frame d d'" "sent_packets (trace d') = sent_packets (trace d)"
    using lum_delAllTcp_sends [OF q(1)] .
  then show ?thesis
    using that [of d' "filter (\<lambda>x. sendOrigin (snd x) \<noteq> MSG_FROM_TCP) q"] q(2) Reconnect
      credit_filter [of "\<lambda>x. sendOrigin (snd x) \<noteq> MSG_FROM_TCP" q] by auto
qed

lemma send_run_credit:
  "sends d q \<Longrightarrow> \<forall>x \<in> set q. packet_ok (snd x) \<Longrightarrow> \<forall>b. Queue b \<in> set es \<longrightarrow> packet_ok b \<Longrightarrow>
   \<exists>d' q'. send_run E es d = Some d' \<and> sends d' q'
     \<and> length (sent_packets (trace d')) + credit q'
       \<le> length (sent_packets (trace d)) + credit q + 4 * length (filter is_Queue es)"
proof (induction es arbitrary: d q)
  case (Cons e es)
  have e: "\<And>b. e = Queue b \<Longrightarrow> packet_ok b" using Cons.prems(3) by simp
  obtain d1 q1 where s: "send_step E e d = Some d1" "sends d1 q1" "\<forall>x \<in> set q1. packet_ok (snd x)"
    "length (sent_packets (trace d1)) + credit q1
       \<le> length (sent_packets (trace d)) + credit q + (if is_Queue e then 4 else 0)"
    using send_step_credit [OF Cons.prems(1,2) e, where E = E] .
  obtain d' q' where "send_run E es d1 = Some d'" "sends d' q'"
    "length (sent_packets (trace d')) + credit q'
       \<le> length (sent_packets (trace d1)) + credit q1 + 4 * length (filter is_Queue es)"
    using Cons.IH [OF s(2,3)] Cons.prems(3) by auto
  then show ?case using s(1,4) by (intro exI [of _ d'] exI [of _ q']) auto
qed auto





end
