(* ===== verification/Sockets.thy ===== *)
theory Sockets
  imports Send_List
begin

text \<open>
  The two network threads below the message list: creating sockets, connecting, receiving
  (\<open>serverSocketTcp.c\<close>, \<open>localSocketUdp.c\<close>), and fetching the time from the network
  (\<open>lumTimeData.c\<close>).  Loops that retry until the stack has a free socket are partial
  functions: \<open>None\<close> stands for not returning.
\<close>

abbreviation (input) "TCP_SOCKET_PORT \<equiv> 17531"
abbreviation (input) "TCP_DATE_PORT \<equiv> 37"
abbreviation (input) NETWORK_MAXRECV_LEN :: nat where "NETWORK_MAXRECV_LEN \<equiv> 266"
abbreviation (input) MAX_SOCKET_SELECT_WAIT_SECOND :: nat where "MAX_SOCKET_SELECT_WAIT_SECOND \<equiv> 20"
abbreviation (input) "MSG_CMD_GET_SERVER_ADDR \<equiv> 0x41"
abbreviation (input) "MSG_CMD_REQUST_CONNECT \<equiv> 0x42"

definition TCP_SERVER_IP :: "u8 list" where
  "TCP_SERVER_IP = ascii ''lumitek.yunext.com'' @ [0]"

definition TCP_DATE_IP :: "u8 list" where
  "TCP_DATE_IP = ascii ''128.138.140.44'' @ [0]"

section \<open>Creating sockets\<close>

text \<open>\<open>while (1) \{ fd = socket(...); if (fd < 0) msleep(1000); else break; \}\<close>\<close>

partial_function (option) open_socket :: "sdk \<Rightarrow> device \<Rightarrow> (int \<times> device) option" where
  "open_socket E d =
     (let fd = c_socket E (trace d); d1 = call Socket_open d
      in if fd < 0 then open_socket E (call (Msleep 1000) d1) else Some (fd, d1))"

definition setSocketOption :: "int \<Rightarrow> device \<Rightarrow> device" where
  "setSocketOption fd d = call (Socket_option fd) (call (Socket_option fd)
     (call (Socket_option fd) (call (Socket_option fd) d)))"

definition createSocketFd :: "sdk \<Rightarrow> device \<Rightarrow> (int \<times> device) option" where
  "createSocketFd E d = do {
     (fd, d1) \<leftarrow> open_socket E d;
     Some (fd, setSocketOption fd d1)
   }"

definition getTcpSocketFd :: "device \<Rightarrow> int" where
  "getTcpSocketFd d = tcpSocketFd d"

definition getUdpSocketFd :: "device \<Rightarrow> int" where
  "getUdpSocketFd d = udpSocketFd d"

definition udpSocketInit :: "sdk \<Rightarrow> device \<Rightarrow> device option" where
  "udpSocketInit E d = do {
     (fd, d1) \<leftarrow> open_socket E d;
     Some (call (Udp_broadcast_port (UDP_SOCKET_PORT - 1) UDP_SOCKET_PORT)
       (call (Socket_bind fd (htons UDP_SOCKET_PORT)) (d1\<lparr>udpSocketFd := fd\<rparr>)))
   }"

definition lum_createUdpLogSocket :: "sdk \<Rightarrow> device \<Rightarrow> device option" where
  "lum_createUdpLogSocket E d = map_option (\<lambda>(fd, d1). d1\<lparr>udpLogSocketFd := fd\<rparr>) (open_socket E d)"

section \<open>The keys of the server\<close>

definition clearServerAesKey :: "bool \<Rightarrow> device \<Rightarrow> device" where
  "clearServerAesKey clearAddr d =
     (let d1 = upd_global (\<lambda>g. g\<lparr>keyData := (keyData g)\<lparr>serverAesKeyValid := False,
                  serverKey := replicate AES_KEY_LEN 0\<rparr>\<rparr>) d
      in if clearAddr
         then upd_global (\<lambda>g. g\<lparr>tcpServerAddr := \<lparr>port = 0xFFFF, addrIp = 0xFFFFFFFF\<rparr>\<rparr>) d1
         else d1)"

definition setServerAesKey :: "u8 list \<Rightarrow> device \<Rightarrow> device" where
  "setServerAesKey key d = upd_global (\<lambda>g. g\<lparr>keyData := (keyData g)\<lparr>serverKey := key,
     serverAesKeyValid := True\<rparr>\<rparr>) d"

definition afterGetServerAddr :: "socket_addr \<Rightarrow> device \<Rightarrow> device" where
  "afterGetServerAddr a d = call (Mutex_unlock g_tcp_socket_mutex)
     (setDeviceConnectInfo SERVER_ADDR_BIT True
       (setServerAddr a (call (Mutex_lock g_tcp_socket_mutex) d)))"

section \<open>Connecting to the server\<close>

definition tcpSocketInit :: "sdk \<Rightarrow> bool \<Rightarrow> device \<Rightarrow> device option" where
  "tcpSocketInit E needClearAse d =
     (let d1 = (if tcpSocketFd d \<noteq> -1
                then (call (Socket_close (tcpSocketFd d)) d)\<lparr>tcpSocketFd := -1\<rparr> else d)
      in do {
        (fd, d2) \<leftarrow> createSocketFd E d1;
        let d3 = d2\<lparr>tcpSocketFd := fd\<rparr>;
        Some (if needClearAse then clearServerAesKey False d3 else d3)
      })"

definition connectServerSocket :: "sdk \<Rightarrow> socket_addr \<Rightarrow> device \<Rightarrow> bool \<times> device" where
  "connectServerSocket E a d =
     (let d1 = call (Socket_connect (tcpSocketFd d) a) d
      in if \<not> c_connect E (trace d1) (tcpSocketFd d) then (False, d1)
         else (True, call (Socket_nonblock (tcpSocketFd d)) d1))"

definition getBalanceServerAddr :: "sdk \<Rightarrow> device \<Rightarrow> socket_addr option \<times> device" where
  "getBalanceServerAddr E d =
     (let r = hfnet_gethostbyname E (trace d) TCP_SERVER_IP;
          d1 = call (Gethostbyname TCP_SERVER_IP) d
      in (map_option (\<lambda>ip. \<lparr>port = htons TCP_SOCKET_PORT, addrIp = ip\<rparr>) r, d1))"

text \<open>The result says whether the thread has to start over; the address is a local of the thread.\<close>

definition checkTcpConnStatus :: "sdk \<Rightarrow> device \<Rightarrow> (bool \<times> device) option" where
  "checkTcpConnStatus E d =
     (if getDeviceConnectInfo SERVER_CONN_BIT d then Some (False, d)
      else if \<not> getDeviceConnectInfo DHPC_OK_BIT d then Some (True, call (Msleep 3000) d)
      else if \<not> getDeviceConnectInfo BALANCE_CONN_BIT d then do {
        d1 \<leftarrow> tcpSocketInit E False d;
        let (addr, d2) = getBalanceServerAddr E d1;
        let (connectServer, d3) =
          (case addr of None \<Rightarrow> (False, d2) | Some a \<Rightarrow> connectServerSocket E a d2);
        if connectServer
        then map_option (\<lambda>r. (False, snd r)) (insertLocalMsgToList E MSG_LOCAL_EVENT None 0
               MSG_CMD_GET_SERVER_ADDR (setDeviceConnectInfo BALANCE_CONN_BIT True d3))
        else Some (True, call (Msleep 3000) d3)
      }
      else if getDeviceConnectInfo SERVER_ADDR_BIT d then do {
        d1 \<leftarrow> tcpSocketInit E True d;
        let (connectServer, d2) = connectServerSocket E (getServerAddr d1) d1;
        if connectServer
        then map_option (\<lambda>r. (False, snd r)) (insertLocalMsgToList E MSG_LOCAL_EVENT None 0
               MSG_CMD_REQUST_CONNECT (setDeviceConnectInfo SERVER_CONN_BIT True d2))
        else Some (True, call (Msleep 3000) d2)
      }
      else Some (False, d))"

section \<open>Receiving\<close>

text \<open>
  \<open>recv\<close> stores at most the number of bytes asked for at \<open>off\<close>; the result is -1 when it fails.
  A store past the end of the buffer is \<open>None\<close>.
\<close>

definition recv_into :: "sdk \<Rightarrow> int \<Rightarrow> u8 list \<Rightarrow> nat \<Rightarrow> nat \<Rightarrow> device \<Rightarrow> ((int \<times> u8 list) \<times> device) option" where
  "recv_into E fd buf off n d =
     (let d1 = call (Socket_recv fd n) d
      in case c_recv E (trace d1) fd n of
        None \<Rightarrow> Some ((-1, buf), d1)
      | Some bs \<Rightarrow> map_option (\<lambda>buf'. ((int (length (take n bs)), buf'), d1)) (wrs buf off (take n bs)))"

text \<open>
  The open header is read first, then as many bytes as it announces.  Whatever \<open>recv\<close> answered,
  a number is added to it.
\<close>

definition tcpSocketRecvData :: "sdk \<Rightarrow> u8 list \<Rightarrow> int \<Rightarrow> device \<Rightarrow> ((int \<times> u8 list) \<times> device) option" where
  "tcpSocketRecvData E buffer fd d = do {
     let d1 = call (Mutex_lock g_tcp_socket_mutex) d;
     ((recvCount, buf1), d2) \<leftarrow> recv_into E fd buffer 0 SOCKET_HEADER_OPEN_DATA_LEN d1;
     pv \<leftarrow> rd buf1 0;
     ((count, buf2), d3) \<leftarrow>
       (if pv = SOCKET_HEADER_PV \<and> recvCount = 9 then do {
          len \<leftarrow> rd buf1 8;
          ((n, buf2), d3) \<leftarrow> recv_into E fd buf1 SOCKET_HEADER_OPEN_DATA_LEN (unat len) d2;
          Some ((n + 9, buf2), d3)
        }
        else Some ((recvCount + int AES_KEY_LEN, buf1), d2));
     Some ((count, buf2), call (Mutex_unlock g_tcp_socket_mutex) d3)
   }"

text \<open>The buffer is static and zeroed before use; \<open>None\<close> in the result is the NULL pointer.\<close>

definition recvTcpData :: "sdk \<Rightarrow> device \<Rightarrow> ((u8 list option \<times> u32) \<times> device) option" where
  "recvTcpData E d = do {
     ((count, buf), d1) \<leftarrow> tcpSocketRecvData E (replicate NETWORK_MAXRECV_LEN 0) (tcpSocketFd d) d;
     if count \<le> 0 then do {
       d2 \<leftarrow> saveNormalLogData E (ascii ''reconnect TCP socket'' @ [10])
         (setDeviceConnectInfo SERVER_CONN_BIT False (setDeviceConnectInfo BALANCE_CONN_BIT False d1));
       Some ((None, of_int count), d2)
     }
     else Some ((Some buf, of_int count), d1)
   }"

definition udpSocketRecvData :: "sdk \<Rightarrow> u8 list \<Rightarrow> int \<Rightarrow> device \<Rightarrow> ((int \<times> u8 list \<times> u32) \<times> device) option" where
  "udpSocketRecvData E buffer fd d =
     (let d1 = call (Socket_recvfrom fd NETWORK_MAXRECV_LEN) (call (Mutex_lock g_udp_socket_mutex) d);
          (r, ip) = c_recvfrom E (trace d1) fd NETWORK_MAXRECV_LEN;
          d2 = call (Mutex_unlock g_udp_socket_mutex) d1
      in case r of None \<Rightarrow> Some ((-1, buffer, ip), d2)
      | Some bs \<Rightarrow> map_option (\<lambda>buf'. ((int (length (take NETWORK_MAXRECV_LEN bs)), buf', ip), d2))
                     (wrs buffer 0 (take NETWORK_MAXRECV_LEN bs)))"

definition recvUdpData :: "sdk \<Rightarrow> device \<Rightarrow> ((u8 list \<times> u32 \<times> u32) \<times> device) option" where
  "recvUdpData E d = do {
     ((count, buf, ip), d1) \<leftarrow> udpSocketRecvData E (replicate NETWORK_MAXRECV_LEN 0) (udpSocketFd d) d;
     Some ((buf, of_int count, ip), d1)
   }"

section \<open>The time from the network\<close>

text \<open>Three attempts of a second each; \<open>uninitialised\<close> is what the local \<open>getTime\<close> holds before.\<close>

primrec date_loop :: "nat \<Rightarrow> sdk \<Rightarrow> int \<Rightarrow> device \<Rightarrow> (u32 option \<times> device) option" where
  "date_loop 0 E fd d = Some (None, d)"
| "date_loop (Suc n) E fd d =
     (let (sel, d1) = socketSelectRead E fd 1 d
      in if sel \<noteq> 0 then do {
           ((recvLen, buf), d2) \<leftarrow> tcpSocketRecvData E (take 4 (uninitialised E (trace d1) 4)) fd d1;
           Some (if recvLen > 0 then Some (htonl (of_le32 buf)) else None, d2)
         }
         else date_loop n E fd (call (Msleep 50) d1))"

definition getUtcTimeFromNetwork :: "sdk \<Rightarrow> device \<Rightarrow> (u32 option \<times> device) option" where
  "getUtcTimeFromNetwork E d =
     (if \<not> getDeviceConnectInfo DHPC_OK_BIT d then Some (None, d)
      else do {
        let a = \<lparr>port = htons TCP_DATE_PORT, addrIp = inet_addr E TCP_DATE_IP\<rparr>;
        (fd, d1) \<leftarrow> createSocketFd E d;
        let d2 = call (Socket_connect fd a) d1;
        (r, d3) \<leftarrow> (if c_connect E (trace d2) fd then date_loop 3 E fd (call (Socket_nonblock fd) d2)
                    else Some (None, d2));
        Some (r, call (Socket_close fd) d3)
      })"

definition getUtcTimeByMessage :: "sdk \<Rightarrow> device \<Rightarrow> device option" where
  "getUtcTimeByMessage E d = do {
     (r, d1) \<leftarrow> getUtcTimeFromNetwork E d;
     let (getSucc, d2) =
       (case r of None \<Rightarrow> (False, d1)
        | Some utcTime \<Rightarrow>
            if utcTime > DIFF_SEC_1900_1970
            then (True, lum_syncNetworkTime E (utcTime - DIFF_SEC_1900_1970) d1) else (False, d1));
     Some (createGetUtcTimer E (if getSucc then 3600000 else 10000) d2)
   }"

section \<open>Properties\<close>

lemma recv_into_cases:
  assumes "off + n \<le> length buf"
  obtains (fail) "recv_into E fd buf off n d = Some ((-1, buf), call (Socket_recv fd n) d)"
      "c_recv E (Socket_recv fd n # trace d) fd n = None"
  | (ok) bs buf' where "recv_into E fd buf off n d =
        Some ((int (length (take n bs)), buf'), call (Socket_recv fd n) d)"
      "wrs buf off (take n bs) = Some buf'" "length buf' = length buf"
      "c_recv E (Socket_recv fd n # trace d) fd n = Some bs"
proof (cases "c_recv E (Socket_recv fd n # trace d) fd n")
  case None
  then show ?thesis using fail by (simp add: recv_into_def Let_def)
next
  case (Some bs)
  have "off + length (take n bs) \<le> length buf" using assms by (simp add: min_def)
  then obtain buf' where "wrs buf off (take n bs) = Some buf'" "length buf' = length buf"
    using wrs_ok [of off "take n bs" buf] by blast
  then show ?thesis using ok Some by (simp add: recv_into_def Let_def)
qed

lemma tcpSocketRecvData_count:
  assumes "length buf = NETWORK_MAXRECV_LEN"
  obtains n buf' d' where "tcpSocketRecvData E buf fd d = Some ((n, buf'), d')" "0 < n" "n \<le> 264"
    "length buf' = NETWORK_MAXRECV_LEN" "core d' = core d"
proof -
  let ?d1 = "call (Mutex_lock g_tcp_socket_mutex) d"
  have "\<exists>n1 buf1. recv_into E fd buf 0 9 ?d1 = Some ((n1, buf1), call (Socket_recv fd 9) ?d1)
      \<and> -1 \<le> n1 \<and> n1 \<le> 9 \<and> length buf1 = 266"
  proof -
    have "0 + 9 \<le> length buf" using assms by simp
    then show ?thesis by (rule recv_into_cases [of 0 9 buf E fd ?d1]) (use assms in auto)
  qed
  then obtain n1 buf1 where r1: "recv_into E fd buf 0 9 ?d1 = Some ((n1, buf1), call (Socket_recv fd 9) ?d1)"
    "-1 \<le> n1" "n1 \<le> 9" "length buf1 = 266" by blast
  let ?d2 = "call (Socket_recv fd 9) ?d1"
  show ?thesis
  proof (cases "buf1 ! 0 = 1 \<and> n1 = 9")
    case False
    then show ?thesis using r1
      by (intro that [of "n1 + 16" buf1 "call (Mutex_unlock g_tcp_socket_mutex) ?d2"])
        (auto simp: tcpSocketRecvData_def)
  next
    case True
    define len where "len = unat (buf1 ! 8)"
    have l: "len \<le> 255" using unat_u8_less [of "buf1 ! 8"] unfolding len_def by linarith
    then have "9 + len \<le> length buf1" using r1(4) by simp
    then obtain n2 buf2 where r2: "recv_into E fd buf1 9 len ?d2 = Some ((n2, buf2), call (Socket_recv fd len) ?d2)"
      "-1 \<le> n2" "n2 \<le> int len" "length buf2 = 266"
      by (rule recv_into_cases [of 9 len buf1 E fd ?d2]) (use r1(4) in auto)
    then have "n2 \<le> 255" using l by linarith
    then show ?thesis using r1 r2(1,2,4) True
      by (intro that [of "n2 + 9" buf2 "call (Mutex_unlock g_tcp_socket_mutex) (call (Socket_recv fd len) ?d2)"])
        (auto simp: tcpSocketRecvData_def len_def)
  qed
qed

text \<open>
  Property C15: reading a packet from the server never stores outside the receive buffer, and
  never reports that the connection is lost: also when \<open>recv\<close> fails or returns nothing, the
  count that \<open>recvTcpData\<close> tests is positive, so the branch that starts a reconnection is dead
  and the connection flags stay as they are.
\<close>

theorem recvTcpData_never_disconnects:
  "\<exists>buf n d'. recvTcpData E d = Some ((Some buf, n), d') \<and> length buf = 266
     \<and> 0 < n \<and> n \<le> 264 \<and> connInfo (globalData d') = connInfo (globalData d)"
proof -
  have "length (replicate NETWORK_MAXRECV_LEN (0 :: u8)) = NETWORK_MAXRECV_LEN" by simp
  then obtain n buf' d' where r: "tcpSocketRecvData E (replicate NETWORK_MAXRECV_LEN 0) (tcpSocketFd d) d
      = Some ((n, buf'), d')" "0 < n" "n \<le> 264" "length buf' = 266" "core d' = core d"
    by (rule tcpSocketRecvData_count)
  then have "uint (of_int n :: u32) = n" by (simp add: unsigned_of_int take_bit_int_eq_self)
  then have "0 < (of_int n :: u32)" "(of_int n :: u32) \<le> 264"
    using r(2,3) by (simp_all add: word_less_def word_le_def)
  then show ?thesis using r core_eqD(9) [OF r(5)] by (simp add: recvTcpData_def)
qed

text \<open>
  The time server's answer is read into a variable of four bytes through the
  packet reader, which asks for nine: an answer of four bytes is the time, a longer one is
  stored past the variable, and when \<open>recv\<close> fails the variable's old contents are returned as a
  success.
\<close>

theorem date_reply_cases:
  "length buf = 4 \<Longrightarrow> buf ! 0 \<noteq> 1 \<Longrightarrow>
   r = c_recv E (Socket_recv fd 9 # Mutex_lock g_tcp_socket_mutex # trace d) fd 9 \<Longrightarrow>
   (case r of
      None \<Rightarrow> \<exists>d'. tcpSocketRecvData E buf fd d = Some ((15, buf), d')
    | Some bs \<Rightarrow> (length bs = 4 \<longrightarrow> (\<exists>d'. tcpSocketRecvData E buf fd d = Some ((20, bs), d')))
        \<and> (length bs > 4 \<longrightarrow> tcpSocketRecvData E buf fd d = None))"
proof -
  assume b: "length buf = 4" "buf ! 0 \<noteq> 1"
    and r: "r = c_recv E (Socket_recv fd 9 # Mutex_lock g_tcp_socket_mutex # trace d) fd 9"
  note u = tcpSocketRecvData_def recv_into_def Let_def
  show ?thesis
  proof (cases r)
    case None
    then show ?thesis using b r by (auto simp: u)
  next
    case (Some bs)
    have "length bs = 4 \<Longrightarrow> wrs buf 0 (take 9 bs) = Some bs" using b by (simp add: wrs_def)
    moreover have "length bs > 4 \<Longrightarrow> wrs buf 0 (take 9 bs) = None" using b by (simp add: wrs_def)
    moreover have "length bs = 4 \<Longrightarrow> rd bs 0 = Some (bs ! 0)" by simp
    ultimately show ?thesis using Some r by (auto simp: u)
  qed
qed

theorem date_reply_cases_witness:
  "tcpSocketRecvData (plain_sdk\<lparr>c_recv := \<lambda>_ _ _. Some [0xE0, 1, 2, 3, 4]\<rparr>) (replicate 4 0) 1 power_on = None"
  using date_reply_cases [of "replicate 4 0" "Some [0xE0, 1, 2, 3, 4]"
      "plain_sdk\<lparr>c_recv := \<lambda>_ _ _. Some [0xE0, 1, 2, 3, 4]\<rparr>" 1 power_on]
  by simp

end
