(* ===== verification/Message_Dispose.thy ===== *)
theory Message_Dispose
  imports Sockets
begin

text \<open>
  The handlers of \<open>messageDispose.c\<close>, one per command.  A handler gets the body of the message
  node; the code also writes into the node (\<open>msgOrigin\<close>, \<open>socketIp\<close>), which the message thread
  deletes as soon as the handler returns, so those writes are a changed copy here.  Reads of
  the packet are bounds-checked: a packet that is too short for its command is \<open>None\<close>.
\<close>

abbreviation (input) "REBACK_SUCCESS_MESSAGE \<equiv> 0"
abbreviation (input) "REBACK_FAILD_MESSAGE \<equiv> 0xFF"
abbreviation (input) "ENTER_SMARTLINK_BY_NETWORK \<equiv> 0xAB"
abbreviation (input) "MSG_CMD_SET_GPIO_STATUS \<equiv> 0x01"
abbreviation (input) "MSG_CMD_GET_GPIO_STATUS \<equiv> 0x02"
abbreviation (input) "MSG_CMD_SET_ALARM_DATA \<equiv> 0x03"
abbreviation (input) "MSG_CMD_GET_ALARM_DATA \<equiv> 0x04"
abbreviation (input) "MSG_CMD_DELETE_ALARM_DATA \<equiv> 0x05"
abbreviation (input) "MSG_CMD_SET_ABSENCE_DATA \<equiv> 0x09"
abbreviation (input) "MSG_CMD_GET_ABSENCE_DATA \<equiv> 0x0A"
abbreviation (input) "MSG_CMD_DELETE_ABSENCE_DATA \<equiv> 0x0B"
abbreviation (input) "MSG_CMD_SET_COUNDDOWN_DATA \<equiv> 0x0C"
abbreviation (input) "MSG_CMD_GET_COUNTDOWN_DATA \<equiv> 0x0D"
abbreviation (input) "MSG_CMD_DELETE_COUNTDOWN_DATA \<equiv> 0x0E"
abbreviation (input) "MSG_CMD_LOCK_DEVICE \<equiv> 0x24"
abbreviation (input) "MSG_CMD_SET_MODULE_NAME \<equiv> 0x63"
abbreviation (input) "MSG_CMD_ENTER_SMART_LINK \<equiv> 0x66"
abbreviation (input) "MSG_CMD_APP_RESET_FACTORY \<equiv> 0x67"
abbreviation (input) "MSG_CMD_SET_UDP_LOG_FLAG \<equiv> 0xFD"
abbreviation (input) "MSG_CMD_LOCAL_ENTER_SMARTLINK \<equiv> 0xFF01"
abbreviation (input) "MSG_CMD_LOCAL_RESET_FACTORY \<equiv> 0xFF06"
abbreviation (input) "UDP_HEARTBEAT_INTERVAL \<equiv> 30"

definition HW_VERSION :: "u8 list" where "HW_VERSION = ascii ''HW_V1.01''"
definition SW_VERSION :: "u8 list" where "SW_VERSION = ascii ''1.25''"

section \<open>Sending a reply or a request\<close>

text \<open>The bytes of the packet from offset \<open>i\<close> of its body (the command is at 0).\<close>

definition body_byte :: "msg_node_body \<Rightarrow> nat \<Rightarrow> u8 option" where
  "body_byte pNode i = Option.bind (pData pNode) (\<lambda>buf. rd buf (SOCKET_HEADER_LEN + i))"

definition body_bytes :: "msg_node_body \<Rightarrow> nat \<Rightarrow> nat \<Rightarrow> u8 list option" where
  "body_bytes pNode i n = Option.bind (pData pNode) (\<lambda>buf. rds buf (SOCKET_HEADER_LEN + i) n)"

text \<open>What the handlers fill in; the other fields are set by \<open>msgSendSocketData\<close>.\<close>

definition socket_data :: "u8 \<Rightarrow> u8 list \<Rightarrow> create_socket_data" where
  "socket_data reback body = \<lparr>bEncrypt = 1, createReback = reback, createOrigin = MSG_LOCAL_EVENT,
     createSn = 0, bodyLen = of_nat (length body), keyType = AES_KEY_OPEN, bodyData = body\<rparr>"

definition msgSendSocketData ::
    "sdk \<Rightarrow> create_socket_data \<Rightarrow> msg_node_body \<Rightarrow> device \<Rightarrow> device option" where
  "msgSendSocketData E pSocketData pNode d =
     (let (sn, d1) = (if createReback pSocketData = 1 then (snIndex pNode, d) else getSocketSn True d);
          c = pSocketData\<lparr>createSn := sn, createOrigin := msgOrigin pNode,
                keyType := getSocketAesKeyType (msgOrigin pNode) (bEncrypt pSocketData) d1\<rparr>
      in do {
        (sendBuf, d2) \<leftarrow> createSendSocketData E c d1;
        case sendBuf of None \<Rightarrow> Some d2
        | Some (buf, len) \<Rightarrow> map_option snd (addSendDataToNode E
            \<lparr>sendSn = sn, sendLen = ucast len, sendCmd = ucast (cmdData pNode), sendData = Some buf,
             sendOrigin = msgOrigin pNode, sendIp = socketIp pNode, sendReback = createReback c,
             sendCount = 0, faildTimes = 0, nextSendTime = 0\<rparr> d2)
      })"

definition reply :: "sdk \<Rightarrow> u8 list \<Rightarrow> msg_node_body \<Rightarrow> device \<Rightarrow> device option" where
  "reply E body = msgSendSocketData E (socket_data 1 body)"

definition request :: "sdk \<Rightarrow> u8 list \<Rightarrow> msg_node_body \<Rightarrow> device \<Rightarrow> device option" where
  "request E body = msgSendSocketData E (socket_data 0 body)"

section \<open>Finding, naming and locking the device\<close>

definition setFoundDeviceBody :: "sdk \<Rightarrow> device \<Rightarrow> (u8 list \<times> device) option" where
  "setFoundDeviceBody E d = do {
     (ip, d1) \<leftarrow> getDeviceIpAddress E d;
     key \<leftarrow> getAesKeyData AES_KEY_LOCAL d1;
     Some ([MSG_CMD_FOUND_DEVICE] @ le32 ip @ macAddr (globalData d1) @ [AES_KEY_LEN] @ key, d1)
   }"

definition rebackFoundDevice :: "sdk \<Rightarrow> msg_node_body \<Rightarrow> device \<Rightarrow> device option" where
  "rebackFoundDevice E pNode d = do {
     (body, d1) \<leftarrow> setFoundDeviceBody E d;
     reply E body pNode d1
   }"

definition rebackUdpHeartBeat :: "sdk \<Rightarrow> msg_node_body \<Rightarrow> device \<Rightarrow> device option" where
  "rebackUdpHeartBeat E pNode d = do {
     t \<leftarrow> body_bytes pNode 1 4;
     let appTime = htonl (of_le32 t);
     let d1 = lum_checlCaliDateByApp E appTime d;
     reply E ([MSG_CMD_HEART_BEAT] @ le16 (htons UDP_HEARTBEAT_INTERVAL)) pNode d1
   }"

definition rebackTcpHeartBeat :: "sdk \<Rightarrow> msg_node_body \<Rightarrow> device \<Rightarrow> device option" where
  "rebackTcpHeartBeat E pNode d = do {
     i \<leftarrow> body_bytes pNode 1 2;
     (_, d1) \<leftarrow> deleteRequstSendNode (snIndex pNode)
       (lum_createHeartBeatTimer E (htons (of_le16 i)) d);
     Some (lum_checkTcpHeartTimeout E d1)
   }"

definition requstTcpHeartBeat :: "sdk \<Rightarrow> msg_node_body \<Rightarrow> device \<Rightarrow> device option" where
  "requstTcpHeartBeat E pNode d =
     request E [MSG_CMD_HEART_BEAT] (pNode\<lparr>msgOrigin := MSG_FROM_TCP\<rparr>) d"

definition rebackHeartBeat :: "sdk \<Rightarrow> msg_node_body \<Rightarrow> device \<Rightarrow> device option" where
  "rebackHeartBeat E pNode d = (case msgOrigin pNode of
     MSG_LOCAL_EVENT \<Rightarrow> requstTcpHeartBeat E pNode d
   | MSG_FROM_UDP \<Rightarrow> rebackUdpHeartBeat E pNode d
   | MSG_FROM_TCP \<Rightarrow> rebackTcpHeartBeat E pNode d)"

definition rebackGetDeviceInfo :: "sdk \<Rightarrow> msg_node_body \<Rightarrow> device \<Rightarrow> device option" where
  "rebackGetDeviceInfo E pNode d = do {
     let nd = deviceName (deviceConfigData d);
     name \<leftarrow> rds (nameData nd) 0 (unat (nameLen nd));
     reply E ([MSG_CMD_QUARY_MODULE_INFO, of_nat (length HW_VERSION)] @ HW_VERSION
              @ [of_nat (length SW_VERSION)] @ SW_VERSION @ [nameLen nd] @ name @ [3]) pNode d
   }"

definition rebackSetDeviceName :: "sdk \<Rightarrow> msg_node_body \<Rightarrow> device \<Rightarrow> device option" where
  "rebackSetDeviceName E pNode d = do {
     len \<leftarrow> body_byte pNode 1;
     let n = (if len > DEVICE_NAME_LEN - 2 then DEVICE_NAME_LEN - 2 else len);
     name \<leftarrow> body_bytes pNode 2 (unat n);
     reply E [MSG_CMD_SET_MODULE_NAME, REBACK_SUCCESS_MESSAGE] pNode (setDeviceName
       \<lparr>nameLen = n, nameData = name @ replicate (DEVICE_NAME_LEN - unat n) 0\<rparr> d)
   }"

definition rebackLockDevice :: "sdk \<Rightarrow> msg_node_body \<Rightarrow> device \<Rightarrow> device option" where
  "rebackLockDevice E pNode d = do {
     buf \<leftarrow> pData pNode;
     mac \<leftarrow> rds buf 2 DEVICE_MAC_LEN;
     (result, d1) \<leftarrow>
       (if mac = macAddr (globalData d) then do {
          d1 \<leftarrow> lum_setUserName (drop (SOCKET_HEADER_LEN + 1) buf) (changeDeviceLockedStatus True d);
          d2 \<leftarrow> lum_checkReportUsername E d1;
          Some (REBACK_SUCCESS_MESSAGE, d2)
        }
        else Some (REBACK_FAILD_MESSAGE, d));
     reply E [MSG_CMD_LOCK_DEVICE, result] pNode d1
   }"

section \<open>The relay\<close>

text \<open>\<open>GPIO_STATUS\<close>: flag, frequency, duty and a reserved byte.\<close>

definition lum_getSwitchPinFlag :: "u8 \<Rightarrow> switch_pin_flag" where
  "lum_getSwitchPinFlag flag = (if flag = 0 then SWITCH_PIN_1 else SWITCH_PIN_1)"

definition rebackSetGpioStatus :: "sdk \<Rightarrow> msg_node_body \<Rightarrow> device \<Rightarrow> device option" where
  "rebackSetGpioStatus E pNode d = do {
     gpio \<leftarrow> body_bytes pNode 1 4;
     let switchFlag = lum_getSwitchPinFlag (gpio ! 0);
     d1 \<leftarrow> setSwitchStatus E (if gpio ! 2 = 0xFF then SWITCH_OPEN else SWITCH_CLOSE) switchFlag d;
     reply E (MSG_CMD_SET_GPIO_STATUS # gpio) pNode d1
   }"

definition rebackGetGpioStatus :: "sdk \<Rightarrow> msg_node_body \<Rightarrow> device \<Rightarrow> device option" where
  "rebackGetGpioStatus E pNode d = do {
     gpio \<leftarrow> body_bytes pNode 1 4;
     let (status, d1) = getSwitchStatus E (lum_getSwitchPinFlag (gpio ! 0)) d;
     let duty = (if status = SWITCH_OPEN then 0xFF else 0);
     reply E [MSG_CMD_GET_GPIO_STATUS, gpio ! 0, gpio ! 1, duty, 0xFF] pNode d1
   }"

text \<open>The report of a change goes to everybody on the local network and to the server.\<close>

definition reportGpioChangeEvent :: "sdk \<Rightarrow> msg_node_body \<Rightarrow> device \<Rightarrow> device option" where
  "reportGpioChangeEvent E pNode d = do {
     buf \<leftarrow> pData pNode;
     action \<leftarrow> rds buf 0 4;
     pinFlag \<leftarrow> rds buf 4 4;
     let duty = (if of_le32 action = status_number SWITCH_OPEN then 0xFF else 0);
     let body = [MSG_CMD_REPORT_GPIO_CHANGE, ucast (of_le32 pinFlag), 0, duty, 0xFF];
     d1 \<leftarrow> request E body (pNode\<lparr>msgOrigin := MSG_FROM_UDP, socketIp := getBroadcastAddr d\<rparr>) d;
     request E body (pNode\<lparr>msgOrigin := MSG_FROM_TCP, socketIp := getBroadcastAddr d\<rparr>) d1
   }"

definition rebackReportGpioChange :: "msg_node_body \<Rightarrow> device \<Rightarrow> device option" where
  "rebackReportGpioChange pNode d = map_option snd (deleteRequstSendNode (snIndex pNode) d)"

section \<open>Upgrade, smartlink, reset, log\<close>

definition rebackGetDeviceUpgrade :: "sdk \<Rightarrow> msg_node_body \<Rightarrow> device \<Rightarrow> device option" where
  "rebackGetDeviceUpgrade E pNode d = do {
     buf \<leftarrow> pData pNode;
     urlLen \<leftarrow> body_byte pNode 1;
     d1 \<leftarrow> setSoftwareUpgradeUrl E (drop (SOCKET_HEADER_LEN + 2) buf) urlLen d;
     reply E [MSG_CMD_MODULE_UPGRADE, REBACK_SUCCESS_MESSAGE] pNode d1
   }"

definition resetForUpgrade :: "device \<Rightarrow> device" where
  "resetForUpgrade d = call Sys_reset (call (Msleep 300) d)"

definition LocalGetDeviceUpgrade :: "device \<Rightarrow> device" where
  "LocalGetDeviceUpgrade d = resetForUpgrade d"

definition rebackEnterSmartLink :: "sdk \<Rightarrow> msg_node_body \<Rightarrow> device \<Rightarrow> device option" where
  "rebackEnterSmartLink E pNode d = do {
     (_, d1) \<leftarrow> insertLocalMsgToList E MSG_LOCAL_EVENT (Some [ENTER_SMARTLINK_BY_NETWORK]) 1
                 MSG_CMD_LOCAL_ENTER_SMARTLINK d;
     reply E [MSG_CMD_ENTER_SMART_LINK, REBACK_SUCCESS_MESSAGE] pNode
       (changeDeviceLockedStatus False d1)
   }"

text \<open>An unterminated name would be read past its 50 bytes.\<close>

definition localRequstFactoryDataReset :: "sdk \<Rightarrow> msg_node_body \<Rightarrow> device \<Rightarrow> device option" where
  "localRequstFactoryDataReset E pNode d = do {
     s \<leftarrow> cstr (userName (deviceConfigData d));
     let n = length s mod 256;
     let len = (if n \<ge> MAX_USER_NAME_LEN then MAX_USER_NAME_LEN - 2 else n);
     request E (MSG_CMD_DEVICE_RESET_FACTORY # take len s) (pNode\<lparr>msgOrigin := MSG_FROM_TCP\<rparr>) d
   }"

definition lum_replyFactoryDataReset :: "device \<Rightarrow> device option" where
  "lum_replyFactoryDataReset d =
     lum_setUserName (replicate MAX_USER_NAME_LEN 0) (lum_stopFactoryResetTimer d)"

definition lum_appResetFactory :: "sdk \<Rightarrow> msg_node_body \<Rightarrow> device \<Rightarrow> device option" where
  "lum_appResetFactory E pNode d = do {
     d1 \<leftarrow> reply E [MSG_CMD_APP_RESET_FACTORY, REBACK_SUCCESS_MESSAGE] pNode d;
     (_, d2) \<leftarrow> insertLocalMsgToList E MSG_LOCAL_EVENT None 0 MSG_CMD_LOCAL_RESET_FACTORY d1;
     Some d2
   }"

definition lum_cmdSetUdpLogFlag :: "sdk \<Rightarrow> msg_node_body \<Rightarrow> device \<Rightarrow> device option" where
  "lum_cmdSetUdpLogFlag E pNode d = do {
     flag \<leftarrow> body_byte pNode 1;
     reply E [MSG_CMD_SET_UDP_LOG_FLAG, REBACK_SUCCESS_MESSAGE] pNode (lum_setUdpLogFlag flag d)
   }"

section \<open>Alarms\<close>

definition lum_getAlarmIndexOffset :: "u8 \<Rightarrow> u8" where
  "lum_getAlarmIndexOffset pinNum = (if pinNum = 0 then 0 else 0)"

definition rebackSetAlarmData :: "sdk \<Rightarrow> msg_node_body \<Rightarrow> device \<Rightarrow> device option" where
  "rebackSetAlarmData E pNode d = do {
     pinNum \<leftarrow> body_byte pNode 1;
     idx \<leftarrow> body_byte pNode 2;
     info \<leftarrow> Option.bind (body_bytes pNode 3 6) alarm_of;
     bAdd \<leftarrow> body_byte pNode 9;
     let indexOffset = lum_getAlarmIndexOffset pinNum;
     let alarmIndex = (if bAdd = 0xFF then ADD_ALARM_INDEX_EMPTY else idx - 1 + indexOffset);
     (tmpIndex, d1) \<leftarrow> setAlarmData info alarmIndex indexOffset d;
     reply E [MSG_CMD_SET_ALARM_DATA, tmpIndex + 1] pNode d1
   }"

text \<open>The result of \<open>getAlarmData\<close> is not checked before it is read.\<close>

definition fillAlarmRebackData :: "u8 \<Rightarrow> u8 \<Rightarrow> bool \<Rightarrow> device \<Rightarrow> u8 list option" where
  "fillAlarmRebackData alarmIndex indexOffset needEmptyData d = do {
     a \<leftarrow> getAlarmData (alarmIndex - 1) d;
     Some (if startHour a \<noteq> INVALID_ALARM_FLAG \<or> stopHour a \<noteq> INVALID_ALARM_FLAG \<or> needEmptyData
           then (alarmIndex - indexOffset) # alarm_bytes a else [])
   }"

text \<open>One pass of a loop that appends to the reply.\<close>

definition append_data :: "('a \<Rightarrow> u8 list option) \<Rightarrow> 'a \<Rightarrow> u8 list \<Rightarrow> u8 list option" where
  "append_data f i body = map_option (\<lambda>bs. body @ bs) (f i)"

definition rebackGetAlarmData :: "sdk \<Rightarrow> msg_node_body \<Rightarrow> device \<Rightarrow> device option" where
  "rebackGetAlarmData E pNode d = do {
     pinNum \<leftarrow> body_byte pNode 1;
     alarmIndex \<leftarrow> body_byte pNode 2;
     let indexOffset = lum_getAlarmIndexOffset pinNum;
     body \<leftarrow>
       (if alarmIndex = 0
        then foldo (append_data (\<lambda>i. fillAlarmRebackData i indexOffset False d))
               (map (\<lambda>i. of_nat i + indexOffset) [1..<MAX_ALARM_COUNT + 1]) [MSG_CMD_GET_ALARM_DATA, pinNum]
        else append_data (\<lambda>i. fillAlarmRebackData i indexOffset True d) (alarmIndex + indexOffset)
               [MSG_CMD_GET_ALARM_DATA, pinNum]);
     reply E body pNode d
   }"

definition rebackDeleteAlarmData :: "sdk \<Rightarrow> msg_node_body \<Rightarrow> device \<Rightarrow> device option" where
  "rebackDeleteAlarmData E pNode d = do {
     pinNum \<leftarrow> body_byte pNode 1;
     alarmIndex \<leftarrow> body_byte pNode 2;
     let indexOffset = lum_getAlarmIndexOffset pinNum;
     d1 \<leftarrow>
       (if alarmIndex = 0xFF then do {
          deleteCount \<leftarrow> body_byte pNode 3;
          foldo (\<lambda>i d. do {
              idx \<leftarrow> body_byte pNode (i + 4);
              Some (deleteAlarmData (idx + indexOffset - 1) (i = unat deleteCount - 1) d)
            }) [0..<unat deleteCount] d
        }
        else Some (deleteAlarmData (alarmIndex - 1 + indexOffset) True d));
     reply E [MSG_CMD_DELETE_ALARM_DATA, REBACK_SUCCESS_MESSAGE] pNode d1
   }"

section \<open>Absence simulation\<close>

definition lum_getAbsenceIndexOffset :: "u8 \<Rightarrow> u8" where
  "lum_getAbsenceIndexOffset pinNum = (if pinNum = 0 then 0 else 0)"

definition rebackSetAbsenceData :: "sdk \<Rightarrow> msg_node_body \<Rightarrow> device \<Rightarrow> device option" where
  "rebackSetAbsenceData E pNode d = do {
     pinNum \<leftarrow> body_byte pNode 1;
     idx \<leftarrow> body_byte pNode 2;
     info \<leftarrow> Option.bind (body_bytes pNode 3 6) absence_of;
     bAdd \<leftarrow> body_byte pNode 9;
     let indexOffset = lum_getAbsenceIndexOffset pinNum;
     let absenceIndex = (if bAdd = 0xFF then ADD_ALARM_INDEX_EMPTY else idx - 1 + indexOffset);
     (tmpIndex, d1) \<leftarrow> setAbsenceData E info absenceIndex indexOffset d;
     reply E [MSG_CMD_SET_ABSENCE_DATA, tmpIndex + 1] pNode d1
   }"

definition rebackGetAbsenceData :: "sdk \<Rightarrow> msg_node_body \<Rightarrow> device \<Rightarrow> device option" where
  "rebackGetAbsenceData E pNode d = do {
     pinNum \<leftarrow> body_byte pNode 1;
     absenceIndex \<leftarrow> body_byte pNode 2;
     let indexOffset = lum_getAbsenceIndexOffset pinNum;
     body \<leftarrow>
       (if absenceIndex = 0
        then foldo (append_data (\<lambda>i. map_option (\<lambda>a.
                 if absStartHour a \<noteq> INVALID_ALARM_FLAG then (i - indexOffset) # absence_bytes a else [])
                 (getAbsenceData (i - 1) d)))
               (map (\<lambda>i. of_nat i + indexOffset) [1..<MAX_ABSENCE_COUNT + 1]) [MSG_CMD_GET_ABSENCE_DATA, pinNum]
        else append_data (\<lambda>i. map_option (\<lambda>a. absenceIndex # absence_bytes a) (getAbsenceData i d))
               (absenceIndex - 1 + indexOffset) [MSG_CMD_GET_ABSENCE_DATA, pinNum]);
     reply E body pNode d
   }"

text \<open>After the deletions that were asked for, one more slot is deleted.\<close>

definition rebackDeleteAbsenceData :: "sdk \<Rightarrow> msg_node_body \<Rightarrow> device \<Rightarrow> device option" where
  "rebackDeleteAbsenceData E pNode d = do {
     pinNum \<leftarrow> body_byte pNode 1;
     absenceIndex \<leftarrow> body_byte pNode 2;
     let indexOffset = lum_getAbsenceIndexOffset pinNum;
     d1 \<leftarrow>
       (if absenceIndex = 0xFF then do {
          deleteCount \<leftarrow> body_byte pNode 3;
          foldo (\<lambda>i d. do {
              idx \<leftarrow> body_byte pNode (i + 4);
              deleteAbsenceData E (idx + indexOffset - 1) (i = unat deleteCount - 1) d
            }) [0..<unat deleteCount] d
        }
        else deleteAbsenceData E (absenceIndex - 1 + indexOffset) True d);
     d2 \<leftarrow> deleteAbsenceData E (absenceIndex - 1 + indexOffset) True d1;
     reply E [MSG_CMD_DELETE_ABSENCE_DATA, REBACK_SUCCESS_MESSAGE] pNode d2
   }"

section \<open>Countdown\<close>

definition lum_getCountdownIndexOffset :: "u8 \<Rightarrow> u8" where
  "lum_getCountdownIndexOffset pinNum = (if pinNum = 0 then 0 else 0)"

text \<open>
  A count beyond 2015 is a point in time (old clients), any other a number of seconds from now,
  which has to be positive and less than a day.
\<close>

definition rebackSetCountDownData :: "sdk \<Rightarrow> msg_node_body \<Rightarrow> device \<Rightarrow> device option" where
  "rebackSetCountDownData E pNode d = do {
     pinNum \<leftarrow> body_byte pNode 1;
     countDownIndex \<leftarrow> body_byte pNode 2;
     flag \<leftarrow> body_byte pNode 3;
     cbytes \<leftarrow> body_bytes pNode 4 4;
     duty \<leftarrow> body_byte pNode 10;
     let indexOffset = lum_getCountdownIndexOffset pinNum;
     let count = htonl (of_le32 cbytes);
     let cd = \<lparr>cdFlag = flag, cdAction = (if duty = 0xFF then 1 else 0), cdCount = count\<rparr>;
     let (result, d1) =
       (if count > SEC_2015_01_01_00_00_00
        then let (now, d1) = lum_getSystemTime E d
          in if now \<ge> count then (REBACK_FAILD_MESSAGE, d1)
             else (REBACK_SUCCESS_MESSAGE, setCountDownData cd (countDownIndex - 1 + indexOffset) d1)
        else if count = 0 \<or> count \<ge> ONE_DAY_SECOND then (REBACK_FAILD_MESSAGE, d)
        else let (now, d1) = lum_getSystemTime E d
          in (REBACK_SUCCESS_MESSAGE, setCountDownData (cd\<lparr>cdCount := count + now\<rparr>)
                (countDownIndex - 1 + indexOffset) d1));
     reply E [MSG_CMD_SET_COUNDDOWN_DATA, result] pNode d1
   }"

definition fillCountDownRebackData :: "sdk \<Rightarrow> u8 \<Rightarrow> u8 \<Rightarrow> u8 \<Rightarrow> device \<Rightarrow> u8 list \<times> device" where
  "fillCountDownRebackData E countDownIndex indexOffset version d =
     (case getCountDownData countDownIndex d of None \<Rightarrow> ([], d)
      | Some cd \<Rightarrow>
        (let (countLeft, d1) =
           (if version \<noteq> 1 then (cdCount cd, d)
            else let (now, d1) = lum_getSystemTime E d; left = cdCount cd - now
              in (if left \<ge> ONE_DAY_SECOND \<or> sint left \<le> 0 then 0 else left, d1))
         in ([countDownIndex + 1 - indexOffset, cdFlag cd] @ le32 (htonl countLeft)
             @ [0, 0, if cdAction cd = 1 then 0xFF else 0, 0xFF], d1)))"

definition rebackGetCountDownData :: "sdk \<Rightarrow> msg_node_body \<Rightarrow> device \<Rightarrow> device option" where
  "rebackGetCountDownData E pNode d = do {
     pinNum \<leftarrow> body_byte pNode 1;
     countDownIndex \<leftarrow> body_byte pNode 2;
     version \<leftarrow> body_byte pNode 3;
     let indexOffset = lum_getCountdownIndexOffset pinNum;
     let (bs, d1) =
       (if countDownIndex = 0
        then fold (\<lambda>i (bs, d). let (bs', d') = fillCountDownRebackData E (of_nat i + indexOffset) indexOffset version d
                             in (bs @ bs', d')) [0..<MAX_COUNTDOWN_COUNT] ([], d)
        else fillCountDownRebackData E (countDownIndex - 1 + indexOffset) indexOffset version d);
     reply E ([MSG_CMD_GET_COUNTDOWN_DATA, pinNum] @ bs) pNode d1
   }"

definition rebackDeleteCountDownData :: "sdk \<Rightarrow> msg_node_body \<Rightarrow> device \<Rightarrow> device option" where
  "rebackDeleteCountDownData E pNode d = do {
     pinNum \<leftarrow> body_byte pNode 1;
     countDownIndex \<leftarrow> body_byte pNode 2;
     reply E [MSG_CMD_DELETE_COUNTDOWN_DATA, REBACK_SUCCESS_MESSAGE] pNode
       (deleteCountDownData (countDownIndex - 1 + lum_getCountdownIndexOffset pinNum) d)
   }"

section \<open>Connecting to the server\<close>

definition localGetServerAddr :: "sdk \<Rightarrow> msg_node_body \<Rightarrow> device \<Rightarrow> device option" where
  "localGetServerAddr E pNode d =
     request E [MSG_CMD_GET_SERVER_ADDR] (pNode\<lparr>msgOrigin := MSG_FROM_TCP\<rparr>) d"

text \<open>Address and port are kept in network order.\<close>

definition rebackGetServerAddr :: "msg_node_body \<Rightarrow> device \<Rightarrow> device option" where
  "rebackGetServerAddr pNode d = do {
     ip \<leftarrow> body_bytes pNode 1 4;
     p \<leftarrow> body_bytes pNode 5 2;
     map_option snd (deleteRequstSendNode (snIndex pNode)
       (afterGetServerAddr \<lparr>port = of_le16 p, addrIp = of_le32 ip\<rparr> d))
   }"

definition localRequstConnectServer :: "sdk \<Rightarrow> msg_node_body \<Rightarrow> device \<Rightarrow> device option" where
  "localRequstConnectServer E pNode d = do {
     d1 \<leftarrow> lum_delAllTcpWhileReconnServer d;
     request E [MSG_CMD_REQUST_CONNECT] (pNode\<lparr>msgOrigin := MSG_FROM_TCP\<rparr>) d1
   }"

text \<open>The key length in the packet is not looked at.\<close>

definition rebackRequstConnectServer :: "sdk \<Rightarrow> msg_node_body \<Rightarrow> device \<Rightarrow> device option" where
  "rebackRequstConnectServer E pNode d = do {
     key \<leftarrow> body_bytes pNode 2 AES_KEY_LEN;
     (_, d1) \<leftarrow> deleteRequstSendNode (snIndex pNode) (setServerAesKey key d);
     lum_AfterConnectServer E d1
   }"

section \<open>What sending changes\<close>

text \<open>
  Sending a packet allocates, adds at most one packet to the send list, and may take a serial
  number; everything else of the state stays.
\<close>

definition quiet :: "device \<Rightarrow> device \<Rightarrow> bool" where
  "quiet d d' \<longleftrightarrow> deviceConfigData d' = deviceConfigData d
     \<and> connInfo (globalData d') = connInfo (globalData d) \<and> keyData (globalData d') = keyData (globalData d)
     \<and> macAddr (globalData d') = macAddr (globalData d) \<and> devIpAddr (globalData d') = devIpAddr (globalData d)
     \<and> tcpSocketFd d' = tcpSocketFd d \<and> udpSocketFd d' = udpSocketFd d
     \<and> msgList d' = msgList d \<and> nextAddr d \<le> nextAddr d'
     \<and> last_saved (trace d') = last_saved (trace d) \<and> relay_level (trace d') = relay_level (trace d)
     \<and> sent_packets (trace d') = sent_packets (trace d)"

lemma quiet_refl [simp]: "quiet d d"
  by (simp add: quiet_def)

lemma quiet_trans: "quiet a b \<Longrightarrow> quiet b c \<Longrightarrow> quiet a c"
  by (simp add: quiet_def)

lemma quietD:
  assumes "quiet d d'"
  shows "deviceConfigData d' = deviceConfigData d" "connInfo (globalData d') = connInfo (globalData d)"
    "keyData (globalData d') = keyData (globalData d)" "macAddr (globalData d') = macAddr (globalData d)"
    "devIpAddr (globalData d') = devIpAddr (globalData d)" "tcpSocketFd d' = tcpSocketFd d"
    "udpSocketFd d' = udpSocketFd d" "msgList d' = msgList d" "nextAddr d \<le> nextAddr d'"
    "last_saved (trace d') = last_saved (trace d)" "relay_level (trace d') = relay_level (trace d)"
    "sent_packets (trace d') = sent_packets (trace d)"
  using assms by (simp_all add: quiet_def)

lemma quiet_msgs: "quiet d d' \<Longrightarrow> msgs d q \<Longrightarrow> msgs d' q"
  by (auto simp: quiet_def msgs_def intro: less_le_trans)

lemma saveSocketData_off: "\<not> lum_getUdpLogFlag d \<Longrightarrow> saveSocketData E r m s n d = Some d"
  by (simp add: saveSocketData_def)

lemma log_off_congr: "deviceConfigData d' = deviceConfigData d \<Longrightarrow> lum_getUdpLogFlag d' = lum_getUdpLogFlag d"
  by (simp add: lum_getUdpLogFlag_def)

text \<open>What the allocator does, without its bookkeeping.\<close>

definition alloc_frame :: "device \<Rightarrow> device \<Rightarrow> bool" where
  "alloc_frame d d' \<longleftrightarrow> quiet d d' \<and> nextAddr d' = nextAddr d \<and> sendList d' = sendList d
     \<and> socketSn (globalData d') = socketSn (globalData d)"

lemma alloc_frame_refl [simp]: "alloc_frame d d"
  by (simp add: alloc_frame_def)

lemma alloc_frame_trans: "alloc_frame a b \<Longrightarrow> alloc_frame b c \<Longrightarrow> alloc_frame a c"
  by (auto simp: alloc_frame_def intro: quiet_trans)

lemma malloc_alloc_frame: "mallocSocketData E n d = (r, d') \<Longrightarrow> alloc_frame d d'"
  by (cases E n d rule: mallocSocketData_cases)
    (auto simp: alloc_frame_def quiet_def upd_global_def call_def)

lemma free_alloc_frame: "alloc_frame d d' \<Longrightarrow> alloc_frame d (FreeSocketData d')"
  by (auto simp: alloc_frame_def quiet_def FreeSocketData_def upd_global_def call_def)

lemma alloc_frame_log: "alloc_frame d d' \<Longrightarrow> lum_getUdpLogFlag d' = lum_getUdpLogFlag d"
  by (rule log_off_congr) (simp add: alloc_frame_def quiet_def)

lemma createSendSocketData_frame:
  assumes run: "createSendSocketData E c d = Some (r, d')" and log: "\<not> lum_getUdpLogFlag d"
  shows "alloc_frame d d'"
proof -
  obtain b0 d1 where m1: "mallocSocketData E (unat (bodyLen c) + 16 + 16 + 1) d = (b0, d1)" by fastforce
  obtain a0 d2 where m2: "mallocSocketData E (16 + unat (bodyLen c) + 16 + 1) d1 = (a0, d2)" by fastforce
  note f1 = malloc_alloc_frame [OF m1]
  note f2 = alloc_frame_trans [OF f1 malloc_alloc_frame [OF m2]]
  have off: "saveSocketData E False (createOrigin c) (Some b) n d2 = Some d2" for b n
    using saveSocketData_off alloc_frame_log [OF f2] log by simp
  show ?thesis
    using run [unfolded createSendSocketData_def getEncryptDataBuf_def Let_def m1 prod.case m2 off]
      f1 f2 free_alloc_frame [OF f2] free_alloc_frame [OF free_alloc_frame [OF f2]]
    by (auto split: option.splits bind_splits if_splits)
qed

lemma addSendDataToNode_quiet:
  assumes q: "sends d q"
  obtains b d' where "addSendDataToNode E n d = Some (b, d')"
    "if b then sends d' (q @ [(nextAddr d, n)]) \<and> nextAddr d' = nextAddr d + 1
       \<and> sendOrigin n \<noteq> MSG_LOCAL_EVENT
     else sends d' q \<and> nextAddr d' = nextAddr d
       \<and> (sendOrigin n = MSG_LOCAL_EVENT \<or> (\<exists>tr n. \<not> hfmem_malloc E tr n))"
    "quiet d d'"
proof -
  obtain b d' where a: "addSendDataToNode E n d = Some (b, d')"
    "if b then sends d' (q @ [(nextAddr d, n)]) \<and> nextAddr d' = nextAddr d + 1
       \<and> sendOrigin n \<noteq> MSG_LOCAL_EVENT
     else sends d' q \<and> nextAddr d' = nextAddr d
       \<and> (sendOrigin n = MSG_LOCAL_EVENT \<or> (\<exists>tr n. \<not> hfmem_malloc E tr n))"
    "msgList d' = msgList d"
    using addSendDataToNode_sends [OF q] by metis
  have "quiet d d'"
    using a(1) by (cases E SIZEOF_SEND_NODE d rule: mallocSocketData_cases)
      (auto simp: addSendDataToNode_def put_send_node_def insertSendListNode_def quiet_def Let_def
        upd_global_def call_def split: if_splits bind_splits)
  with a show ?thesis using that by blast
qed

text \<open>The packet a handler puts into the send list.\<close>

definition addressed :: "create_socket_data \<Rightarrow> u16 \<Rightarrow> msg_node_body \<Rightarrow> device \<Rightarrow> create_socket_data" where
  "addressed c sn pNode d = c\<lparr>createSn := sn, createOrigin := msgOrigin pNode,
     keyType := getSocketAesKeyType (msgOrigin pNode) (bEncrypt c) d\<rparr>"

definition queues_packet :: "create_socket_data \<Rightarrow> u16 \<Rightarrow> msg_node_body \<Rightarrow> device \<Rightarrow> send_node_data \<Rightarrow> bool" where
  "queues_packet c sn pNode d n \<longleftrightarrow> packet_ok n \<and> payload n = wire (addressed c sn pNode d) d
     \<and> sendSn n = sn \<and> sendCmd n = ucast (cmdData pNode) \<and> sendOrigin n = msgOrigin pNode
     \<and> sendIp n = socketIp pNode \<and> sendReback n = createReback c \<and> sendCount n = 0 \<and> nextSendTime n = 0"

definition packet_of :: "u8 \<Rightarrow> u8 list \<Rightarrow> u16 \<Rightarrow> msg_node_body \<Rightarrow> device \<Rightarrow> create_socket_data" where
  "packet_of rb body sn pNode d = (socket_data rb body)\<lparr>createSn := sn, createOrigin := msgOrigin pNode,
     keyType := getSocketAesKeyType (msgOrigin pNode) 1 d\<rparr>"

definition sends_packet :: "u8 \<Rightarrow> u8 list \<Rightarrow> u16 \<Rightarrow> msg_node_body \<Rightarrow> device \<Rightarrow> send_node_data \<Rightarrow> bool" where
  "sends_packet rb body sn pNode d n \<longleftrightarrow> packet_ok n \<and> payload n = wire (packet_of rb body sn pNode d) d
     \<and> sendSn n = sn \<and> sendCmd n = ucast (cmdData pNode) \<and> sendOrigin n = msgOrigin pNode
     \<and> sendIp n = socketIp pNode \<and> sendReback n = rb \<and> sendCount n = 0 \<and> nextSendTime n = 0"

lemma packet_header_global: "deviceConfigData d' = deviceConfigData d \<Longrightarrow>
    macAddr (globalData d') = macAddr (globalData d) \<Longrightarrow> keyData (globalData d') = keyData (globalData d) \<Longrightarrow>
    wire c d' = wire c d"
  by (simp add: wire_def packet_def packet_header_congr [of d' d] cipher_text_congr [of d' d])

lemma length_wire:
  assumes "keys_ok d" "sendable c"
  shows "16 \<le> length (wire c d)" "length (wire c d) \<le> 249"
proof -
  have "length (packet_header c d) = 16" using length_packet_header [OF assms(1)] .
  moreover have "length (drop 9 (packet c d)) = unat (bodyLen c) + 7" "unat (bodyLen c) \<le> 232"
    using assms calculation by (simp_all add: packet_def sendable_def)
  ultimately show "16 \<le> length (wire c d)" "length (wire c d) \<le> 249"
    using length_cipher_text [OF assms(1), where x = "drop 9 (packet c d)" and kt = "keyType c"]
    by (simp_all add: wire_def Let_def)
qed

lemma msgSendSocketData_queues:
  assumes q: "sends d q" and k: "keys_ok d" and log: "\<not> lum_getUdpLogFlag d" and sc: "sendable c"
  obtains sn d' where "msgSendSocketData E c pNode d = Some d'" "quiet d d'"
    "sn = (if createReback c = 1 then snIndex pNode else fst (getSocketSn True d))"
    "sends d' q \<and> (msgOrigin pNode = MSG_LOCAL_EVENT \<or> (\<exists>tr n. \<not> hfmem_malloc E tr n))
     \<or> (\<exists>n. sends d' (q @ [(nextAddr d, n)]) \<and> queues_packet c sn pNode d n)"
proof -
  obtain sn d1 where s: "(if createReback c = 1 then (snIndex pNode, d) else getSocketSn True d) = (sn, d1)" by fastforce
  have sn: "sn = (if createReback c = 1 then snIndex pNode else fst (getSocketSn True d))"
    using arg_cong [OF s, of fst] by (simp split: if_splits)
  have d1: "quiet d d1" "nextAddr d1 = nextAddr d" "sends d1 q"
    using s q by (auto simp: getSocketSn_def quiet_def Let_def upd_global_def sends_def split: if_splits)
  let ?c = "addressed c sn pNode d"
  have kt: "getSocketAesKeyType (msgOrigin pNode) (bEncrypt c) d1 = getSocketAesKeyType (msgOrigin pNode) (bEncrypt c) d"
    by (rule getSocketAesKeyType_congr) (rule quietD(3) [OF d1(1)])
  have c: "c\<lparr>createSn := sn, createOrigin := msgOrigin pNode,
      keyType := getSocketAesKeyType (msgOrigin pNode) (bEncrypt c) d1\<rparr> = ?c"
    unfolding addressed_def kt [symmetric] ..
  note unf = msgSendSocketData_def [of E c pNode d, unfolded s prod.case Let_def c]
  have sc1: "sendable ?c" using sc by (simp add: addressed_def sendable_def)
  have k1: "keys_ok d1" using keys_ok_congr [OF quietD(3,4) [OF d1(1)]] k by simp
  have l1: "\<not> lum_getUdpLogFlag d1" using log_off_congr [OF quietD(1) [OF d1(1)]] log by simp
  have w: "wire ?c d1 = wire ?c d" by (rule packet_header_global) (use quietD [OF d1(1)] in auto)
  obtain r d2 where r: "createSendSocketData E ?c d1 = Some (r, d2)"
    "case r of None \<Rightarrow> \<exists>tr n. \<not> hfmem_malloc E tr n
     | Some (buf, len) \<Rightarrow> len = of_nat (length (wire ?c d)) \<and> (\<exists>t. buf = wire ?c d @ t)"
    using createSendSocketData_total [OF k1 sc1 l1, of E] unfolding w by blast
  note f2 = createSendSocketData_frame [OF r(1) l1]
  have d2: "quiet d d2" "nextAddr d2 = nextAddr d" "sends d2 q"
    using f2 d1 quiet_trans sends_cong [of d2 d1] by (auto simp: alloc_frame_def)
  show ?thesis
  proof (cases r)
    case None
    then show ?thesis using unf r d2 sn by (intro that [of d2 sn]) simp_all
  next
    case (Some p)
    obtain t where t: "p = (wire ?c d @ t, of_nat (length (wire ?c d)))" using r(2) Some by (cases p) auto
    define n where "n = \<lparr>sendSn = sn, sendLen = of_nat (length (wire ?c d)), sendCmd = ucast (cmdData pNode),
      sendData = Some (wire ?c d @ t), sendOrigin = msgOrigin pNode, sendIp = socketIp pNode,
      sendReback = createReback c, sendCount = 0, faildTimes = 0, nextSendTime = 0\<rparr>"
    have "(ucast (of_nat (length (wire ?c d)) :: u32) :: u16) = of_nat (length (wire ?c d))"
      using length_wire [OF k sc1] by (simp add: word_unat_eq_iff unsigned_ucast_eq take_bit_eq_mod unat_of_nat)
    then have unf2: "msgSendSocketData E c pNode d = map_option snd (addSendDataToNode E n d2)"
      using unf r(1) Some t by (simp add: n_def addressed_def)
    have lw: "unat (of_nat (length (wire ?c d)) :: u16) = length (wire ?c d)"
      using length_wire [OF k sc1] by (simp add: unat_of_nat)
    obtain b d3 where a: "addSendDataToNode E n d2 = Some (b, d3)"
      "if b then sends d3 (q @ [(nextAddr d2, n)]) \<and> nextAddr d3 = nextAddr d2 + 1
         \<and> sendOrigin n \<noteq> MSG_LOCAL_EVENT
       else sends d3 q \<and> nextAddr d3 = nextAddr d2
         \<and> (sendOrigin n = MSG_LOCAL_EVENT \<or> (\<exists>tr n. \<not> hfmem_malloc E tr n))"
      "quiet d2 d3"
      using addSendDataToNode_quiet [OF d2(3)] .
    have "queues_packet c sn pNode d n" if "msgOrigin pNode \<noteq> MSG_LOCAL_EVENT"
      using that lw by (simp add: queues_packet_def packet_ok_def payload_def n_def)
    then show ?thesis using unf2 a d2 sn
      by (intro that [of d3 sn]) (auto simp: n_def intro: quiet_trans split: if_splits)
  qed
qed

lemma msgSendSocketData_sends:
  assumes q: "sends d q" and k: "keys_ok d" and log: "\<not> lum_getUdpLogFlag d"
    and body: "1 \<le> length body" "length body \<le> 232" and rb: "rb = 0 \<or> rb = 1"
  obtains sn d' where "msgSendSocketData E (socket_data rb body) pNode d = Some d'" "quiet d d'"
    "sn = (if rb = 1 then snIndex pNode else fst (getSocketSn True d))"
    "sends d' q \<and> (msgOrigin pNode = MSG_LOCAL_EVENT \<or> (\<exists>tr n. \<not> hfmem_malloc E tr n))
     \<or> (\<exists>n. sends d' (q @ [(nextAddr d, n)]) \<and> sends_packet rb body sn pNode d n)"
proof -
  have "unat (of_nat (length body) :: u16) = length body" using body by (simp add: unat_of_nat)
  then have sc: "sendable (socket_data rb body)" using body by (simp add: socket_data_def sendable_def)
  have same: "queues_packet (socket_data rb body) sn pNode d n = sends_packet rb body sn pNode d n" for sn n
    by (simp add: queues_packet_def sends_packet_def addressed_def packet_of_def socket_data_def)
  show ?thesis
    using msgSendSocketData_queues [OF q k log sc, of E pNode] that
    by (metis same create_socket_data.select_convs(2) socket_data_def)
qed

end
