(* ===== verification/Message_Thread.thy ===== *)
theory Message_Thread
  imports Message_Dispose
begin

text \<open>
  The message thread (\<open>asyncMessage.c\<close>): packets that pass the checks become messages, and one
  pass of the thread handles the first message, deletes it and sends what is due.
\<close>

section \<open>From packets to messages\<close>

text \<open>When the node cannot be allocated the decrypted packet is lost without being freed.\<close>

definition insertSocketMsgToList ::
    "sdk \<Rightarrow> msg_origin \<Rightarrow> u8 list \<Rightarrow> u32 \<Rightarrow> u32 \<Rightarrow> device \<Rightarrow> (bool \<times> device) option" where
  "insertSocketMsgToList E origin dat len ip d =
     (if origin \<noteq> MSG_FROM_UDP \<and> origin \<noteq> MSG_FROM_TCP then Some (False, d)
      else do {
        ok \<leftarrow> lum_checkSocketBeforeAES len dat;
        if \<not> ok then Some (False, d)
        else do {
          (r, d1) \<leftarrow> encryptRecvSocketData E origin dat len d;
          case r of None \<Rightarrow> Some (False, d1)
          | Some (buf, aesDataLen) \<Rightarrow> do {
              ok2 \<leftarrow> lum_checkSocketAfterAES buf d1;
              if \<not> ok2 then Some (False, FreeSocketData d1)
              else do {
                d2 \<leftarrow> saveSocketData E True origin (Some buf) (unat aesDataLen) d1;
                let (node, d3) = mallocSocketData E SIZEOF_MSG_NODE d2;
                if node = None then Some (False, d3)
                else do {
                  cmd \<leftarrow> rd buf SOCKET_HEADER_LEN;
                  flag \<leftarrow> rd buf 1;
                  sn \<leftarrow> rds buf 10 2;
                  d4 \<leftarrow> enqueue_msg \<lparr>bReback = bit flag 1, cmdData = ucast cmd, snIndex = of_le16 sn,
                          dataLen = ucast aesDataLen, pData = Some buf, msgOrigin = origin,
                          socketIp = ip\<rparr> d3;
                  Some (True, d4)
                }
              }
            }
        }
      })"

section \<open>Dispatch\<close>

definition dispatch :: "sdk \<Rightarrow> msg_node_body \<Rightarrow> device \<Rightarrow> device option" where
  "dispatch E b d =
     (let cmd = cmdData b; isLocal = (msgOrigin b = MSG_LOCAL_EVENT)
      in if cmd = MSG_CMD_FOUND_DEVICE then rebackFoundDevice E b d
         else if cmd = MSG_CMD_HEART_BEAT then rebackHeartBeat E b d
         else if cmd = MSG_CMD_QUARY_MODULE_INFO then rebackGetDeviceInfo E b d
         else if cmd = MSG_CMD_SET_MODULE_NAME then rebackSetDeviceName E b d
         else if cmd = MSG_CMD_MODULE_UPGRADE
           then if isLocal then Some (LocalGetDeviceUpgrade d) else rebackGetDeviceUpgrade E b d
         else if cmd = MSG_CMD_ENTER_SMART_LINK then rebackEnterSmartLink E b d
         else if cmd = MSG_CMD_LOCK_DEVICE then rebackLockDevice E b d
         else if cmd = MSG_CMD_SET_GPIO_STATUS then rebackSetGpioStatus E b d
         else if cmd = MSG_CMD_GET_GPIO_STATUS then rebackGetGpioStatus E b d
         else if cmd = MSG_CMD_SET_ALARM_DATA then rebackSetAlarmData E b d
         else if cmd = MSG_CMD_GET_ALARM_DATA then rebackGetAlarmData E b d
         else if cmd = MSG_CMD_DELETE_ALARM_DATA then rebackDeleteAlarmData E b d
         else if cmd = MSG_CMD_SET_ABSENCE_DATA then rebackSetAbsenceData E b d
         else if cmd = MSG_CMD_GET_ABSENCE_DATA then rebackGetAbsenceData E b d
         else if cmd = MSG_CMD_DELETE_ABSENCE_DATA then rebackDeleteAbsenceData E b d
         else if cmd = MSG_CMD_SET_COUNDDOWN_DATA then rebackSetCountDownData E b d
         else if cmd = MSG_CMD_GET_COUNTDOWN_DATA then rebackGetCountDownData E b d
         else if cmd = MSG_CMD_DELETE_COUNTDOWN_DATA then rebackDeleteCountDownData E b d
         else if cmd = MSG_CMD_GET_SERVER_ADDR
           then if isLocal then localGetServerAddr E b d else rebackGetServerAddr b d
         else if cmd = MSG_CMD_REQUST_CONNECT
           then if isLocal then localRequstConnectServer E b d else rebackRequstConnectServer E b d
         else if cmd = MSG_CMD_REPORT_GPIO_CHANGE
           then if isLocal then reportGpioChangeEvent E b d else rebackReportGpioChange b d
         else if cmd = MSG_CMD_LOCAL_GET_UTC_TIME then getUtcTimeByMessage E d
         else if cmd = MSG_CMD_DEVICE_RESET_FACTORY
           then if isLocal then localRequstFactoryDataReset E b d else lum_replyFactoryDataReset d
         else if cmd = MSG_CMD_APP_RESET_FACTORY then lum_appResetFactory E b d
         else if cmd = MSG_CMD_LOCAL_RESET_FACTORY then Some (lum_deviceFactoryReset E d)
         else if cmd = MSG_CMD_SET_UDP_LOG_FLAG then lum_cmdSetUdpLogFlag E b d
         else Some d)"

text \<open>The body of the loop of \<open>deviceMessageThread\<close>.\<close>

definition handle_first_message :: "sdk \<Rightarrow> device \<Rightarrow> device option" where
  "handle_first_message E d =
     (case firstNodePtr (msgList d) of None \<Rightarrow> Some d
      | Some curNode \<Rightarrow> do {
          b \<leftarrow> node_body (msgList d) curNode;
          d1 \<leftarrow> dispatch E b d;
          (_, d2) \<leftarrow> deleteListNode (Some curNode) d1;
          Some d2
        })"

definition deviceMessageThread_step :: "sdk \<Rightarrow> device \<Rightarrow> device option" where
  "deviceMessageThread_step E d = do {
     d1 \<leftarrow> handle_first_message E (call Watchdog_reset d);
     (_, d2) \<leftarrow> sendSocketData E (getTcpSocketFd d1) (getUdpSocketFd d1) d1;
     Some (if firstNodePtr (msgList d2) = None then call (Msleep 50) d2 else d2)
   }"

text \<open>What the thread does before its loop.\<close>

definition deviceMessageThread_start :: "device \<Rightarrow> device" where
  "deviceMessageThread_start d = call (Watchdog_enable 30) (messageListInit d)"

section \<open>The receiving threads\<close>

definition initUdpSockrtMutex :: "device \<Rightarrow> device" where
  "initUdpSockrtMutex d = call (Mutex_new g_udp_socket_mutex) d"

definition initTcpSockrtMutex :: "device \<Rightarrow> device" where
  "initTcpSockrtMutex d = call (Mutex_new g_tcp_socket_mutex) d"

text \<open>
  The local thread first waits for an address; the result says whether its socket is open.
\<close>

definition deviceLocalUdpThread_start :: "sdk \<Rightarrow> device \<Rightarrow> (bool \<times> device) option" where
  "deviceLocalUdpThread_start E d =
     (if \<not> getDeviceConnectInfo DHPC_OK_BIT d then Some (False, call (Msleep 1000) d)
      else map_option (\<lambda>d1. (True, call (Watchdog_enable 30) d1)) (udpSocketInit E d))"

definition deviceServerTcpThread_start :: "device \<Rightarrow> device" where
  "deviceServerTcpThread_start d =
     call (Watchdog_enable 60) (call (Msleep 100) (initTcpSockrtMutex d))"

definition deviceLocalUdpThread_step :: "sdk \<Rightarrow> device \<Rightarrow> device option" where
  "deviceLocalUdpThread_step E d0 =
     (let d = call Watchdog_reset d0
      in if \<not> getDeviceConnectInfo DHPC_OK_BIT d then Some (call (Msleep 2000) d)
         else let (sel, d1) = socketSelectRead E (udpSocketFd d) MAX_SOCKET_SELECT_WAIT_SECOND d
         in if sel AND SOCKET_READ_ENABLE \<noteq> 0 then do {
              ((buf, count, ip), d2) \<leftarrow> recvUdpData E d1;
              map_option snd (insertSocketMsgToList E MSG_FROM_UDP buf count ip d2)
            }
            else Some d1)"

definition deviceServerTcpThread_step :: "sdk \<Rightarrow> device \<Rightarrow> device option" where
  "deviceServerTcpThread_step E d0 = do {
     (again, d1) \<leftarrow> checkTcpConnStatus E (call Watchdog_reset d0);
     if again then Some d1
     else let (sel, d2) = socketSelectRead E (tcpSocketFd d1) MAX_SOCKET_SELECT_WAIT_SECOND d1
     in if sel AND SOCKET_READ_ENABLE \<noteq> 0 then do {
          ((recvBuf, count), d3) \<leftarrow> recvTcpData E d2;
          case recvBuf of
            Some buf \<Rightarrow> map_option snd (insertSocketMsgToList E MSG_FROM_TCP buf count 0 d3)
          | None \<Rightarrow> Some (call (Msleep 10000) d3)
        }
        else Some d2
   }"

end
