(* ===== verification/Message_Properties.thy ===== *)
theory Message_Properties
  imports Message_Thread
begin

text \<open>
  What the handlers do: the replies they queue, the state they change, and the packets they
  cannot handle.
\<close>

section \<open>Reading a request\<close>

text \<open>The message carries a packet with this body (the command first).\<close>

definition carries :: "msg_node_body \<Rightarrow> u8 list \<Rightarrow> bool" where
  "carries pNode body \<longleftrightarrow>
     (case pData pNode of None \<Rightarrow> False
      | Some buf \<Rightarrow> 16 + length body \<le> length buf \<and> take (length body) (drop 16 buf) = body)"

lemma carries_bytes:
  assumes "carries pNode body" "i + n \<le> length body"
  shows "body_bytes pNode i n = Some (take n (drop i body))"
proof -
  obtain buf where buf: "pData pNode = Some buf" "16 + length body \<le> length buf"
    "take (length body) (drop 16 buf) = body"
    using assms(1) by (auto simp: carries_def split: option.splits)
  have "take n (drop i (take (length body) (drop 16 buf))) = take n (drop i (drop 16 buf))"
    using assms(2) by (simp add: drop_take min_def)
  then show ?thesis using buf assms(2) by (simp add: body_bytes_def rds_def add.commute)
qed

lemma carries_byte:
  assumes "carries pNode body" "i < length body"
  shows "body_byte pNode i = Some (body ! i)"
proof -
  obtain buf where buf: "pData pNode = Some buf" "16 + length body \<le> length buf"
    "take (length body) (drop 16 buf) = body"
    using assms(1) by (auto simp: carries_def split: option.splits)
  have "body ! i = drop 16 buf ! i" using buf(3) assms(2) by (metis nth_take)
  then show ?thesis using buf assms(2) by (simp add: body_byte_def)
qed

section \<open>Queueing a reply\<close>

definition device_ok :: "device \<Rightarrow> bool" where
  "device_ok d \<longleftrightarrow> keys_ok d \<and> \<not> lum_getUdpLogFlag d \<and> config_shape (deviceConfigData d)"

definition memory_left :: "sdk \<Rightarrow> bool" where
  "memory_left E \<longleftrightarrow> (\<forall>tr n. hfmem_malloc E tr n)"

lemma reply_queued:
  assumes q: "sends d q" and ok: "keys_ok d" "\<not> lum_getUdpLogFlag d"
    and body: "1 \<le> length body" "length body \<le> 232"
    and o: "msgOrigin pNode \<noteq> MSG_LOCAL_EVENT" and m: "memory_left E"
  obtains n d' where "reply E body pNode d = Some d'" "quiet d d'"
    "sends d' (q @ [(nextAddr d, n)])" "sends_packet 1 body (snIndex pNode) pNode d n"
proof -
  have rb: "(1 :: u8) = 0 \<or> (1 :: u8) = 1" by simp
  obtain sn d' where r: "msgSendSocketData E (socket_data 1 body) pNode d = Some d'" "quiet d d'"
    "sn = (if (1 :: u8) = 1 then snIndex pNode else fst (getSocketSn True d))"
    "sends d' q \<and> (msgOrigin pNode = MSG_LOCAL_EVENT \<or> (\<exists>tr n. \<not> hfmem_malloc E tr n))
     \<or> (\<exists>n. sends d' (q @ [(nextAddr d, n)]) \<and> sends_packet 1 body sn pNode d n)"
    using msgSendSocketData_sends [OF q ok body rb] .
  then show ?thesis using that o m by (auto simp: reply_def memory_left_def)
qed

lemma quiet_device_ok:
  assumes "quiet d d'" "device_ok d"
  shows "device_ok d'"
  using keys_ok_congr [OF quietD(3,4) [OF assms(1)]] log_off_congr [OF quietD(1) [OF assms(1)]]
    quietD(1) [OF assms(1)] assms(2) by (simp add: device_ok_def)

section \<open>Setting an alarm and reading it back\<close>

lemma store_alarm_frame:
  assumes "device_ok d"
  shows "device_ok (store_alarm k a d)" "sends (store_alarm k a d) q = sends d q"
    "nextAddr (store_alarm k a d) = nextAddr d" "config_saved (store_alarm k a d)"
    "keyData (globalData (store_alarm k a d)) = keyData (globalData d)"
proof -
  show "config_saved (store_alarm k a d)" by (simp add: store_alarm_def)
qed (use assms in \<open>auto simp: store_alarm_def device_ok_def keys_ok_def lum_getUdpLogFlag_def
      config_shape_def saveDeviceConfigData_def\<close>)

lemma rebackSetAlarmData_ok:
  assumes q: "sends d q" and d: "device_ok d" and m: "memory_left E"
    and p: "carries pNode ([3, pin, idx] @ alarm_bytes a @ [bAdd])" "msgOrigin pNode \<noteq> MSG_LOCAL_EVENT"
    and k: "alarm_slot (alarmData (deviceConfigData d)) (if bAdd = 0xFF then 0xFE else idx - 1) = Some k"
  obtains n d' where "rebackSetAlarmData E pNode d = Some d'" "quiet (store_alarm k a d) d'"
    "sends d' (q @ [(nextAddr d, n)])"
    "sends_packet 1 [3, of_nat k + 1] (snIndex pNode) pNode (store_alarm k a d) n"
proof -
  have shape: "config_shape (deviceConfigData d)" using d by (simp add: device_ok_def)
  have b: "body_byte pNode 1 = Some pin" "body_byte pNode 2 = Some idx" "body_byte pNode 9 = Some bAdd"
    using carries_byte [OF p(1), of 1] carries_byte [OF p(1), of 2] carries_byte [OF p(1), of 9]
    by (simp_all add: alarm_bytes_def nth_append)
  have a: "body_bytes pNode 3 6 = Some (alarm_bytes a)"
    using carries_bytes [OF p(1), of 3 6] by simp
  have s: "setAlarmData a (if bAdd = 0xFF then 0xFE else idx - 1) 0 d = Some (of_nat k, store_alarm k a d)"
    using setAlarmData_slot [OF shape] k by simp
  note f = store_alarm_frame [OF d, of k a]
  have q': "sends (store_alarm k a d) q" using f(2) q by simp
  have ok: "keys_ok (store_alarm k a d)" "\<not> lum_getUdpLogFlag (store_alarm k a d)"
    using f(1) by (simp_all add: device_ok_def)
  have l: "1 \<le> length [3 :: u8, of_nat k + 1]" "length [3 :: u8, of_nat k + 1] \<le> 232" by simp_all
  obtain n d' where "reply E [3, of_nat k + 1] pNode (store_alarm k a d) = Some d'"
    "quiet (store_alarm k a d) d'" "sends d' (q @ [(nextAddr (store_alarm k a d), n)])"
    "sends_packet 1 [3, of_nat k + 1] (snIndex pNode) pNode (store_alarm k a d) n"
    using reply_queued [OF q' ok l p(2) m] .
  then show ?thesis using b a s f
    by (cases "bAdd = 0xFF"; intro that [of d' n])
      (simp_all add: rebackSetAlarmData_def lum_getAlarmIndexOffset_def)
qed

lemma rebackGetAlarmData_ok:
  assumes q: "sends d q" and d: "device_ok d" and m: "memory_left E"
    and p: "carries pNode [4, pin, i]" "msgOrigin pNode \<noteq> MSG_LOCAL_EVENT"
    and a: "i \<noteq> 0" "getAlarmData (i - 1) d = Some a"
  obtains n d' where "rebackGetAlarmData E pNode d = Some d'" "quiet d d'"
    "sends d' (q @ [(nextAddr d, n)])"
    "sends_packet 1 ([4, pin, i] @ alarm_bytes a) (snIndex pNode) pNode d n"
proof -
  have b: "body_byte pNode 1 = Some pin" "body_byte pNode 2 = Some i"
    using carries_byte [OF p(1), of 1] carries_byte [OF p(1), of 2] by simp_all
  have ok: "keys_ok d" "\<not> lum_getUdpLogFlag d" using d by (simp_all add: device_ok_def)
  have l: "1 \<le> length ([4, pin, i] @ alarm_bytes a)" "length ([4, pin, i] @ alarm_bytes a) \<le> 232"
    by simp_all
  obtain n d' where "reply E ([4, pin, i] @ alarm_bytes a) pNode d = Some d'"
    "quiet d d'" "sends d' (q @ [(nextAddr d, n)])"
    "sends_packet 1 ([4, pin, i] @ alarm_bytes a) (snIndex pNode) pNode d n"
    using reply_queued [OF q ok l p(2) m] .
  then show ?thesis using b a
    by (intro that [of d' n]) (simp_all add: rebackGetAlarmData_def lum_getAlarmIndexOffset_def
      append_data_def fillAlarmRebackData_def)
qed

text \<open>
  Property C8: an alarm sent by a client is stored in the slot the reply names (the first free
  one, or the one asked for), the configuration is saved, and a request for that slot is
  answered with the alarm that was sent.
\<close>

theorem alarm_set_then_get:
  "sends d q \<Longrightarrow> device_ok d \<Longrightarrow> memory_left E \<Longrightarrow>
   carries p1 ([3, pin, idx] @ alarm_bytes a @ [bAdd]) \<Longrightarrow> msgOrigin p1 \<noteq> MSG_LOCAL_EVENT \<Longrightarrow>
   alarm_slot (alarmData (deviceConfigData d)) (if bAdd = 0xFF then 0xFE else idx - 1) = Some k \<Longrightarrow>
   carries p2 [4, pin2, of_nat k + 1] \<Longrightarrow> msgOrigin p2 \<noteq> MSG_LOCAL_EVENT \<Longrightarrow>
   \<exists>d1 d2 x1 x2. rebackSetAlarmData E p1 d = Some d1 \<and> config_saved d1
     \<and> rebackGetAlarmData E p2 d1 = Some d2 \<and> sends d2 (q @ [x1, x2])
     \<and> sends_packet 1 [3, of_nat k + 1] (snIndex p1) p1 d (snd x1)
     \<and> sends_packet 1 ([4, pin2, of_nat k + 1] @ alarm_bytes a) (snIndex p2) p2 d1 (snd x2)"
proof -
  assume q: "sends d q" and d: "device_ok d" and m: "memory_left E"
    and p1: "carries p1 ([3, pin, idx] @ alarm_bytes a @ [bAdd])" "msgOrigin p1 \<noteq> MSG_LOCAL_EVENT"
    and k: "alarm_slot (alarmData (deviceConfigData d)) (if bAdd = 0xFF then 0xFE else idx - 1) = Some k"
    and p2: "carries p2 [4, pin2, of_nat k + 1]" "msgOrigin p2 \<noteq> MSG_LOCAL_EVENT"
  let ?d = "store_alarm k a d"
  have k32: "k < 32" using alarm_slot_bound [OF k] by simp
  obtain n1 d1 where d1: "rebackSetAlarmData E p1 d = Some d1" "quiet ?d d1"
    "sends d1 (q @ [(nextAddr d, n1)])" "sends_packet 1 [3, of_nat k + 1] (snIndex p1) p1 ?d n1"
    using rebackSetAlarmData_ok [OF q d m p1 k] .
  have ok1: "device_ok d1" using quiet_device_ok [OF d1(2)] store_alarm_frame(1) [OF d] by blast
  have "k < length (alarmData (deviceConfigData d))" using k32 d by (simp add: device_ok_def config_shape_def)
  then have "getAlarmData (of_nat k + 1 - 1) d1 = Some a"
    using k32 quietD(1) [OF d1(2)]
    by (simp add: getAlarmData_def store_alarm_def word_le_nat_alt unat_of_nat)
  moreover have "of_nat k + 1 \<noteq> (0 :: u8)"
  proof -
    have "unat (of_nat (k + 1) :: u8) = k + 1" using k32 by (simp only: unat_of_nat) simp
    then show ?thesis by (metis add_is_0 of_nat_1 of_nat_add unat_eq_zero zero_neq_one)
  qed
  ultimately obtain n2 d2 where d2: "rebackGetAlarmData E p2 d1 = Some d2"
    "sends d2 ((q @ [(nextAddr d, n1)]) @ [(nextAddr d1, n2)])"
    "sends_packet 1 ([4, pin2, of_nat k + 1] @ alarm_bytes a) (snIndex p2) p2 d1 n2"
    using rebackGetAlarmData_ok [OF d1(3) ok1 m p2] by metis
  have saved: "config_saved d1"
    using store_alarm_frame(4) [OF d, of k a] quietD(1,10) [OF d1(2)] by (simp add: config_saved_def)
  have "sends_packet 1 [3, of_nat k + 1] (snIndex p1) p1 d n1"
    using d1(4) by (auto simp: sends_packet_def packet_of_def socket_data_def wire_def packet_def
      packet_header_def cipher_text_def key_of_def getAesKeyData_def getSocketAesKeyType_def
      store_alarm_def split: aes_key_type.splits)
  then show ?thesis using d1(1) d2 saved
    by (intro exI [of _ d1] exI [of _ d2] exI [of _ "(nextAddr d, n1)"] exI [of _ "(nextAddr d1, n2)"]) simp
qed

text \<open>A message that came as a local packet with this body.\<close>

definition udp_message :: "u8 list \<Rightarrow> msg_node_body" where
  "udp_message body = \<lparr>bReback = False, cmdData = ucast (hd body), snIndex = 5,
     dataLen = of_nat (16 + length body), pData = Some (replicate 16 0 @ body @ [0]),
     msgOrigin = MSG_FROM_UDP, socketIp = 1\<rparr>"

lemma udp_message_carries [simp]: "carries (udp_message body) body"
    "msgOrigin (udp_message body) \<noteq> MSG_LOCAL_EVENT"
  by (simp_all add: udp_message_def carries_def)

lemma device_ok_power_on: "device_ok power_on"
  by (simp add: device_ok_def keys_ok_def lum_getUdpLogFlag_def power_on_def zero_global_def
      zero_config_def config_shape_def)

lemma memory_left_plain: "memory_left plain_sdk"
  by (simp add: memory_left_def plain_sdk_def)

theorem alarm_set_then_get_witness:
  "\<exists>d1 d2 x1 x2. rebackSetAlarmData plain_sdk (udp_message ([3, 0, 7] @ alarm_bytes evening_alarm @ [0])) power_on = Some d1
     \<and> rebackGetAlarmData plain_sdk (udp_message [4, 0, 7]) d1 = Some d2 \<and> sends d2 [x1, x2]"
proof -
  have k: "alarm_slot (alarmData (deviceConfigData power_on)) (if (0 :: u8) = 0xFF then 0xFE else 7 - 1) = Some 6"
    by (simp add: alarm_slot_def)
  have p: "carries (udp_message [4, 0, 7]) [4, 0, of_nat 6 + 1]" by simp
  show ?thesis
    using alarm_set_then_get [OF sends_power_on device_ok_power_on memory_left_plain
        udp_message_carries(1) udp_message_carries(2) k p udp_message_carries(2), simplified append_Nil]
    by blast
qed

section \<open>Switching the relay\<close>

lemma sends_more:
  "sendList d' = sendList d \<Longrightarrow> nextAddr d \<le> nextAddr d' \<Longrightarrow> sends d q \<Longrightarrow> sends d' q"
  by (auto simp: sends_def intro: less_le_trans)

lemma sends_packet_congr:
  assumes "deviceConfigData d' = deviceConfigData d" "macAddr (globalData d') = macAddr (globalData d)"
    "keyData (globalData d') = keyData (globalData d)"
  shows "sends_packet rb body sn pNode d' n = sends_packet rb body sn pNode d n"
  using packet_header_global [OF assms] getSocketAesKeyType_congr [OF assms(3)]
  by (simp add: sends_packet_def packet_of_def)

lemma core_device_ok:
  assumes "core d' = core d" "device_ok d"
  shows "device_ok d'"
  using core_eqD(1,11,13) [OF assms(1)] assms(2)
  by (simp add: device_ok_def keys_ok_def lum_getUdpLogFlag_def)

lemma rebackSetGpioStatus_effect:
  assumes q: "sends d q" and mq: "msgs d mq" "length mq < 256" and d: "device_ok d" and m: "memory_left E"
    and p: "carries pNode [1, flag, fre, duty, res]" "msgOrigin pNode \<noteq> MSG_LOCAL_EVENT"
  obtains d' x where "rebackSetGpioStatus E pNode d = Some d'"
    "relay_level (trace d') = Some (duty = 0xFF)" "deviceConfigData d' = deviceConfigData d"
    "sends d' (q @ [x])" "sends_packet 1 [1, flag, fre, duty, res] (snIndex pNode) pNode d (snd x)"
    "if hfgpio_fpin_is_high E (trace d) HFGPIO_F_SWITCH = (duty = 0xFF) then msgs d' mq
     else msgs d' (mq @ [(nextAddr d, report_msg (if duty = 0xFF then SWITCH_OPEN else SWITCH_CLOSE) SWITCH_PIN_1)])"
proof -
  let ?a = "if duty = 0xFF then SWITCH_OPEN else SWITCH_CLOSE"
  have g: "body_bytes pNode 1 4 = Some [flag, fre, duty, res]"
    using carries_bytes [OF p(1), of 1 4] by simp
  obtain d1 where s: "setSwitchStatus E ?a SWITCH_PIN_1 d = Some d1"
    "msgs d1 mq \<and> nextAddr d1 = nextAddr d
       \<and> ((hfgpio_fpin_is_high E (trace d) HFGPIO_F_SWITCH \<longleftrightarrow> ?a = SWITCH_OPEN)
          \<or> (\<exists>tr n. \<not> hfmem_malloc E tr n))
     \<or> msgs d1 (mq @ [(nextAddr d, report_msg ?a SWITCH_PIN_1)]) \<and> nextAddr d1 = nextAddr d + 1
       \<and> \<not> (hfgpio_fpin_is_high E (trace d) HFGPIO_F_SWITCH \<longleftrightarrow> ?a = SWITCH_OPEN)"
    using setSwitchStatus_msgs [OF mq] .
  note c = setSwitchStatus_core [OF s(1)]
  have q1: "sends d1 q" by (rule sends_more [OF core_eqD(2) [OF c(1)] _ q]) (use s(2) in auto)
  have ok1: "keys_ok d1" "\<not> lum_getUdpLogFlag d1" using core_device_ok [OF c(1) d] by (simp_all add: device_ok_def)
  have l: "1 \<le> length [1, flag, fre, duty, res]" "length [1, flag, fre, duty, res] \<le> 232" by simp_all
  obtain n d' where r: "reply E [1, flag, fre, duty, res] pNode d1 = Some d'" "quiet d1 d'"
    "sends d' (q @ [(nextAddr d1, n)])" "sends_packet 1 [1, flag, fre, duty, res] (snIndex pNode) pNode d1 n"
    using reply_queued [OF q1 ok1 l p(2) m] .
  have n: "sends_packet 1 [1, flag, fre, duty, res] (snIndex pNode) pNode d n"
    using r(4) sends_packet_congr [OF core_eqD(1,13,11) [OF c(1)]] by simp
  have "if hfgpio_fpin_is_high E (trace d) HFGPIO_F_SWITCH = (duty = 0xFF) then msgs d1 mq
     else msgs d1 (mq @ [(nextAddr d, report_msg ?a SWITCH_PIN_1)])"
    using s(2) m by (cases "duty = 0xFF") (auto simp: memory_left_def)
  then have "if hfgpio_fpin_is_high E (trace d) HFGPIO_F_SWITCH = (duty = 0xFF) then msgs d' mq
     else msgs d' (mq @ [(nextAddr d, report_msg ?a SWITCH_PIN_1)])"
    using quiet_msgs [OF r(2)] by (simp split: if_splits)
  moreover have "rebackSetGpioStatus E pNode d = Some d'"
    using g s(1) r(1) by (cases "duty = 0xFF") (simp_all add: rebackSetGpioStatus_def lum_getSwitchPinFlag_def)
  moreover have "relay_level (trace d') = Some (duty = 0xFF)"
    using quietD(11) [OF r(2)] c(3) by (simp split: if_splits)
  moreover have "deviceConfigData d' = deviceConfigData d"
    using quietD(1) [OF r(2)] core_eqD(1) [OF c(1)] by simp
  moreover have "sends d' (q @ [(nextAddr d1, n)])" using r(3) .
  ultimately show ?thesis using that n by (metis snd_conv)
qed

section \<open>From the packet to the message\<close>

lemma deleteListNode_core:
  assumes "deleteListNode p d = Some (r, d')"
  shows "core d' = core d" "relay_level (trace d') = relay_level (trace d)"
    "last_saved (trace d') = last_saved (trace d)"
proof -
  have "core d' = core d \<and> relay_level (trace d') = relay_level (trace d)
    \<and> last_saved (trace d') = last_saved (trace d)"
    using assms by (auto simp: deleteListNode_def freeNodeMemory_def Let_def core_def FreeSocketData_def
      upd_global_def call_def split: option.splits bind_splits if_splits)
  then show "core d' = core d" "relay_level (trace d') = relay_level (trace d)"
    "last_saved (trace d') = last_saved (trace d)" by simp_all
qed

lemma enqueue_msg_core:
  assumes "enqueue_msg b d = Some d'"
  shows "core d' = core d" "relay_level (trace d') = relay_level (trace d)"
    "last_saved (trace d') = last_saved (trace d)" "sendList d' = sendList d"
proof -
  have "core d' = core d \<and> relay_level (trace d') = relay_level (trace d)
    \<and> last_saved (trace d') = last_saved (trace d) \<and> sendList d' = sendList d"
    using assms by (auto simp: enqueue_msg_def put_msg_node_def insertListNode_def core_def call_def
      split: bind_splits)
  then show "core d' = core d" "relay_level (trace d') = relay_level (trace d)"
    "last_saved (trace d') = last_saved (trace d)" "sendList d' = sendList d" by simp_all
qed

lemma encryptRecvSocketData_frame:
  assumes run: "encryptRecvSocketData E origin dat len d = Some (r, d')"
  shows "alloc_frame d d'"
proof -
  obtain b0 d1 where m1: "mallocSocketData E (unat len) d = (b0, d1)" by fastforce
  note f1 = malloc_alloc_frame [OF m1]
  show ?thesis
    using run [unfolded encryptRecvSocketData_def Let_def m1 prod.case] f1 free_alloc_frame [OF f1]
    by (auto split: option.splits bind_splits if_splits)
qed

lemma encryptRecvSocketData_core:
  assumes run: "encryptRecvSocketData E origin dat len d = Some (r, d')"
  shows "core d' = core d"
proof -
  obtain b0 d1 where m1: "mallocSocketData E (unat len) d = (b0, d1)" by fastforce
  then have f1: "core d1 = core d" using mallocSocketData_core by blast
  show ?thesis
    using run [unfolded encryptRecvSocketData_def Let_def m1 prod.case] f1
    by (auto split: option.splits bind_splits if_splits)
qed

lemma PKCS5PaddingRemoveData_length:
  "PKCS5PaddingRemoveData buf off n kt = Some (buf', n') \<Longrightarrow> length buf' = length buf"
  by (auto simp: PKCS5PaddingRemoveData_def Let_def dest: length_wrs split: if_splits bind_splits)

lemma socketDataAesDecrypt_length:
  "socketDataAesDecrypt inb out off n kt d = Some (ok, out', n') \<Longrightarrow> length out' = length out"
  by (auto simp: socketDataAesDecrypt_def dest!: length_wrs PKCS5PaddingRemoveData_length
      split: if_splits bind_splits option.splits)

lemma encryptRecvSocketData_length:
  assumes run: "encryptRecvSocketData E origin dat len d = Some (Some (buf, n), d')"
  shows "length buf = unat len + 1"
proof -
  obtain b0 d1 where m1: "mallocSocketData E (unat len) d = (b0, d1)" by fastforce
  then have "b0 = None \<or> b0 = Some (replicate (unat len + 1) 0)" using mallocSocketData_core by blast
  then show ?thesis
    using run [unfolded encryptRecvSocketData_def Let_def m1 prod.case]
    by (auto dest!: length_wrs socketDataAesDecrypt_length split: option.splits bind_splits if_splits)
qed

text \<open>What the decrypted packet of a request says.\<close>

lemma packet_bytes:
  assumes k: "keys_ok d" and c: "sendable c"
  shows "rd (packet c d @ t) 16 = Some (hd (bodyData c))"
    "rd (packet c d @ t) 1 = Some (header_flag (bEncrypt c) (createReback c) (bLocked (deviceConfigData d)))"
    "rds (packet c d @ t) 10 2 = Some (le16 (htons (createSn c)))"
    "take (unat (bodyLen c)) (drop 16 (packet c d @ t)) = take (unat (bodyLen c)) (bodyData c)"
    "16 + unat (bodyLen c) \<le> length (packet c d @ t)"
proof -
  have h: "length (packet_header c d) = 16" by (rule length_packet_header [OF k])
  have m: "length (macAddr (globalData d)) = 6" using k by (simp add: keys_ok_def)
  have n: "1 \<le> unat (bodyLen c)" "unat (bodyLen c) \<le> length (bodyData c)" using c by (simp_all add: sendable_def)
  obtain b bs where b: "take (unat (bodyLen c)) (bodyData c) = b # bs" "b = hd (bodyData c)"
    using n by (cases "bodyData c"; cases "unat (bodyLen c)") auto
  show "rd (packet c d @ t) 16 = Some (hd (bodyData c))"
    using h b by (simp add: packet_def rd_def nth_append)
  show "rd (packet c d @ t) 1 = Some (header_flag (bEncrypt c) (createReback c) (bLocked (deviceConfigData d)))"
    using m by (simp add: packet_def packet_header_bytes rd_def)
  show "rds (packet c d @ t) 10 2 = Some (le16 (htons (createSn c)))"
    using m by (simp add: packet_def packet_header_bytes rds_def le16_def)
  show "take (unat (bodyLen c)) (drop 16 (packet c d @ t)) = take (unat (bodyLen c)) (bodyData c)"
    "16 + unat (bodyLen c) \<le> length (packet c d @ t)"
    using h n by (simp_all add: packet_def)
qed

lemma insertSocketMsgToList_wire:
  assumes d: "device_ok d" and a: "keys_ok da" "keyData (globalData d) = keyData (globalData da)"
      "macAddr (globalData d) = macAddr (globalData da)"
    and c: "sendable c" "keyType c = getSocketAesKeyType origin (bEncrypt c AND 1) da"
    and o: "origin \<noteq> MSG_LOCAL_EVENT" and q: "msgs d mq" "length mq < 256" and m: "memory_left E"
  obtains d' b where "insertSocketMsgToList E origin (wire c da @ t) (of_nat (length (wire c da))) ip d = Some (True, d')"
    "msgs d' (mq @ [(nextAddr d, b)])" "carries b (take (unat (bodyLen c)) (bodyData c))"
    "cmdData b = ucast (hd (bodyData c))" "snIndex b = createSn c" "msgOrigin b = origin" "socketIp b = ip"
    "\<exists>buf. pData b = Some buf \<and> length buf = length (wire c da) + 1" "core d' = core d" "relay_level (trace d') = relay_level (trace d)"
    "last_saved (trace d') = last_saved (trace d)" "sendList d' = sendList d" "nextAddr d' = nextAddr d + 1"
proof -
  let ?c = "c\<lparr>createSn := htons (createSn c)\<rparr>" and ?n = "of_nat (16 + unat (bodyLen c)) :: u32"
  have kd: "keys_ok d" using d by (simp add: device_ok_def)
  have o': "\<not> (origin \<noteq> MSG_FROM_UDP \<and> origin \<noteq> MSG_FROM_TCP)" using o by (cases origin) auto
  have before: "lum_checkSocketBeforeAES (of_nat (length (wire c da))) (wire c da @ t) = Some True"
    by (rule wire_accepted [OF a(1) c(1)])
  obtain r d1 where r0: "encryptRecvSocketData E origin (wire c da @ t) (of_nat (length (wire c da))) d = Some (r, d1)"
    "r = None \<and> \<not> hfmem_malloc E (trace d) (length (wire c da) + 1)
     \<or> (\<exists>rest. r = Some (packet ?c da @ rest, ?n))"
    using encryptRecvSocketData_wire [OF a(1) kd c(1) a(2) c(2), of E t] by auto
  obtain rest where r: "r = Some (packet ?c da @ rest, ?n)"
    using r0(2) m by (auto simp: memory_left_def)
  note f1 = encryptRecvSocketData_frame [OF r0(1)]
  have ok1: "device_ok d1" using quiet_device_ok f1 d by (auto simp: alloc_frame_def)
  have c': "sendable ?c" using c(1) by (simp add: sendable_def)
  have after: "lum_checkSocketAfterAES (packet ?c da @ rest) d1 = Some True"
    by (rule packet_accepted [OF a(1) c']) (use f1 a(3) in \<open>simp add: alloc_frame_def quiet_def\<close>)
  have log: "saveSocketData E True origin (Some (packet ?c da @ rest)) (unat ?n) d1 = Some d1"
    using saveSocketData_off ok1 by (simp add: device_ok_def)
  obtain nd d3 where m3: "mallocSocketData E SIZEOF_MSG_NODE d1 = (nd, d3)" by fastforce
  have nd: "nd \<noteq> None" using mallocSocketData_None [of E SIZEOF_MSG_NODE d1 d3] m3 m by (auto simp: memory_left_def)
  note f3 = alloc_frame_trans [OF f1 malloc_alloc_frame [OF m3]]
  note pb = packet_bytes [OF a(1) c', where t = rest]
  have p16: "rd (packet ?c da @ rest) 16 = Some (hd (bodyData c))"
    and p10: "rds (packet ?c da @ rest) 10 2 = Some (le16 (createSn c))"
    using pb(1,3) by simp_all
  define b where "b = \<lparr>bReback = bit (header_flag (bEncrypt c) (createReback c) (bLocked (deviceConfigData da))) 1,
    cmdData = ucast (hd (bodyData c)), snIndex = createSn c, dataLen = ucast ?n,
    pData = Some (packet ?c da @ rest), msgOrigin = origin, socketIp = ip\<rparr>"
  have q3: "msgs d3 mq" using quiet_msgs [OF _ q(1)] f3 by (auto simp: alloc_frame_def)
  obtain d4 where e: "enqueue_msg b d3 = Some d4" "msgs d4 (mq @ [(nextAddr d3, b)])"
    "nextAddr d4 = nextAddr d3 + 1"
    using enqueue_msg_msgs [OF q3 q(2), of b] by metis
  have p1: "rd (packet ?c da @ rest) 1 = Some (header_flag (bEncrypt c) (createReback c) (bLocked (deviceConfigData da)))"
    using pb(2) by simp
  note r1 = insertSocketMsgToList_def [of E origin "wire c da @ t" "of_nat (length (wire c da))" ip d,
    unfolded if_not_P [OF o'] before Option.bind.bind_lunit]
  have run: "insertSocketMsgToList E origin (wire c da @ t) (of_nat (length (wire c da))) ip d = Some (True, d4)"
    unfolding r1 using r0(1) r after log m3 nd p16 p10 p1 e(1) by (simp add: b_def)
  have l: "length (take (unat (bodyLen c)) (bodyData c)) = unat (bodyLen c)"
    using c(1) by (simp add: sendable_def)
  have "carries b (take (unat (bodyLen c)) (bodyData c))"
    unfolding carries_def l using pb(4,5)
    by (simp add: b_def del: take_append drop_append length_append)
  moreover have "length (packet ?c da @ rest) = length (wire c da) + 1"
    using encryptRecvSocketData_length [OF r0(1) [unfolded r]]
      length_wire [OF a(1) c(1)] by (simp add: unat_of_nat del: length_append)
  moreover have "core d4 = core d"
    using enqueue_msg_core(1) [OF e(1)] mallocSocketData_core [OF m3]
      encryptRecvSocketData_core [OF r0(1)] by simp
  ultimately show ?thesis
    using run e f3 enqueue_msg_core [OF e(1)]
    by (intro that [of d4 b]) (simp_all add: b_def alloc_frame_def quiet_def)
qed

lemma handle_first_message_pops:
  assumes q: "msgs d ((a, b) # mq)" and run: "dispatch E b d = Some d1" and q1: "msgs d1 ((a, b) # mq')"
  obtains d2 where "handle_first_message E d = Some d2" "msgs d2 mq'" "core d2 = core d1"
    "relay_level (trace d2) = relay_level (trace d1)" "last_saved (trace d2) = last_saved (trace d1)"
    "nextAddr d2 = nextAddr d1"
proof -
  have first: "firstNodePtr (msgList d) = Some a" using msgs_head [OF q] by simp
  have body: "node_body (msgList d) a = Some b" by (rule msgs_body [OF q]) simp
  obtain d2 where d2: "deleteListNode (Some (fst (hd ((a, b) # mq')))) d1 = Some (True, d2)"
    "msgs d2 (tl ((a, b) # mq'))" "nextAddr d2 = nextAddr d1" "deviceConfigData d2 = deviceConfigData d1"
    using deleteListNode_msgs [OF q1] by blast
  then have del: "deleteListNode (Some a) d1 = Some (True, d2)" by simp
  show ?thesis using first body run d2 deleteListNode_core [OF del]
    by (intro that [of d2]) (simp_all add: handle_first_message_def)
qed

text \<open>
  Property C2: a packet with the command to switch the relay, built by anyone who knows the key
  in use and addressed to the device, is decrypted, queued and handled: the relay is driven to
  what the packet asks for, a change is reported, the configuration is untouched, and the reply
  with the serial number of the request goes back to where the packet came from.
\<close>

theorem gpio_packet_switches_relay:
  "device_ok d \<Longrightarrow> keys_ok da \<Longrightarrow> keyData (globalData d) = keyData (globalData da) \<Longrightarrow>
   macAddr (globalData d) = macAddr (globalData da) \<Longrightarrow>
   sendable c \<Longrightarrow> keyType c = getSocketAesKeyType origin (bEncrypt c AND 1) da \<Longrightarrow>
   take (unat (bodyLen c)) (bodyData c) = [1, flag, fre, duty, res] \<Longrightarrow> origin \<noteq> MSG_LOCAL_EVENT \<Longrightarrow>
   msgs d [] \<Longrightarrow> sends d q \<Longrightarrow> memory_left E \<Longrightarrow>
   \<exists>d1 d2 x p. insertSocketMsgToList E origin (wire c da) (of_nat (length (wire c da))) ip d = Some (True, d1)
     \<and> handle_first_message E d1 = Some d2
     \<and> relay_level (trace d2) = Some (duty = 0xFF)
     \<and> deviceConfigData d2 = deviceConfigData d
     \<and> sends d2 (q @ [x]) \<and> sends_packet 1 [1, flag, fre, duty, res] (createSn c) p d (snd x)
     \<and> msgOrigin p = origin \<and> socketIp p = ip
     \<and> (if hfgpio_fpin_is_high E (trace d1) HFGPIO_F_SWITCH = (duty = 0xFF) then msgs d2 []
        else \<exists>a. msgs d2 [(a, report_msg (if duty = 0xFF then SWITCH_OPEN else SWITCH_CLOSE) SWITCH_PIN_1)])"
proof -
  assume d: "device_ok d" and a: "keys_ok da" "keyData (globalData d) = keyData (globalData da)"
      "macAddr (globalData d) = macAddr (globalData da)"
    and c: "sendable c" "keyType c = getSocketAesKeyType origin (bEncrypt c AND 1) da"
    and body: "take (unat (bodyLen c)) (bodyData c) = [1, flag, fre, duty, res]"
    and o: "origin \<noteq> MSG_LOCAL_EVENT" and q: "msgs d []" "sends d q" and m: "memory_left E"
  have l0: "length [] < (256 :: nat)" by simp
  obtain d1 b where d1: "insertSocketMsgToList E origin (wire c da @ []) (of_nat (length (wire c da))) ip d = Some (True, d1)"
    "msgs d1 ([] @ [(nextAddr d, b)])" "carries b (take (unat (bodyLen c)) (bodyData c))"
    "cmdData b = ucast (hd (bodyData c))" "snIndex b = createSn c" "msgOrigin b = origin" "socketIp b = ip"
    "\<exists>buf. pData b = Some buf \<and> length buf = length (wire c da) + 1" "core d1 = core d" "relay_level (trace d1) = relay_level (trace d)"
    "last_saved (trace d1) = last_saved (trace d)" "sendList d1 = sendList d" "nextAddr d1 = nextAddr d + 1"
    using insertSocketMsgToList_wire [OF d a c o q(1) _ m, of "[]" ip] l0 by blast
  have cmd: "cmdData b = 1" using d1(4) body by (cases "bodyData c"; cases "unat (bodyLen c)") auto
  have cb: "carries b [1, flag, fre, duty, res]" using d1(3) body by simp
  have ob: "msgOrigin b \<noteq> MSG_LOCAL_EVENT" using d1(6) o by simp
  have ok1: "device_ok d1" by (rule core_device_ok [OF d1(9) d])
  have q1: "sends d1 q" by (rule sends_more [OF d1(12) _ q(2)]) (simp add: d1(13))
  have mq1: "msgs d1 [(nextAddr d, b)]" "length [(nextAddr d, b)] < (256 :: nat)" using d1(2) by simp_all
  obtain d2 x where d2: "rebackSetGpioStatus E b d1 = Some d2"
    "relay_level (trace d2) = Some (duty = 0xFF)" "deviceConfigData d2 = deviceConfigData d1"
    "sends d2 (q @ [x])" "sends_packet 1 [1, flag, fre, duty, res] (snIndex b) b d1 (snd x)"
    "if hfgpio_fpin_is_high E (trace d1) HFGPIO_F_SWITCH = (duty = 0xFF) then msgs d2 [(nextAddr d, b)]
     else msgs d2 ([(nextAddr d, b)] @ [(nextAddr d1, report_msg (if duty = 0xFF then SWITCH_OPEN else SWITCH_CLOSE) SWITCH_PIN_1)])"
    using rebackSetGpioStatus_effect [OF q1 mq1 ok1 m cb ob] .
  define mq where "mq = (if hfgpio_fpin_is_high E (trace d1) HFGPIO_F_SWITCH = (duty = 0xFF) then []
     else [(nextAddr d1, report_msg (if duty = 0xFF then SWITCH_OPEN else SWITCH_CLOSE) SWITCH_PIN_1)])"
  have mq2: "msgs d2 ((nextAddr d, b) # mq)" using d2(6) by (simp add: mq_def split: if_splits)
  have disp: "dispatch E b d1 = Some d2" using d2(1) by (simp add: dispatch_def cmd)
  obtain d3 where d3: "handle_first_message E d1 = Some d3" "msgs d3 mq" "core d3 = core d2"
    "relay_level (trace d3) = relay_level (trace d2)" "last_saved (trace d3) = last_saved (trace d2)"
    "nextAddr d3 = nextAddr d2"
    using handle_first_message_pops [OF mq1(1) disp mq2] .
  have "sends d3 (q @ [x])" by (rule sends_more [OF core_eqD(2) [OF d3(3)] _ d2(4)]) (simp add: d3(6))
  moreover have "sends_packet 1 [1, flag, fre, duty, res] (createSn c) b d (snd x)"
    using d2(5) d1(5) sends_packet_congr [OF core_eqD(1,13,11) [OF d1(9)]] by simp
  moreover have "deviceConfigData d3 = deviceConfigData d"
    using core_eqD(1) [OF d3(3)] d2(3) core_eqD(1) [OF d1(9)] by simp
  ultimately show ?thesis using d1(1,6,7) d3 d2(2)
    by (intro exI [of _ d1] exI [of _ d3] exI [of _ x] exI [of _ b]) (auto simp: mq_def split: if_splits)
qed

definition switch_on_request :: create_socket_data where
  "switch_on_request = \<lparr>bEncrypt = 1, createReback = 0, createOrigin = MSG_FROM_UDP, createSn = 7,
     bodyLen = 5, keyType = AES_KEY_DEFAULT, bodyData = [1, 0, 0, 0xFF, 0xFF]\<rparr>"

theorem gpio_packet_switches_relay_witness:
  "\<exists>d1 d2. insertSocketMsgToList plain_sdk MSG_FROM_UDP (wire switch_on_request power_on)
       (of_nat (length (wire switch_on_request power_on))) 1 power_on = Some (True, d1)
     \<and> handle_first_message plain_sdk d1 = Some d2 \<and> relay_level (trace d2) = Some True"
proof -
  have k: "keys_ok power_on" using device_ok_power_on by (simp add: device_ok_def)
  have c: "sendable switch_on_request"
    "keyType switch_on_request = getSocketAesKeyType MSG_FROM_UDP (bEncrypt switch_on_request AND 1) power_on"
    "take (unat (bodyLen switch_on_request)) (bodyData switch_on_request) = [1, 0, 0, 0xFF, 0xFF]"
    by (simp_all add: switch_on_request_def sendable_def getSocketAesKeyType_def power_on_def zero_global_def)
  have o: "MSG_FROM_UDP \<noteq> MSG_LOCAL_EVENT" by simp
  show ?thesis
    using gpio_packet_switches_relay [OF device_ok_power_on k refl refl c o msgs_power_on sends_power_on
        memory_left_plain, of 1] by auto
qed

section \<open>Packets that are too short\<close>

definition open_heart_beat :: create_socket_data where
  "open_heart_beat = \<lparr>bEncrypt = 0, createReback = 0, createOrigin = MSG_FROM_UDP, createSn = 7,
     bodyLen = 1, keyType = AES_KEY_OPEN, bodyData = [0x61]\<rparr>"

text \<open>
  Property C16: no handler checks the length of the packet.  An unencrypted heart beat of 17
  bytes, which is all that the checks ask for and needs no key, is accepted and queued, and
  handling it reads the time behind the end of the block.
\<close>

theorem short_heart_beat_faults:
  "device_ok d \<Longrightarrow> msgs d [] \<Longrightarrow> memory_left E \<Longrightarrow>
   \<exists>d1. insertSocketMsgToList E MSG_FROM_UDP (wire open_heart_beat d)
          (of_nat (length (wire open_heart_beat d))) ip d = Some (True, d1)
     \<and> length (wire open_heart_beat d) = 17 \<and> handle_first_message E d1 = None"
proof -
  assume d: "device_ok d" and q: "msgs d []" and m: "memory_left E"
  have k: "keys_ok d" using d by (simp add: device_ok_def)
  have c: "sendable open_heart_beat"
    "keyType open_heart_beat = getSocketAesKeyType MSG_FROM_UDP (bEncrypt open_heart_beat AND 1) d"
    by (simp_all add: open_heart_beat_def sendable_def getSocketAesKeyType_def)
  have l0: "length [] < (256 :: nat)" and o: "MSG_FROM_UDP \<noteq> MSG_LOCAL_EVENT" by simp_all
  have len: "length (wire open_heart_beat d) = 17"
    using length_packet_header [OF k, of open_heart_beat]
    by (simp add: wire_def cipher_text_def packet_def open_heart_beat_def Let_def)
  obtain d1 b where d1: "insertSocketMsgToList E MSG_FROM_UDP (wire open_heart_beat d @ [])
      (of_nat (length (wire open_heart_beat d))) ip d = Some (True, d1)"
    "msgs d1 ([] @ [(nextAddr d, b)])" "carries b (take (unat (bodyLen open_heart_beat)) (bodyData open_heart_beat))"
    "cmdData b = ucast (hd (bodyData open_heart_beat))" "msgOrigin b = MSG_FROM_UDP"
    "\<exists>buf. pData b = Some buf \<and> length buf = length (wire open_heart_beat d) + 1"
    using insertSocketMsgToList_wire [OF d k refl refl c o q _ m, of "[]" ip] l0 by metis
  have cmd: "cmdData b = 0x61" using d1(4) by (simp add: open_heart_beat_def)
  obtain buf where "pData b = Some buf" "length buf = 18" using d1(6) len by auto
  then have "body_bytes b 1 4 = None" by (simp add: body_bytes_def rds_def)
  then have "dispatch E b d1 = None"
    using cmd d1(5) by (simp add: dispatch_def rebackHeartBeat_def rebackUdpHeartBeat_def)
  moreover have "firstNodePtr (msgList d1) = Some (nextAddr d)" "node_body (msgList d1) (nextAddr d) = Some b"
    using msgs_head [OF d1(2)] msgs_body [OF d1(2), of "nextAddr d" b] by simp_all
  ultimately show ?thesis using d1(1) len by (simp add: handle_first_message_def)
qed

theorem short_heart_beat_faults_witness:
  "\<exists>d1. insertSocketMsgToList plain_sdk MSG_FROM_UDP (wire open_heart_beat power_on)
          (of_nat (length (wire open_heart_beat power_on))) 1 power_on = Some (True, d1)
     \<and> handle_first_message plain_sdk d1 = None"
  using short_heart_beat_faults [OF device_ok_power_on msgs_power_on memory_left_plain, of 1] by blast

section \<open>Countdown requests\<close>

lemma htonl_htonl: "htonl (htonl w) = w"
proof (rule bit_word_eqI)
  fix n assume "n < LENGTH(32)"
  then have "n \<in> {0, 1, 2, 3, 4, 5, 6, 7, 8, 9, 10, 11, 12, 13, 14, 15, 16, 17, 18, 19, 20, 21, 22,
    23, 24, 25, 26, 27, 28, 29, 30, 31}" by simp presburger
  then show "bit (htonl (htonl w)) n = bit w n"
    using bit_imp_le_length [of w] by (elim insertE emptyE; force simp: htonl_def bit_simps)
qed

lemma sends_packet_locked:
  assumes "bLocked (deviceConfigData d') = bLocked (deviceConfigData d)"
    "macAddr (globalData d') = macAddr (globalData d)" "keyData (globalData d') = keyData (globalData d)"
  shows "sends_packet rb body sn pNode d' n = sends_packet rb body sn pNode d n"
proof -
  have "packet_header c d' = packet_header c d" for c using assms by (simp add: packet_header_def)
  then have "wire c d' = wire c d" for c
    using cipher_text_congr [OF assms(3)] by (simp add: wire_def packet_def)
  then show ?thesis using getSocketAesKeyType_congr [OF assms(3)] by (simp add: sends_packet_def packet_of_def)
qed

text \<open>Which counts are accepted at time \<open>now\<close>, and when the countdown ends.\<close>

definition countdown_valid :: "u32 \<Rightarrow> u32 \<Rightarrow> bool" where
  "countdown_valid now count =
     (if count > 1420041600 then now < count else 0 < count \<and> count < 86400)"

definition countdown_end :: "u32 \<Rightarrow> u32 \<Rightarrow> u32" where
  "countdown_end now count = (if count > 1420041600 then count else count + now)"



end
