(* ===== verification/Key.thy ===== *)
theory Key
  imports Ito_Common
begin

text \<open>
  The key of the socket (\<open>deviceGpio.c\<close>): every edge of its pin starts a timer of 30 ms, which
  then reads the settled level; a key that is still down three seconds later resets the device.
\<close>

section \<open>The key\<close>

text \<open>A pressed key pulls the pin low.\<close>

definition getDevicekeyPressStatus :: "sdk \<Rightarrow> device \<Rightarrow> bool \<times> device" where
  "getDevicekeyPressStatus E d = (let (high, d1) = read_pin E HFGPIO_F_KEY d in (\<not> high, d1))"

text \<open>Three seconds after the key went down.\<close>

definition deviceKeyTimerCallback :: "sdk \<Rightarrow> device \<Rightarrow> device" where
  "deviceKeyTimerCallback E d =
     (let (pressed, d1) = getDevicekeyPressStatus E d
      in if pressed
         then let (resetType, d2) = checkResetType E (d1\<lparr>bLongPress := True\<rparr>)
              in if resetType \<noteq> RESET_FOR_SMARTLINK then lum_deviceFactoryReset E d2 else d2
         else d1)"

definition irqDebounceTimerCallback :: "sdk \<Rightarrow> device \<Rightarrow> device option" where
  "irqDebounceTimerCallback E d = do {
     let (bKeyPressed, d1) = getDevicekeyPressStatus E d;
     d2 \<leftarrow>
       (if keyPressed d1 \<noteq> bKeyPressed
        then if bKeyPressed
          then Some (restart_timer E DEVICE_KEY_TIMER_ID 3000 3000 (d1\<lparr>bLongPress := False\<rparr>))
          else if bLongPress d1 then Some (d1\<lparr>bLongPress := False\<rparr>)
          else changeSwitchStatus E SWITCH_PIN_1 (call (Timer_stop DEVICE_KEY_TIMER_ID) d1)
        else Some d1);
     Some ((call (Irq_enable HFGPIO_F_KEY) d2)\<lparr>keyPressed := bKeyPressed\<rparr>)
   }"

definition startIrqDebounceTimer :: "sdk \<Rightarrow> device \<Rightarrow> device" where
  "startIrqDebounceTimer E d =
     restart_timer E KEY_IRQ_DEBOUNCE_TIMER_ID 30 30 (call (Irq_disable HFGPIO_F_KEY) d)"

definition deviceKeyPressIrq :: "sdk \<Rightarrow> device \<Rightarrow> device" where
  "deviceKeyPressIrq E d = startIrqDebounceTimer E d"

definition initKeyGpio :: "device \<Rightarrow> device" where
  "initKeyGpio d = call (Irq_configure HFGPIO_F_KEY) d"

definition initDevicePin :: "sdk \<Rightarrow> device \<Rightarrow> device option" where
  "initDevicePin E d =
     (let (resetType, d1) = checkResetType E d;
          d2 = (if resetType \<noteq> RESET_FOR_UPGRADE then initKeyGpio d1 else d1)
      in setSwitchStatus E SWITCH_CLOSE SWITCH_PIN_1 (setWifiLedStatus E WIFI_LED_AP_DISCONNECT d2))"

section \<open>The key as a state machine\<close>

text \<open>
  The three callbacks as one step function; \<open>armed\<close> tells whether the one-shot timer of three
  seconds is running, so that its callback can be the next one.
\<close>

datatype key_event = Key_edge | Key_settled | Key_long

definition key_down :: "sdk \<Rightarrow> device \<Rightarrow> bool" where
  "key_down E d = (\<not> hfgpio_fpin_is_high E (trace d) HFGPIO_F_KEY)"

fun arms :: "sdk_call \<Rightarrow> bool \<Rightarrow> bool" where
  "arms (Timer_change DEVICE_KEY_TIMER_ID p) b = True"
| "arms (Timer_stop DEVICE_KEY_TIMER_ID) b = False"
| "arms _ b = b"

definition armed_after :: "bool \<Rightarrow> device \<Rightarrow> device \<Rightarrow> bool" where
  "armed_after b d d' = foldr arms (take (length (trace d') - length (trace d)) (trace d')) b"

inductive key_step :: "sdk \<Rightarrow> bool \<times> device \<Rightarrow> key_event \<times> bool \<Rightarrow> bool \<times> device \<Rightarrow> bool"
  for E where
  edge: "key_step E (armed, d) (Key_edge, key_down E d) (armed, deviceKeyPressIrq E d)"
| settled: "irqDebounceTimerCallback E d = Some d' \<Longrightarrow>
    key_step E (armed, d) (Key_settled, key_down E d) (armed_after armed d d', d')"
| long: "key_step E (True, d) (Key_long, key_down E d) (False, deviceKeyTimerCallback E d)"

inductive key_run :: "sdk \<Rightarrow> bool \<times> device \<Rightarrow> (key_event \<times> bool) list \<Rightarrow> bool \<times> device \<Rightarrow> bool"
  for E where
  stop: "key_run E s [] s"
| more: "key_step E s x s1 \<Longrightarrow> key_run E s1 xs s' \<Longrightarrow> key_run E s (x # xs) s'"

inductive_cases key_stepE: "key_step E s (ev, level) s'"
inductive_cases key_run_NilE: "key_run E s [] s'"
inductive_cases key_run_ConsE: "key_run E s (x # xs) s'"

text \<open>
  The contract: a press is short when the key comes up before its three seconds; only then the
  relay changes, once; a long press resets the device, once, and its release does nothing.
\<close>

datatype key_phase = Up | Down | Held

fun key_spec :: "key_phase \<Rightarrow> key_event \<times> bool \<Rightarrow> key_phase \<times> nat \<times> nat" where
  "key_spec ph (Key_edge, level) = (ph, 0, 0)"
| "key_spec Up (Key_settled, level) = (if level then Down else Up, 0, 0)"
| "key_spec Down (Key_settled, level) = (if level then (Down, 0, 0) else (Up, 1, 0))"
| "key_spec Held (Key_settled, level) = (if level then Held else Up, 0, 0)"
| "key_spec ph (Key_long, level) = (if level then (Held, 0, 1) else (ph, 0, 0))"

fun key_specs :: "key_phase \<Rightarrow> (key_event \<times> bool) list \<Rightarrow> key_phase \<times> nat \<times> nat" where
  "key_specs ph [] = (ph, 0, 0)"
| "key_specs ph (x # xs) =
     (let (ph1, t, r) = key_spec ph x; (ph', ts, rs) = key_specs ph1 xs in (ph', t + ts, r + rs))"

definition phase :: "device \<Rightarrow> key_phase" where
  "phase d = (if keyPressed d then if bLongPress d then Held else Down else Up)"

fun drives_relay :: "sdk_call \<Rightarrow> bool" where
  "drives_relay (Pin_high HFGPIO_F_SWITCH) = True"
| "drives_relay (Pin_low HFGPIO_F_SWITCH) = True"
| "drives_relay _ = False"

definition relay_writes :: "device \<Rightarrow> nat" where
  "relay_writes d = length (filter drives_relay (trace d))"

definition factory_resets :: "device \<Rightarrow> nat" where
  "factory_resets d = count_list (trace d) (At_cmd (ascii ''AT+SMTLK'' @ crlf @ [0]))"

definition key_ok :: "bool \<Rightarrow> device \<Rightarrow> bool" where
  "key_ok armed d \<longleftrightarrow> (armed \<longrightarrow> phase d = Down) \<and> (bLongPress d \<longrightarrow> keyPressed d)"

section \<open>The key refines its contract\<close>

lemma insertLocalMsgToList_trace:
  assumes "insertLocalMsgToList E origin dat len cmd d = Some (r, d')"
  obtains cs where "trace d' = cs @ trace d"
    "set cs \<subseteq> {Free, Mutex_lock g_message_mutex, Mutex_unlock g_message_mutex} \<union> range Malloc"
proof -
  have "\<exists>cs. trace d' = cs @ trace d \<and>
    set cs \<subseteq> {Free, Mutex_lock g_message_mutex, Mutex_unlock g_message_mutex} \<union> range Malloc"
    using assms
    by (cases E SIZEOF_MSG_NODE d rule: mallocSocketData_cases;
        cases E "len + 1" "snd (mallocSocketData E SIZEOF_MSG_NODE d)" rule: mallocSocketData_cases)
      (auto simp: insertLocalMsgToList_def enqueue_msg_def put_msg_node_def insertListNode_def
        FreeSocketData_def upd_global_def call_def Let_def Cons_eq_append_conv
        split: option.splits bind_splits)
  then show ?thesis using that by blast
qed

lemma insertLocalMsgToList_key:
  assumes "insertLocalMsgToList E origin dat len cmd d = Some (r, d')"
  shows "relay_writes d' = relay_writes d" "factory_resets d' = factory_resets d"
    "keyPressed d' = keyPressed d" "bLongPress d' = bLongPress d"
    "\<exists>cs. trace d' = cs @ trace d \<and> foldr arms cs = id"
proof -
  obtain cs where cs: "trace d' = cs @ trace d"
    "set cs \<subseteq> {Free, Mutex_lock g_message_mutex, Mutex_unlock g_message_mutex} \<union> range Malloc"
    using insertLocalMsgToList_trace [OF assms] .
  have "filter drives_relay cs = []" "count_list cs (At_cmd x) = 0" "foldr arms cs = id" for x
    using cs(2) by (induction cs) auto
  then show "relay_writes d' = relay_writes d" "factory_resets d' = factory_resets d"
    "\<exists>cs. trace d' = cs @ trace d \<and> foldr arms cs = id"
    using cs(1) by (auto simp: relay_writes_def factory_resets_def)
  show "keyPressed d' = keyPressed d" "bLongPress d' = bLongPress d"
    using insertLocalMsgToList_core(1) [OF assms] by (auto dest: arg_cong [of _ _ keyPressed]
      arg_cong [of _ _ bLongPress] simp: core_def)
qed

lemma setSwitchStatus_key:
  assumes "setSwitchStatus E action p d = Some d'"
  shows "relay_writes d' = relay_writes d + 1" "factory_resets d' = factory_resets d"
    "keyPressed d' = keyPressed d" "bLongPress d' = bLongPress d"
    "\<exists>cs. trace d' = cs @ trace d \<and> foldr arms cs = id"
proof -
  define d2 where "d2 = call (if action = SWITCH_OPEN then Pin_high HFGPIO_F_SWITCH
    else Pin_low HFGPIO_F_SWITCH) (call (Pin_read HFGPIO_F_SWITCH) d)"
  have d2: "relay_writes d2 = relay_writes d + 1" "factory_resets d2 = factory_resets d"
    "keyPressed d2 = keyPressed d" "bLongPress d2 = bLongPress d"
    "\<exists>cs. trace d2 = cs @ trace d \<and> foldr arms cs = id"
    by (auto simp: d2_def relay_writes_def factory_resets_def Cons_eq_append_conv)
  consider "d' = d2" | r where "insertLocalMsgToList E MSG_LOCAL_EVENT
      (Some (gpio_change_report action p)) 8 MSG_CMD_REPORT_GPIO_CHANGE d2 = Some (r, d')"
    using assms by (auto simp: setSwitchStatus_unfold Let_def d2_def split: if_splits)
  then have "relay_writes d' = relay_writes d2 \<and> factory_resets d' = factory_resets d2
    \<and> keyPressed d' = keyPressed d2 \<and> bLongPress d' = bLongPress d2
    \<and> (\<exists>cs. trace d' = cs @ trace d2 \<and> foldr arms cs = id)"
  proof cases
    case 2
    show ?thesis using insertLocalMsgToList_key [OF 2] by simp
  qed (auto intro: exI [of _ "[]"])
  then obtain cs where d': "relay_writes d' = relay_writes d2" "factory_resets d' = factory_resets d2"
    "keyPressed d' = keyPressed d2" "bLongPress d' = bLongPress d2"
    "trace d' = cs @ trace d2" "foldr arms cs = id" by blast
  show "relay_writes d' = relay_writes d + 1" "factory_resets d' = factory_resets d"
    "keyPressed d' = keyPressed d" "bLongPress d' = bLongPress d"
    using d' d2 by simp_all
  obtain cs2 where "trace d2 = cs2 @ trace d" "foldr arms cs2 = id" using d2(5) by blast
  then show "\<exists>cs. trace d' = cs @ trace d \<and> foldr arms cs = id"
    using d'(5,6) by (intro exI [of _ "cs @ cs2"]) (simp add: fun_eq_iff)
qed

lemma changeSwitchStatus_key:
  assumes "changeSwitchStatus E p d = Some d'"
  shows "relay_writes d' = relay_writes d + 1" "factory_resets d' = factory_resets d"
    "keyPressed d' = keyPressed d" "bLongPress d' = bLongPress d"
    "\<exists>cs. trace d' = cs @ trace d \<and> foldr arms cs = id"
proof -
  obtain a where a: "setSwitchStatus E a p (call (Pin_read HFGPIO_F_SWITCH) d) = Some d'"
    using assms by (auto simp: changeSwitchStatus_def getSwitchStatus_def read_pin_def
      lum_getSwitchFlag_def Let_def split: if_splits)
  note k = setSwitchStatus_key [OF a]
  show "relay_writes d' = relay_writes d + 1" "factory_resets d' = factory_resets d"
    "keyPressed d' = keyPressed d" "bLongPress d' = bLongPress d"
    using k(1-4) by (simp_all add: relay_writes_def factory_resets_def)
  obtain cs where "trace d' = cs @ Pin_read HFGPIO_F_SWITCH # trace d" "foldr arms cs = id"
    using k(5) by auto
  then show "\<exists>cs. trace d' = cs @ trace d \<and> foldr arms cs = id"
    by (intro exI [of _ "cs @ [Pin_read HFGPIO_F_SWITCH]"]) (simp add: fun_eq_iff)
qed

lemma armed_after_append: "trace d' = cs @ trace d \<Longrightarrow> armed_after b d d' = foldr arms cs b"
  by (simp add: armed_after_def)

lemma restart_timer_calls:
  "\<exists>cs. trace (restart_timer E t p0 p d) = Timer_change t p # cs @ trace d \<and> cs \<in> {[], [Timer_create t p0]}"
  by (auto simp: restart_timer_def)

lemma restart_timer_key [simp]:
  "relay_writes (restart_timer E t p0 p d) = relay_writes d"
  "factory_resets (restart_timer E t p0 p d) = factory_resets d"
  "keyPressed (restart_timer E t p0 p d) = keyPressed d"
  "bLongPress (restart_timer E t p0 p d) = bLongPress d"
  by (auto simp: restart_timer_def relay_writes_def factory_resets_def)

lemmas key_counts = phase_def key_ok_def relay_writes_def factory_resets_def

lemma irqDebounceTimerCallback_cases:
  assumes "irqDebounceTimerCallback E d = Some d'"
  obtains (same) "keyPressed d = key_down E d"
      "d' = call (Irq_enable HFGPIO_F_KEY) (call (Pin_read HFGPIO_F_KEY) d)"
  | (press) "\<not> keyPressed d" "key_down E d" "d' = (call (Irq_enable HFGPIO_F_KEY)
      (restart_timer E DEVICE_KEY_TIMER_ID 3000 3000 ((call (Pin_read HFGPIO_F_KEY) d)\<lparr>bLongPress := False\<rparr>)))
        \<lparr>keyPressed := True\<rparr>"
  | (long) "keyPressed d" "\<not> key_down E d" "bLongPress d"
      "d' = (call (Irq_enable HFGPIO_F_KEY) ((call (Pin_read HFGPIO_F_KEY) d)\<lparr>bLongPress := False\<rparr>))
        \<lparr>keyPressed := False\<rparr>"
  | (short) e where "keyPressed d" "\<not> key_down E d" "\<not> bLongPress d"
      "changeSwitchStatus E SWITCH_PIN_1 (call (Timer_stop DEVICE_KEY_TIMER_ID)
        (call (Pin_read HFGPIO_F_KEY) d)) = Some e"
      "d' = (call (Irq_enable HFGPIO_F_KEY) e)\<lparr>keyPressed := False\<rparr>"
proof (cases "keyPressed d = key_down E d")
  case True
  then have "d' = (call (Irq_enable HFGPIO_F_KEY) (call (Pin_read HFGPIO_F_KEY) d))
      \<lparr>keyPressed := keyPressed d\<rparr>"
    using assms by (simp add: irqDebounceTimerCallback_def getDevicekeyPressStatus_def read_pin_def
        key_down_def)
  then show ?thesis using True by (intro same) (simp_all add: call_def)
next
  case False
  note run = assms [unfolded irqDebounceTimerCallback_def getDevicekeyPressStatus_def read_pin_def
      Let_def prod.case, folded key_down_def]
  show ?thesis
  proof (cases "key_down E d")
    case True
    then show ?thesis using False run by (intro press) simp_all
  next
    case up: False
    show ?thesis
    proof (cases "bLongPress d")
      case True
      then show ?thesis using False up run by (intro long) simp_all
    next
      case short: False
      then show ?thesis using False up run by (auto split: bind_splits intro: that(4))
    qed
  qed
qed

lemma settled_step:
  assumes "irqDebounceTimerCallback E d = Some d'" "key_ok armed d"
  shows "(phase d', relay_writes d', factory_resets d')
      = (let (ph, t, r) = key_spec (phase d) (Key_settled, key_down E d)
         in (ph, relay_writes d + t, factory_resets d + r))
    \<and> key_ok (armed_after armed d d') d'"
  using assms(1)
proof (cases rule: irqDebounceTimerCallback_cases)
  case same
  have "armed_after armed d d' = armed" by (subst armed_after_append) (auto simp: same)
  then show ?thesis using same assms(2) by (auto simp: key_counts)
next
  case press
  let ?e = "restart_timer E DEVICE_KEY_TIMER_ID 3000 3000 ((call (Pin_read HFGPIO_F_KEY) d)\<lparr>bLongPress := False\<rparr>)"
  obtain cs where "trace ?e = Timer_change DEVICE_KEY_TIMER_ID 3000 # cs @ Pin_read HFGPIO_F_KEY # trace d"
    using restart_timer_calls [of E DEVICE_KEY_TIMER_ID 3000 3000 "(call (Pin_read HFGPIO_F_KEY) d)\<lparr>bLongPress := False\<rparr>"]
    by auto
  then have "armed_after armed d d'"
    by (subst armed_after_append [where cs = "Irq_enable HFGPIO_F_KEY
          # Timer_change DEVICE_KEY_TIMER_ID 3000 # cs @ [Pin_read HFGPIO_F_KEY]"]) (auto simp: press)
  moreover have "relay_writes d' = relay_writes d" "factory_resets d' = factory_resets d"
    using restart_timer_key(1,2) [of E DEVICE_KEY_TIMER_ID 3000 3000 "(call (Pin_read HFGPIO_F_KEY) d)\<lparr>bLongPress := False\<rparr>"]
    by (simp_all add: press relay_writes_def factory_resets_def)
  ultimately show ?thesis using press by (auto simp: phase_def key_ok_def)
next
  case long
  have "armed_after armed d d' = armed" by (subst armed_after_append) (auto simp: long)
  then show ?thesis using long assms(2) by (auto simp: key_counts)
next
  case (short e)
  note k = changeSwitchStatus_key [OF short(4)]
  obtain cs where cs: "trace e = cs @ Timer_stop DEVICE_KEY_TIMER_ID # Pin_read HFGPIO_F_KEY # trace d"
    "foldr arms cs = id" using k(5) by auto
  have "\<not> armed_after armed d d'"
    by (subst armed_after_append [where cs = "Irq_enable HFGPIO_F_KEY
          # cs @ [Timer_stop DEVICE_KEY_TIMER_ID, Pin_read HFGPIO_F_KEY]"]) (auto simp: short cs)
  then show ?thesis using short k(1-4) by (auto simp: key_counts)
qed

lemma fold_key:
  "(\<And>x e. keyPressed (f x e) = keyPressed e \<and> bLongPress (f x e) = bLongPress e \<and> trace (f x e) = trace e) \<Longrightarrow>
   keyPressed (fold f xs d) = keyPressed d \<and> bLongPress (fold f xs d) = bLongPress d
     \<and> trace (fold f xs d) = trace d"
  by (induction xs arbitrary: d) simp_all

lemma defaults_key:
  "keyPressed (initCountDownData (initAbsenceData (initAlarmData (initDeviceNameData d)))) = keyPressed d
   \<and> bLongPress (initCountDownData (initAbsenceData (initAlarmData (initDeviceNameData d)))) = bLongPress d
   \<and> trace (initCountDownData (initAbsenceData (initAlarmData (initDeviceNameData d)))) = trace d"
proof -
  have "keyPressed (upd_config f e) = keyPressed e \<and> bLongPress (upd_config f e) = bLongPress e
    \<and> trace (upd_config f e) = trace e" for f e by (simp add: upd_config_def)
  moreover from this have "keyPressed (initAlarmData e) = keyPressed e
    \<and> bLongPress (initAlarmData e) = bLongPress e \<and> trace (initAlarmData e) = trace e" for e
    unfolding initAlarmData_def by (intro fold_key) (simp add: deleteAlarmData_def Let_def)
  moreover have "keyPressed (initAbsenceData e) = keyPressed e
    \<and> bLongPress (initAbsenceData e) = bLongPress e \<and> trace (initAbsenceData e) = trace e" for e
    using fold_key [of "\<lambda>i. eraseAbsenceData (of_nat i)" "[0..<MAX_ABSENCE_COUNT]"
        "upd_config (\<lambda>c. c\<lparr>absenceData := replicate MAX_ABSENCE_COUNT zero_absence\<rparr>) e"]
    by (simp add: initAbsenceData_def eraseAbsenceData_def upd_config_def)
  ultimately show ?thesis by (simp add: initCountDownData_def initDeviceNameData_def Let_def)
qed

lemma globalConfigDataInit_key:
  "keyPressed (globalConfigDataInit E b d) = keyPressed d"
  "bLongPress (globalConfigDataInit E b d) = bLongPress d"
  "relay_writes (globalConfigDataInit E b d) = relay_writes d"
  "factory_resets (globalConfigDataInit E b d) = factory_resets d"
  using defaults_key
  by (simp_all add: globalConfigDataInit_def Let_def relay_writes_def factory_resets_def
      saveDeviceConfigData_def)

lemma call_key:
  "relay_writes (call c d) = relay_writes d + (if drives_relay c then 1 else 0)"
  "factory_resets (call c d) = factory_resets d + (if c = At_cmd (ascii ''AT+SMTLK'' @ crlf @ [0]) then 1 else 0)"
  "relay_writes (saveDeviceConfigData d) = relay_writes d"
  "factory_resets (saveDeviceConfigData d) = factory_resets d"
  "relay_writes (upd_config f d) = relay_writes d" "factory_resets (upd_config f d) = factory_resets d"
  "relay_writes (d\<lparr>bLongPress := b\<rparr>) = relay_writes d" "factory_resets (d\<lparr>bLongPress := b\<rparr>) = factory_resets d"
  "keyPressed (saveDeviceConfigData d) = keyPressed d" "bLongPress (saveDeviceConfigData d) = bLongPress d"
  "keyPressed (upd_config f d) = keyPressed d" "bLongPress (upd_config f d) = bLongPress d"
  by (simp_all add: relay_writes_def factory_resets_def saveDeviceConfigData_def upd_config_def)

lemma long_step:
  assumes "key_ok True d" "\<And>tr. \<not> bit (hfsys_get_reset_reason E tr) 4"
    "d' = deviceKeyTimerCallback E d"
  shows "(phase d', relay_writes d', factory_resets d')
      = (let (ph, t, r) = key_spec (phase d) (Key_long, key_down E d)
         in (ph, relay_writes d + t, factory_resets d + r))
    \<and> key_ok False d'"
proof -
  have "keyPressed d" "\<not> bLongPress d"
    using assms(1) by (auto simp: key_ok_def phase_def split: if_splits)
  then show ?thesis using assms(1,2)
    by (auto simp: assms(3) deviceKeyTimerCallback_def getDevicekeyPressStatus_def read_pin_def key_down_def
      checkResetType_def lum_deviceFactoryReset_def sendSmartLinkCmd_def at_command_def Let_def
      phase_def key_ok_def globalConfigDataInit_key call_key)
qed

lemma key_step_refines:
  assumes "key_step E (armed, d) x (armed', d')" "key_ok armed d"
    "\<And>tr. \<not> bit (hfsys_get_reset_reason E tr) 4"
  shows "(phase d', relay_writes d', factory_resets d')
      = (let (ph, t, r) = key_spec (phase d) x in (ph, relay_writes d + t, factory_resets d + r))
    \<and> key_ok armed' d'"
  using assms(1)
proof cases
  case edge
  then show ?thesis using assms(2)
    by (auto simp: deviceKeyPressIrq_def startIrqDebounceTimer_def key_ok_def phase_def call_key)
qed (use settled_step [of E d d' armed] long_step [of d E d'] assms in auto)


text \<open>A module whose key reads as released once the interrupt has been enabled again.\<close>

definition short_press_sdk :: sdk where
  "short_press_sdk = plain_sdk\<lparr>hfgpio_fpin_is_high :=
     (\<lambda>tr p. p = HFGPIO_F_KEY \<and> Irq_enable HFGPIO_F_KEY \<in> set tr)\<rparr>"

lemma irqDebounceTimerCallback_returns:
  assumes "msgs d []"
  shows "\<exists>d'. irqDebounceTimerCallback E d = Some d'"
proof -
  have "msgs (call (Pin_read HFGPIO_F_SWITCH) (call (Timer_stop DEVICE_KEY_TIMER_ID)
      (call (Pin_read HFGPIO_F_KEY) d))) []"
    using assms by simp
  from setSwitchStatus_msgs [OF this] have "\<exists>d'. setSwitchStatus E a SWITCH_PIN_1
      (call (Pin_read HFGPIO_F_SWITCH) (call (Timer_stop DEVICE_KEY_TIMER_ID)
      (call (Pin_read HFGPIO_F_KEY) d))) = Some d'" for a
    by (metis length_greater_0_conv list.size(3) zero_less_numeral)
  then obtain f where "setSwitchStatus E a SWITCH_PIN_1 (call (Pin_read HFGPIO_F_SWITCH)
      (call (Timer_stop DEVICE_KEY_TIMER_ID) (call (Pin_read HFGPIO_F_KEY) d))) = Some (f a)" for a
    by metis
  then show ?thesis
    by (auto simp: irqDebounceTimerCallback_def getDevicekeyPressStatus_def read_pin_def
      changeSwitchStatus_def getSwitchStatus_def lum_getSwitchFlag_def Let_def)
qed


end
