(* ===== verification/Upgrade.thy ===== *)
theory Upgrade
  imports Device_Misc Ito_Common
begin

text \<open>
  The download of a new firmware by HTTP (\<open>deviceUpgrade.c\<close>) in the upgrade thread, the only
  thread of a device that starts with the upgrade flag set.
\<close>

section \<open>Upgrading the firmware\<close>

abbreviation (input) MAX_RECEIVE_BUF_SIZE :: nat where "MAX_RECEIVE_BUF_SIZE \<equiv> 512"
abbreviation (input) MAX_TRY_COUNT_WHILE_FAILD :: nat where "MAX_TRY_COUNT_WHILE_FAILD \<equiv> 10"
abbreviation (input) HF_E_NOMEM :: int where "HF_E_NOMEM \<equiv> 13"

text \<open>
  The loop of \<open>softwareUpgrade\<close>: every block is written behind the previous ones until
  \<open>hfhttp_read_content\<close> has no more or fails.  The digest that the code computes alongside is
  only printed.
\<close>

partial_function (option) download :: "sdk \<Rightarrow> nat \<Rightarrow> device \<Rightarrow> (nat \<times> device) option" where
  "download E total_size d =
     (let d1 = call (Http_read MAX_RECEIVE_BUF_SIZE) d
      in case hfhttp_read_content E (trace d1) MAX_RECEIVE_BUF_SIZE of
        None \<Rightarrow> Some (total_size, d1)
      | Some bs \<Rightarrow>
          if bs \<noteq> [] then download E (total_size + length bs) (call (Update_write total_size bs) d1)
          else Some (total_size, d1))"

definition upgrade_exit :: "bool \<Rightarrow> bool \<Rightarrow> bool \<Rightarrow> int \<Rightarrow> device \<Rightarrow> int \<times> device" where
  "upgrade_exit temp_buf content_data hhttp rv d =
     (let d1 = (if temp_buf then call Free d else d);
          d2 = (if content_data then call Free d1 else d1);
          d3 = (if hhttp then call Http_close d2 else d2)
      in (rv, call Watchdog_enable_all d3))"

definition softwareUpgrade :: "sdk \<Rightarrow> u8 list \<Rightarrow> device \<Rightarrow> (int \<times> device) option" where
  "softwareUpgrade E url d =
     (let d1 = call (Malloc MAX_RECEIVE_BUF_SIZE) d
      in if \<not> hfmem_malloc E (trace d) MAX_RECEIVE_BUF_SIZE
         then Some (upgrade_exit False False False (- HF_E_NOMEM) d1)
      else let d2 = call (Parse_url url) d1
      in if \<not> hfhttp_parse_URL E (trace d2) url then Some (upgrade_exit True False False (- 4) d2)
      else let d3 = call (Http_open url) d2
      in if \<not> hfhttp_open_session E (trace d3) then Some (upgrade_exit True False False (- 3) d3)
      else let d4 = call Http_request (call Update_start (call Watchdog_disable_all d3))
      in if \<not> hfhttp_send_request E (trace d4) then Some (upgrade_exit True False True (- 2) d4)
      else let d5 = call (Malloc (MAX_RECEIVE_BUF_SIZE + 1)) d4
      in if \<not> hfmem_malloc E (trace d4) (MAX_RECEIVE_BUF_SIZE + 1)
         then Some (upgrade_exit True False True (- HF_E_NOMEM) d5)
      else do {
        (total_size, d6) \<leftarrow> download E 0 d5;
        let d7 = call (Update_complete total_size) d6;
        let rv = (if hfupdate_complete E (trace d7) total_size then 0 else - 1);
        Some (upgrade_exit True True True rv d7)
      })"

text \<open>At most ten attempts; the request for the upgrade is cleared before the first.\<close>

primrec upgrade_tries :: "nat \<Rightarrow> sdk \<Rightarrow> u8 list \<Rightarrow> device \<Rightarrow> device option" where
  "upgrade_tries 0 E url d = Some d"
| "upgrade_tries (Suc n) E url d = do {
     (rv, d1) \<leftarrow> softwareUpgrade E url d;
     if rv \<noteq> 0 then upgrade_tries n E url d1 else Some d1
   }"

definition deviceEnterSwUpgrade :: "sdk \<Rightarrow> device \<Rightarrow> device option" where
  "deviceEnterSwUpgrade E d =
     (let d1 = clearSoftwareUpgradeFlag d
      in map_option (call (Msleep 300)) (upgrade_tries MAX_TRY_COUNT_WHILE_FAILD E
           (urlData (upgradeData (deviceConfigData d1))) d1))"

text \<open>One round of the upgrade thread; \<open>waitConnectTime\<close> is its local counter of seconds.\<close>

definition deviceUpgradeThread_step :: "sdk \<Rightarrow> u32 \<times> device \<Rightarrow> (u32 \<times> device) option" where
  "deviceUpgradeThread_step E s =
     (let (waitConnectTime, d) = s
      in if getDeviceConnectInfo DHPC_OK_BIT d
         then map_option (\<lambda>d1. (waitConnectTime,
                call (Msleep 1000) (call Thread_destroy (call Sys_reset d1)))) (deviceEnterSwUpgrade E d)
         else let w = waitConnectTime + 1;
                  d1 = (if w \<ge> 120
                        then call Sys_reset (call (Msleep 100) (clearSoftwareUpgradeFlag d)) else d)
              in Some (w, call (Msleep 1000) d1))"

definition lum_systemEventCallbackUpgrade :: "system_event \<Rightarrow> device \<Rightarrow> device" where
  "lum_systemEventCallbackUpgrade ev d =
     (case ev of HFE_DHCP_OK ip \<Rightarrow> setDeviceConnectInfo DHPC_OK_BIT True d | _ \<Rightarrow> d)"

definition enterUpgradeThread :: "device \<Rightarrow> device" where
  "enterUpgradeThread d = call (Thread_create ''IOT_Upgrade_C'') (call Register_event d)"

section \<open>What an upgrade does to the flash\<close>

text \<open>
  The upgrade area of the flash, from the calls: \<open>hfupdate_start\<close> erases it and
  \<open>hfupdate_write_file\<close> writes a block at its offset.
\<close>

fun upgrade_area :: "sdk_call list \<Rightarrow> u8 list" where
  "upgrade_area [] = []"
| "upgrade_area (Update_start # tr) = []"
| "upgrade_area (Update_write off bs # tr) =
     (let img = upgrade_area tr
      in take off img @ replicate (off - length img) 0 @ bs @ drop (off + length bs) img)"
| "upgrade_area (_ # tr) = upgrade_area tr"

text \<open>From this trace on, the server delivers these blocks and then no more (or fails).\<close>

fun serves :: "sdk \<Rightarrow> sdk_call list \<Rightarrow> nat \<Rightarrow> u8 list list \<Rightarrow> bool" where
  "serves E tr off [] = (hfhttp_read_content E (Http_read MAX_RECEIVE_BUF_SIZE # tr) MAX_RECEIVE_BUF_SIZE
     \<in> {None, Some []})"
| "serves E tr off (c # cs) = (c \<noteq> []
     \<and> hfhttp_read_content E (Http_read MAX_RECEIVE_BUF_SIZE # tr) MAX_RECEIVE_BUF_SIZE = Some c
     \<and> serves E (Update_write off c # Http_read MAX_RECEIVE_BUF_SIZE # tr) (off + length c) cs)"

text \<open>The calls before the first block.\<close>

definition session_calls :: "u8 list \<Rightarrow> sdk_call list \<Rightarrow> sdk_call list" where
  "session_calls url tr = Malloc (MAX_RECEIVE_BUF_SIZE + 1) # Http_request # Update_start
     # Watchdog_disable_all # Http_open url # Parse_url url # Malloc MAX_RECEIVE_BUF_SIZE # tr"

definition session_opens :: "sdk \<Rightarrow> u8 list \<Rightarrow> bool" where
  "session_opens E url \<longleftrightarrow> (\<forall>tr n. hfmem_malloc E tr n) \<and> (\<forall>tr. hfhttp_parse_URL E tr url)
     \<and> (\<forall>tr. hfhttp_open_session E tr) \<and> (\<forall>tr. hfhttp_send_request E tr)"

lemma download_serves:
  "serves E (trace d) off cs \<Longrightarrow> length (upgrade_area (trace d)) = off \<Longrightarrow>
   \<exists>tr. download E off d = Some (off + length (concat cs), d\<lparr>trace := tr\<rparr>)
     \<and> upgrade_area tr = upgrade_area (trace d) @ concat cs"
proof (induction cs arbitrary: off d)
  case Nil
  then have "download E off d = Some (off, call (Http_read MAX_RECEIVE_BUF_SIZE) d)"
    by (subst download.simps) (auto simp: Let_def)
  then show ?case by (auto simp: call_def)
next
  case (Cons c cs)
  let ?d = "call (Update_write off c) (call (Http_read MAX_RECEIVE_BUF_SIZE) d)"
  have "upgrade_area (trace ?d) = upgrade_area (trace d) @ c" using Cons.prems(2) by simp
  moreover from this obtain tr where "download E (off + length c) ?d
      = Some (off + length c + length (concat cs), ?d\<lparr>trace := tr\<rparr>)"
    "upgrade_area tr = upgrade_area (trace ?d) @ concat cs"
    using Cons.IH [of ?d "off + length c"] Cons.prems by auto
  moreover have "download E off d = download E (off + length c) ?d"
    using Cons.prems(1) by (subst download.simps) (simp add: Let_def)
  ultimately show ?case by (auto simp: call_def add.assoc)
qed

lemma upgrade_serves:
  "session_opens E url \<Longrightarrow> serves E (session_calls url (trace d)) 0 cs \<Longrightarrow>
   \<exists>tr. softwareUpgrade E url d = Some (if hfupdate_complete E (Update_complete (length (concat cs)) # tr)
          (length (concat cs)) then 0 else - 1,
        d\<lparr>trace := [Watchdog_enable_all, Http_close, Free, Free, Update_complete (length (concat cs))] @ tr\<rparr>)
     \<and> upgrade_area tr = concat cs"
proof -
  assume o: "session_opens E url" and s: "serves E (session_calls url (trace d)) 0 cs"
  define e where "e = d\<lparr>trace := session_calls url (trace d)\<rparr>"
  obtain tr where tr: "download E 0 e = Some (length (concat cs), e\<lparr>trace := tr\<rparr>)" "upgrade_area tr = concat cs"
    using download_serves [of E e 0 cs] s by (auto simp: e_def session_calls_def)
  have "softwareUpgrade E url d = Option.bind (download E 0 e) (\<lambda>(total_size, d6).
      let d7 = call (Update_complete total_size) d6
      in Some (upgrade_exit True True True (if hfupdate_complete E (trace d7) total_size then 0 else - 1) d7))"
    using o by (simp add: softwareUpgrade_def session_opens_def Let_def e_def session_calls_def call_def)
  then show ?thesis using tr
    by (intro exI [of _ tr]) (simp add: upgrade_exit_def Let_def call_def e_def)
qed

text \<open>
  Property C5: when the session opens and the server delivers a file in blocks of any size, the
  upgrade area holds exactly that file, the update is completed with its exact length, and the
  result is the success of that completion; the rest of the state is unchanged.  A block that
  fails to arrive ends the file like its proper end does.
\<close>

theorem upgrade_writes_image:
  "session_opens E url \<Longrightarrow> serves E (session_calls url (trace d)) 0 cs \<Longrightarrow>
   \<exists>tr. softwareUpgrade E url d = Some (if hfupdate_complete E (Update_complete (length (concat cs)) # tr)
          (length (concat cs)) then 0 else - 1,
        d\<lparr>trace := [Watchdog_enable_all, Http_close, Free, Free, Update_complete (length (concat cs))] @ tr\<rparr>)
     \<and> upgrade_area tr = concat cs"
  by (rule upgrade_serves)

text \<open>A server with one file of five bytes, in two blocks.\<close>

definition small_file_sdk :: sdk where
  "small_file_sdk = plain_sdk\<lparr>hfhttp_read_content := (\<lambda>tr n.
     if Update_write 3 [4, 5] \<in> set tr then Some []
     else if Update_write 0 [1, 2, 3] \<in> set tr then Some [4, 5] else Some [1, 2, 3])\<rparr>"

theorem upgrade_writes_image_witness:
  "\<exists>tr. softwareUpgrade small_file_sdk (ascii ''http://a/b'') power_on = Some (0, power_on\<lparr>trace :=
       [Watchdog_enable_all, Http_close, Free, Free, Update_complete 5] @ tr\<rparr>)
     \<and> upgrade_area tr = [1, 2, 3, 4, 5]"
proof -
  have o: "session_opens small_file_sdk (ascii ''http://a/b'')"
    by (simp add: session_opens_def small_file_sdk_def plain_sdk_def)
  have s: "serves small_file_sdk (session_calls (ascii ''http://a/b'') (trace power_on)) 0 [[1, 2, 3], [4, 5]]"
    by (simp add: session_calls_def small_file_sdk_def plain_sdk_def power_on_def)
  have n: "length (concat [[1, 2, 3], [4, 5 :: u8]]) = 5" by simp
  have "hfupdate_complete small_file_sdk tr k" for tr k by (simp add: small_file_sdk_def plain_sdk_def)
  then show ?thesis using upgrade_writes_image [OF o s] unfolding n by simp
qed

section \<open>Resources and attempts\<close>

fun heap_use :: "sdk \<Rightarrow> sdk_call list \<Rightarrow> int" where
  "heap_use E [] = 0"
| "heap_use E (Malloc n # tr) = heap_use E tr + (if hfmem_malloc E tr n then 1 else 0)"
| "heap_use E (Free # tr) = heap_use E tr - 1"
| "heap_use E (_ # tr) = heap_use E tr"

fun open_sessions :: "sdk \<Rightarrow> sdk_call list \<Rightarrow> int" where
  "open_sessions E [] = 0"
| "open_sessions E (Http_open url # tr) =
     open_sessions E tr + (if hfhttp_open_session E (Http_open url # tr) then 1 else 0)"
| "open_sessions E (Http_close # tr) = open_sessions E tr - 1"
| "open_sessions E (_ # tr) = open_sessions E tr"

text \<open>Every attempt ends by enabling the watchdogs.\<close>

definition attempts :: "sdk_call list \<Rightarrow> nat" where
  "attempts tr = count_list tr Watchdog_enable_all"

definition same_resources :: "sdk \<Rightarrow> device \<Rightarrow> device \<Rightarrow> bool" where
  "same_resources E d d' \<longleftrightarrow> heap_use E (trace d') = heap_use E (trace d)
     \<and> open_sessions E (trace d') = open_sessions E (trace d)
     \<and> last_saved (trace d') = last_saved (trace d) \<and> (\<exists>tr. d' = d\<lparr>trace := tr\<rparr>)"

lemma same_resources_trans:
  "same_resources E d d1 \<Longrightarrow> same_resources E d1 d2 \<Longrightarrow> same_resources E d d2"
  by (auto simp: same_resources_def)

lemma same_resources_http:
  "same_resources E d (call (Http_read n) d)" "same_resources E d (call (Update_write n bs) d)"
  by (auto simp: same_resources_def call_def)

lemma download_resources':
  "download E n d = Some r \<Longrightarrow> same_resources E d (snd r) \<and> attempts (trace (snd r)) = attempts (trace d)"
proof (erule download.raw_induct [where P = "\<lambda>E n d r. same_resources E d (snd r)
    \<and> attempts (trace (snd r)) = attempts (trace d)", rotated])
  fix f E n d r
  let ?d = "call (Http_read MAX_RECEIVE_BUF_SIZE) d"
  assume IH: "\<And>E n d r. f E n d = Some r \<Longrightarrow>
      same_resources E d (snd r) \<and> attempts (trace (snd r)) = attempts (trace d)"
    and run: "(let d1 = ?d in case hfhttp_read_content E (trace d1) MAX_RECEIVE_BUF_SIZE of
        None \<Rightarrow> Some (n, d1)
      | Some bs \<Rightarrow> if bs \<noteq> [] then f E (n + length bs) (call (Update_write n bs) d1)
          else Some (n, d1)) = Some r"
  show "same_resources E d (snd r) \<and> attempts (trace (snd r)) = attempts (trace d)"
  proof (cases "\<exists>bs. hfhttp_read_content E (trace ?d) MAX_RECEIVE_BUF_SIZE = Some bs \<and> bs \<noteq> []")
    case False
    then have "r = (n, ?d)" using run by (auto simp: Let_def split: option.splits if_splits)
    then show ?thesis using same_resources_http(1) by (simp add: attempts_def)
  next
    case True
    then obtain bs where "f E (n + length bs) (call (Update_write n bs) ?d) = Some r"
      using run by (auto simp: Let_def)
    note r = IH [OF this]
    then have "same_resources E (call (Update_write n bs) ?d) (snd r)" by blast
    note same_resources_trans [OF same_resources_trans [OF same_resources_http] this]
    then show ?thesis using r by (simp add: attempts_def)
  qed
qed

lemmas download_resources = download_resources' [where r = "(m, d')", simplified] for m d'

lemma softwareUpgrade_resources:
  assumes "softwareUpgrade E url d = Some (rv, d')"
  shows "same_resources E d d'" "attempts (trace d') = attempts (trace d) + 1"
    "hd (trace d') = Watchdog_enable_all" "rv \<in> {0, -1, -2, -3, -4, - HF_E_NOMEM}"
proof -
  have "same_resources E d d' \<and> attempts (trace d') = attempts (trace d) + 1
    \<and> hd (trace d') = Watchdog_enable_all \<and> rv \<in> {0, -1, -2, -3, -4, - HF_E_NOMEM}"
    using assms
    by (auto simp: softwareUpgrade_def upgrade_exit_def Let_def same_resources_def attempts_def call_def
      dest!: download_resources split: if_splits bind_splits)
  then show "same_resources E d d'" "attempts (trace d') = attempts (trace d) + 1"
    "hd (trace d') = Watchdog_enable_all" "rv \<in> {0, -1, -2, -3, -4, - HF_E_NOMEM}" by blast+
qed

lemma upgrade_tries_resources:
  "upgrade_tries n E url d = Some d' \<Longrightarrow>
   same_resources E d d' \<and> attempts (trace d') \<le> attempts (trace d) + n"
proof (induction n arbitrary: d)
  case 0
  then show ?case by (auto simp: same_resources_def intro: exI [of _ "trace d"])
next
  case (Suc n)
  obtain rv d1 where d1: "softwareUpgrade E url d = Some (rv, d1)"
    "(if rv \<noteq> 0 then upgrade_tries n E url d1 else Some d1) = Some d'"
    using Suc.prems by (auto split: bind_splits)
  note r = softwareUpgrade_resources(1,2) [OF d1(1)]
  show ?case
  proof (cases "rv = 0")
    case True
    then show ?thesis using r d1(2) by simp
  next
    case False
    then have "same_resources E d1 d'" "attempts (trace d') \<le> attempts (trace d1) + n"
      using Suc.IH [of d1] d1(2) by simp_all
    then show ?thesis using r same_resources_trans by fastforce
  qed
qed

text \<open>
  Property C7: an upgrade makes at most ten attempts; whatever fails in them, every block of
  memory and every HTTP session is given back, and the flash no longer asks for the upgrade, so
  the next start is a normal one and a broken download is not repeated for ever.
\<close>

theorem upgrade_is_bounded:
  "deviceEnterSwUpgrade E d = Some d' \<Longrightarrow> userbin_persistent E \<Longrightarrow>
   attempts (trace d') \<le> attempts (trace d) + MAX_TRY_COUNT_WHILE_FAILD
   \<and> heap_use E (trace d') = heap_use E (trace d) \<and> open_sessions E (trace d') = open_sessions E (trace d)
   \<and> fst (checkResetType E (power_on\<lparr>trace := trace d'\<rparr>)) \<noteq> RESET_FOR_UPGRADE"
proof -
  assume run: "deviceEnterSwUpgrade E d = Some d'" and E: "userbin_persistent E"
  define d1 where "d1 = clearSoftwareUpgradeFlag d"
  obtain d2 where d2: "upgrade_tries MAX_TRY_COUNT_WHILE_FAILD E (urlData (upgradeData (deviceConfigData d1))) d1
      = Some d2" "d' = call (Msleep 300) d2"
    using run by (auto simp: deviceEnterSwUpgrade_def d1_def Let_def)
  note r = upgrade_tries_resources [OF d2(1)]
  have d1: "attempts (trace d1) = attempts (trace d)" "heap_use E (trace d1) = heap_use E (trace d)"
    "open_sessions E (trace d1) = open_sessions E (trace d)"
    by (simp_all add: d1_def clearSoftwareUpgradeFlag_def attempts_def)
  have "last_saved (trace d') = Some (deviceConfigData d1)"
    using r by (simp add: d2(2) same_resources_def d1_def clearSoftwareUpgradeFlag_def)
  then have read: "hffile_userbin_read E (trace d') = deviceConfigData d1"
    by (rule userbin_read_last_saved [OF E])
  have "fst (checkResetType E (power_on\<lparr>trace := trace d'\<rparr>)) \<noteq> RESET_FOR_UPGRADE"
  proof (cases "lumitekFlag (deviceConfigData d1) = LUMITEK_SW_FLAG")
    case True
    then show ?thesis using read
      by (simp add: checkResetType_def globalConfigDataInit_def Let_def d1_def clearSoftwareUpgradeFlag_def)
  next
    case False
    then have "deviceConfigData (globalConfigDataInit E False (power_on\<lparr>trace := trace d'\<rparr>)) = default_config"
      using read by (intro globalConfigDataInit_default) simp
    then show ?thesis
      by (simp add: checkResetType_def Let_def default_config_def zero_config_def)
  qed
  then show ?thesis using r d1 by (auto simp: d2(2) same_resources_def attempts_def)
qed

theorem upgrade_is_bounded_witness:
  "\<exists>d'. deviceEnterSwUpgrade small_file_sdk power_on = Some d'
     \<and> fst (checkResetType small_file_sdk (power_on\<lparr>trace := trace d'\<rparr>)) \<noteq> RESET_FOR_UPGRADE"
proof -
  let ?d = "clearSoftwareUpgradeFlag power_on" and ?E = small_file_sdk
  let ?url = "urlData (upgradeData (deviceConfigData ?d))"
  have "session_opens ?E ?url" by (simp add: session_opens_def small_file_sdk_def plain_sdk_def)
  moreover have "serves ?E (session_calls ?url (trace ?d)) 0 [[1, 2, 3], [4, 5]]"
    by (simp add: session_calls_def small_file_sdk_def plain_sdk_def power_on_def
      clearSoftwareUpgradeFlag_def)
  moreover have "hfupdate_complete ?E tr n" for tr n by (simp add: small_file_sdk_def plain_sdk_def)
  ultimately obtain d1 where "softwareUpgrade ?E ?url ?d = Some (0, d1)"
    using upgrade_serves [of ?E ?url ?d "[[1, 2, 3], [4, 5]]"] by auto
  then have "deviceEnterSwUpgrade ?E power_on = Some (call (Msleep 300) d1)"
    by (simp add: deviceEnterSwUpgrade_def Let_def numeral_eq_Suc)
  moreover have "userbin_persistent ?E" using plain_sdk_persistent
    by (simp add: userbin_persistent_def small_file_sdk_def)
  ultimately show ?thesis using upgrade_is_bounded by blast
qed

end
