(* ===== verification/Boot.thy ===== *)
theory Boot
  imports Message_Thread Key Upgrade
begin

text \<open>
  The start of the firmware (\<open>itoMain.c\<close>, \<open>itoParaInit\<close>): which of its modes the device enters.
\<close>

section \<open>The start of the firmware\<close>

definition checkSmartlink :: "sdk \<Rightarrow> device \<Rightarrow> device" where
  "checkSmartlink E d =
     (let d1 = call Get_reset_reason d
      in if bit (hfsys_get_reset_reason E (trace d)) 4 then deviceEnterSmartLink E d1 else d1)"

definition setDebuglevel :: "device \<Rightarrow> device" where
  "setDebuglevel d = call Debug_level d"

definition itoParaInit :: "sdk \<Rightarrow> bool \<Rightarrow> device \<Rightarrow> device option" where
  "itoParaInit E bFactoryTest d = do {
     d1 \<leftarrow> closeNtpMode E d;
     (_, d2) \<leftarrow> readDeviceMacAddr E (setDebuglevel d1);
     let d3 = lum_initSystemTime E (lum_initTimer E 10000 (sendListInit (CreateLocalAesKey d2)));
     lum_createUdpLogSocket E d3
   }"

definition lum_getFactorySmartlink :: "device \<Rightarrow> bool" where
  "lum_getFactorySmartlink d = (needSmartLink (deviceConfigData d) \<noteq> 0)"

definition lumitekITOMain :: "sdk \<Rightarrow> device \<Rightarrow> device option" where
  "lumitekITOMain E d =
     (let (resetType, d1) = checkResetType E d
      in if resetType = RESET_FOR_SMARTLINK then Some d1
         else if resetType = RESET_FOR_UPGRADE then Some (enterUpgradeThread d1)
         else if resetType \<noteq> RESET_FOR_SMARTLINK_OK \<and> lum_getFactorySmartlink d1
           then Some (sendSmartLinkCmd E d1)
         else do {
           let d2 = (if resetType = RESET_FOR_SMARTLINK_OK \<and> lum_getFactorySmartlink d1
                     then lum_setFactorySmartlink False d1 else d1);
           d3 \<leftarrow> itoParaInit E False d2;
           (sta, d4) \<leftarrow> bRuningStaMode E (call Register_event d3);
           Some (if sta
             then call (Thread_create ''IOT_TD_M'') (call (Thread_create ''IOT_TD_S'')
                    (call (Thread_create ''IOT_TD_L'') d4))
             else d4)
         })"

section \<open>Modes\<close>

text \<open>The threads the firmware has started, in order, and its requests to enter smartlink.\<close>

fun started :: "sdk_call list \<Rightarrow> string list" where
  "started [] = []"
| "started (Thread_create t # tr) = started tr @ [t]"
| "started (_ # tr) = started tr"

definition smartlink_commands :: "sdk_call list \<Rightarrow> nat" where
  "smartlink_commands tr = count_list tr (At_cmd (ascii ''AT+SMTLK'' @ crlf @ [0]))"

definition same_mode :: "device \<Rightarrow> device \<Rightarrow> bool" where
  "same_mode d d' \<longleftrightarrow> started (trace d') = started (trace d)
     \<and> smartlink_commands (trace d') = smartlink_commands (trace d)"

lemma same_mode_trans: "same_mode d d1 \<Longrightarrow> same_mode d1 d2 \<Longrightarrow> same_mode d d2"
  by (simp add: same_mode_def)

lemma same_mode_init: "same_mode d (globalConfigDataInit E b d)"
  using defaults_key by (simp add: same_mode_def globalConfigDataInit_def Let_def smartlink_commands_def)

lemma same_mode_at:
  "closeNtpMode E d = Some d' \<Longrightarrow> same_mode d d'"
  "readDeviceMacAddr E d = Some (b, d') \<Longrightarrow> same_mode d d'"
  "bRuningStaMode E d = Some (b, d') \<Longrightarrow> same_mode d d'"
  by (auto simp: closeNtpMode_def readDeviceMacAddr_def bRuningStaMode_def at_command_def Let_def
      same_mode_def smartlink_commands_def ascii_def crlf_def split: if_splits)

lemma same_mode_open_socket: "open_socket E d = Some r \<Longrightarrow> same_mode d (snd r)"
proof (erule open_socket.raw_induct [where P = "\<lambda>E d r. same_mode d (snd r)", rotated])
  fix f E d r
  assume IH: "\<And>E d r. f E d = Some r \<Longrightarrow> same_mode d (snd r)"
    and run: "(let fd = c_socket E (trace d); d1 = call Socket_open d
      in if fd < 0 then f E (call (Msleep 1000) d1) else Some (fd, d1)) = Some r"
  show "same_mode d (snd r)"
    using run IH [of E "call (Msleep 1000) (call Socket_open d)" r]
    by (auto simp: Let_def same_mode_def smartlink_commands_def split: if_splits)
qed

lemma same_mode_timers:
  "same_mode d (restart_timer E t p0 p d)" "same_mode d (sendListInit d)" "same_mode d (CreateLocalAesKey d)"
  "same_mode d (lum_initTimer E p d)" "same_mode d (lum_initSystemTime E d)" "same_mode d (setDebuglevel d)"
  "same_mode d (lum_setFactorySmartlink b d)"
  by (simp_all add: restart_timer_def sendListInit_def CreateLocalAesKey_def lum_initTimer_def
      lum_initSystemTime_def createGetUtcTimer_def setDebuglevel_def lum_setFactorySmartlink_def
      same_mode_def smartlink_commands_def Let_def)

lemma same_mode_itoParaInit:
  assumes "itoParaInit E b d = Some d'"
  shows "same_mode d d'"
proof -
  obtain d1 x d2 r where steps: "closeNtpMode E d = Some d1" "readDeviceMacAddr E (setDebuglevel d1) = Some (x, d2)"
    "open_socket E (lum_initSystemTime E (lum_initTimer E 10000 (sendListInit (CreateLocalAesKey d2)))) = Some r"
    "d' = (snd r)\<lparr>udpLogSocketFd := fst r\<rparr>"
    using assms by (auto simp: itoParaInit_def lum_createUdpLogSocket_def Let_def split: bind_splits)
  have "same_mode (snd r) d'" by (simp add: steps(4) same_mode_def)
  from same_mode_trans [OF same_mode_trans [OF same_mode_at(1) [OF steps(1)] same_mode_timers(6)]
      same_mode_at(2) [OF steps(2)]]
    same_mode_trans [OF same_mode_trans [OF same_mode_timers(3) same_mode_timers(2)]
      same_mode_trans [OF same_mode_timers(4) same_mode_timers(5)]]
  have "same_mode d (lum_initSystemTime E (lum_initTimer E 10000 (sendListInit (CreateLocalAesKey d2))))"
    by (rule same_mode_trans)
  from same_mode_trans [OF same_mode_trans [OF this same_mode_open_socket [OF steps(3)]] \<open>same_mode (snd r) d'\<close>]
  show ?thesis .
qed

text \<open>
  Property C6: the firmware enters exactly one of its modes.  Started by smartlink it starts no
  thread; with the upgrade flag it starts the upgrade thread alone; after a factory reset it only
  sends the smartlink command; otherwise it starts the local, the server and the message thread,
  in that order, or none of them when the module is not a station.
\<close>

theorem boot_enters_one_mode:
  "lumitekITOMain E d = Some d' \<Longrightarrow>
   (let (resetType, d1) = checkResetType E d; new = drop (length (started (trace d))) (started (trace d'));
        sent = smartlink_commands (trace d') - smartlink_commands (trace d);
        ask = lum_getFactorySmartlink d1
    in case resetType of
         RESET_FOR_SMARTLINK \<Rightarrow> new = [] \<and> sent = 0
       | RESET_FOR_UPGRADE \<Rightarrow> new = [''IOT_Upgrade_C''] \<and> sent = 0
       | RESET_FOR_SMARTLINK_OK \<Rightarrow> new \<in> {[], [''IOT_TD_L'', ''IOT_TD_S'', ''IOT_TD_M'']} \<and> sent = 0
       | RESET_FOR_NORMAL \<Rightarrow>
           if ask then new = [] \<and> sent = 1
           else new \<in> {[], [''IOT_TD_L'', ''IOT_TD_S'', ''IOT_TD_M'']} \<and> sent = 0)"
proof -
  assume run: "lumitekITOMain E d = Some d'"
  obtain resetType d1 where c: "checkResetType E d = (resetType, d1)" by fastforce
  have d1: "same_mode d d1"
    using c same_mode_init [of d E False] by (auto simp: checkResetType_def Let_def same_mode_def smartlink_commands_def)
  have normal: "started (trace d') \<in> {started (trace d), started (trace d) @ [''IOT_TD_L'', ''IOT_TD_S'', ''IOT_TD_M'']}
      \<and> smartlink_commands (trace d') = smartlink_commands (trace d)"
    if h: "\<not> (resetType \<noteq> RESET_FOR_SMARTLINK_OK \<and> lum_getFactorySmartlink d1)"
      "resetType \<noteq> RESET_FOR_SMARTLINK" "resetType \<noteq> RESET_FOR_UPGRADE"
  proof -
    define d2 where "d2 = (if resetType = RESET_FOR_SMARTLINK_OK \<and> lum_getFactorySmartlink d1
      then lum_setFactorySmartlink False d1 else d1)"
    obtain d3 sta d4 where s: "itoParaInit E False d2 = Some d3"
      "bRuningStaMode E (call Register_event d3) = Some (sta, d4)"
      "d' = (if sta then call (Thread_create ''IOT_TD_M'') (call (Thread_create ''IOT_TD_S'')
         (call (Thread_create ''IOT_TD_L'') d4)) else d4)"
      using run h by (auto simp: lumitekITOMain_def c Let_def d2_def split: bind_splits)
    have d2: "same_mode d1 d2"
      using same_mode_timers(7) [of d1 False] by (auto simp: d2_def same_mode_def)
    have d3: "same_mode d3 (call Register_event d3)" by (simp add: same_mode_def smartlink_commands_def)
    have "same_mode d d4"
      by (rule same_mode_trans [OF same_mode_trans [OF same_mode_trans [OF d1 d2] same_mode_itoParaInit [OF s(1)]]
            same_mode_trans [OF d3 same_mode_at(3) [OF s(2)]]])
    then show ?thesis using s(3) by (auto simp: same_mode_def smartlink_commands_def)
  qed
  show ?thesis using run d1 normal
    by (cases resetType)
      (auto simp: lumitekITOMain_def c Let_def enterUpgradeThread_def sendSmartLinkCmd_def at_command_def
        same_mode_def smartlink_commands_def)
qed

text \<open>A module whose flash asks for an upgrade.\<close>

definition upgrade_flash_sdk :: sdk where
  "upgrade_flash_sdk = plain_sdk\<lparr>hffile_userbin_read := (\<lambda>_. zero_config\<lparr>lumitekFlag := LUMITEK_SW_FLAG,
     upgradeData := (upgradeData zero_config)\<lparr>upgradeFlag := SOFTWARE_UPGRADE_FLAG\<rparr>\<rparr>)\<rparr>"

theorem boot_enters_one_mode_witness:
  "\<exists>d'. lumitekITOMain upgrade_flash_sdk power_on = Some d'
     \<and> drop (length (started (trace power_on))) (started (trace d')) = [''IOT_Upgrade_C'']"
proof -
  have c: "fst (checkResetType upgrade_flash_sdk power_on) = RESET_FOR_UPGRADE"
    by (simp add: checkResetType_def globalConfigDataInit_def Let_def upgrade_flash_sdk_def plain_sdk_def
      zero_config_def)
  then obtain d' where "lumitekITOMain upgrade_flash_sdk power_on = Some d'"
    by (cases "checkResetType upgrade_flash_sdk power_on") (auto simp: lumitekITOMain_def)
  then show ?thesis using boot_enters_one_mode [of upgrade_flash_sdk power_on d'] c
    by (cases "checkResetType upgrade_flash_sdk power_on") (auto simp: Let_def)
qed

end
