(* ===== verification/System.thy ===== *)
theory System
  imports Message_Properties Boot
begin

text \<open>
  The running firmware: its threads, timer callbacks, key interrupts and network events as the
  steps of one transition relation on the state, and the invariants of all reachable states.
  A step is one round of a thread or one callback; what happens when the operating system
  interrupts a round is not modelled.
\<close>

named_theorems kernel_frame \<open>operations that leave the kernel of the state alone\<close>
named_theorems kernel_dest \<open>partial operations that leave the kernel of the state alone\<close>

section \<open>The invariant\<close>

text \<open>What the invariant talks about.\<close>

definition kernel :: "device \<Rightarrow> device_config_data \<times> aes_key_data \<times> u8 list \<times> device_conn_info \<times> int" where
  "kernel d = (deviceConfigData d, keyData (globalData d), macAddr (globalData d),
     connInfo (globalData d), tcpSocketFd d)"

text \<open>
  The arrays have the sizes the code was compiled for.  A device that counts as connected has its server's
  address, got it through the balance server, and has an open socket.
\<close>

definition connection_ok :: "device \<Rightarrow> bool" where
  "connection_ok d \<longleftrightarrow>
     (getDeviceConnectInfo SERVER_CONN_BIT d \<longrightarrow>
        getDeviceConnectInfo BALANCE_CONN_BIT d \<and> getDeviceConnectInfo SERVER_ADDR_BIT d)
     \<and> (getDeviceConnectInfo BALANCE_CONN_BIT d \<longrightarrow> tcpSocketFd d \<ge> 0)"

definition well_formed :: "device \<Rightarrow> bool" where
  "well_formed d \<longleftrightarrow> config_shape (deviceConfigData d) \<and> keys_ok d \<and> connection_ok d"

lemma well_formed_kernel:
  assumes "kernel d' = kernel d"
  shows "well_formed d' = well_formed d"
  using assms by (simp add: kernel_def well_formed_def keys_ok_def connection_ok_def getDeviceConnectInfo_def)

lemma kernel_core:
  assumes "core d' = core d"
  shows "kernel d' = kernel d"
  using arg_cong [OF assms, of kernel] by (simp add: kernel_def core_def)

lemma kernel_net_core:
  assumes "net_core d' = net_core d"
  shows "kernel d' = kernel d"
  using arg_cong [OF assms, of kernel] by (simp add: kernel_def net_core_def core_def)

section \<open>Operations outside the invariant\<close>

lemma kernel_simps [kernel_frame]:
  "kernel (call c d) = kernel d" "kernel (FreeSocketData d) = kernel d"
  "kernel (saveDeviceConfigData d) = kernel d" "kernel (restart_timer E t p0 p d) = kernel d"
  "kernel (d\<lparr>sendList := l\<rparr>) = kernel d" "kernel (d\<lparr>msgList := l2\<rparr>) = kernel d"
  "kernel (d\<lparr>timers := ti\<rparr>) = kernel d" "kernel (d\<lparr>nextAddr := n\<rparr>) = kernel d"
  "kernel (d\<lparr>lastCheckMinute := b\<rparr>) = kernel d" "kernel (d\<lparr>absenceRunning := a\<rparr>) = kernel d"
  "kernel (d\<lparr>nextAbsenceMinute := w\<rparr>) = kernel d" "kernel (d\<lparr>wifiLedPeriod := w\<rparr>) = kernel d"
  "kernel (d\<lparr>bLongPress := a\<rparr>) = kernel d" "kernel (d\<lparr>keyPressed := a\<rparr>) = kernel d"
  "kernel (d\<lparr>udpSocketFd := fd\<rparr>) = kernel d" "kernel (d\<lparr>udpLogSocketFd := fd\<rparr>) = kernel d"
  "kernel (d\<lparr>lastUTCTime := u\<rparr>) = kernel d" "kernel (d\<lparr>lastSystemTime := u\<rparr>) = kernel d"
  by (simp_all add: kernel_def FreeSocketData_def saveDeviceConfigData_def restart_timer_def upd_global_def)

lemma kernel_global [kernel_frame]:
  "kernel (upd_global (\<lambda>g. g\<lparr>mallocCount := f1 g\<rparr>) d) = kernel d"
  "kernel (upd_global (\<lambda>g. g\<lparr>devIpAddr := f2 g\<rparr>) d) = kernel d"
  "kernel (upd_global (\<lambda>g. g\<lparr>socketSn := f3 g\<rparr>) d) = kernel d"
  "kernel (upd_global (\<lambda>g. g\<lparr>tcpServerAddr := f4 g\<rparr>) d) = kernel d"
  by (simp_all add: kernel_def upd_global_def)

lemma kernel_time [kernel_frame]:
  "kernel (snd (lum_getSystemTime E d)) = kernel d" "kernel (createGetUtcTimer E p d) = kernel d"
  "kernel (lum_syncNetworkTime E t d) = kernel d" "kernel (lum_initTimer E p d) = kernel d"
  "kernel (lum_createHeartBeatTimer E i d) = kernel d" "kernel (lum_checkTcpHeartTimeout E d) = kernel d"
  "kernel (lum_checkFactoryResetTimer E d) = kernel d" "kernel (lum_stopFactoryResetTimer d) = kernel d"
  by (simp_all add: kernel_frame lum_getSystemTime_def createGetUtcTimer_def lum_syncNetworkTime_def
      lum_initTimer_def lum_createHeartBeatTimer_def lum_checkTcpHeartTimeout_def
      lum_checkFactoryResetTimer_def lum_stopFactoryResetTimer_def Let_def)

lemma kernel_pins [kernel_frame]:
  "kernel (snd (read_pin E p d)) = kernel d" "kernel (snd (getSwitchStatus E f d)) = kernel d"
  "kernel (changeWifiLedStatus E b d) = kernel d" "kernel (wifiLedTimerCallback E d) = kernel d"
  "kernel (setWifiLedStatus E s d) = kernel d" "kernel (deviceKeyPressIrq E d) = kernel d"
  "kernel (setServerAddr a d) = kernel d" "kernel (snd (getSocketSn b d)) = kernel d"
  "kernel (lum_checlCaliDateByApp E t d) = kernel d"
  by (simp_all add: kernel_frame read_pin_def getSwitchStatus_def changeWifiLedStatus_def
      wifiLedTimerCallback_def setWifiLedStatus_def deviceKeyPressIrq_def startIrqDebounceTimer_def
      setServerAddr_def getSocketSn_def lum_checlCaliDateByApp_def Let_def
      split: prod.splits wifi_led_status.splits)
    (metis kernel_time snd_conv)+

lemma kernel_malloc [kernel_dest]: "mallocSocketData E n d = (r, d') \<Longrightarrow> kernel d' = kernel d"
  by (cases E n d rule: mallocSocketData_cases) (auto simp: kernel_frame)

lemma kernel_lists [kernel_dest]:
  "insertLocalMsgToList E origin dat len cmd d = Some (r, d') \<Longrightarrow> kernel d' = kernel d"
  "deleteListNode p d = Some (b, d') \<Longrightarrow> kernel d' = kernel d"
  "enqueue_msg m d = Some d' \<Longrightarrow> kernel d' = kernel d"
  "encryptRecvSocketData E origin buf cnt d = Some (x, d') \<Longrightarrow> kernel d' = kernel d"
  by (auto intro!: kernel_core dest: insertLocalMsgToList_core(1) deleteListNode_core(1) enqueue_msg_core(1)
      encryptRecvSocketData_core)

lemma kernel_switch [kernel_dest]:
  "setSwitchStatus E action p d = Some d' \<Longrightarrow> kernel d' = kernel d"
  "changeSwitchStatus E p d = Some d' \<Longrightarrow> kernel d' = kernel d"
  by (auto simp: changeSwitchStatus_def getSwitchStatus_def read_pin_def lum_getSwitchFlag_def Let_def
      intro!: kernel_core dest!: setSwitchStatus_core(1) split: if_splits)

lemma kernel_log [kernel_dest]:
  "getIpAddrFromModual E d = Some (r, d') \<Longrightarrow> kernel d' = kernel d"
  "getDeviceIpAddress E d = Some (ip, d') \<Longrightarrow> kernel d' = kernel d"
  "setDeviceIpAddress E b ip d = Some d' \<Longrightarrow> kernel d' = kernel d"
  "lum_getStringTime E a b d = Some (s, d') \<Longrightarrow> kernel d' = kernel d"
  "formatHeaderData E a m buf d = Some (x, d') \<Longrightarrow> kernel d' = kernel d"
proof -
  show ip: "getIpAddrFromModual E d = Some (r, d') \<Longrightarrow> kernel d' = kernel d" for r d d'
    by (auto simp: getIpAddrFromModual_def at_command_def kernel_frame Let_def split: if_splits)
  show "getDeviceIpAddress E d = Some (ip, d') \<Longrightarrow> kernel d' = kernel d"
    by (auto simp: getDeviceIpAddress_def kernel_frame Let_def dest!: ip split: if_splits bind_splits option.splits)
  show "setDeviceIpAddress E b ip d = Some d' \<Longrightarrow> kernel d' = kernel d"
    by (auto simp: setDeviceIpAddress_def kernel_frame Let_def dest!: ip split: if_splits bind_splits option.splits)
  show time: "lum_getStringTime E a b d = Some (s, d') \<Longrightarrow> kernel d' = kernel d" for a b s d d'
    using kernel_time(1) [of E d] by (auto simp: lum_getStringTime_def Let_def split: bind_splits prod.splits if_splits)
  show "formatHeaderData E a m buf d = Some (x, d') \<Longrightarrow> kernel d' = kernel d"
    by (auto simp: formatHeaderData_def Let_def dest!: time split: bind_splits)
qed

lemma kernel_udp_log [kernel_dest]:
  "lum_sendUdpLog E buf len d = Some (b, d') \<Longrightarrow> kernel d' = kernel d"
  "saveSocketData E a m dat n d = Some d' \<Longrightarrow> kernel d' = kernel d"
  "saveNormalLogData E msg d = Some d' \<Longrightarrow> kernel d' = kernel d"
proof -
  show send: "lum_sendUdpLog E buf len d = Some (b, d') \<Longrightarrow> kernel d' = kernel d" for buf len b d d'
    by (auto simp: lum_sendUdpLog_def kernel_frame Let_def dest!: kernel_log split: if_splits bind_splits)
  show "saveSocketData E a m dat n d = Some d' \<Longrightarrow> kernel d' = kernel d"
    by (auto simp: saveSocketData_def kernel_frame Let_def dest!: send kernel_log(5) kernel_malloc
        split: if_splits bind_splits option.splits prod.splits)
  show "saveNormalLogData E msg d = Some d' \<Longrightarrow> kernel d' = kernel d"
    by (auto simp: saveNormalLogData_def kernel_frame Let_def dest!: send kernel_log(4) kernel_malloc
        split: if_splits bind_splits option.splits prod.splits)
qed

lemma kernel_send_nodes [kernel_dest]:
  "deleteSendListNode p d = Some (b, d') \<Longrightarrow> kernel d' = kernel d"
  "deleteRequstSendNode sn d = Some (b, d') \<Longrightarrow> kernel d' = kernel d"
  "set_send_body a n d = Some d' \<Longrightarrow> kernel d' = kernel d"
  "addSendDataToNode E n d = Some (b, d') \<Longrightarrow> kernel d' = kernel d"
proof -
  show del: "deleteSendListNode p d = Some (b, d') \<Longrightarrow> kernel d' = kernel d" for p b d d'
    by (auto simp: deleteSendListNode_def freeSendNodeMemory_def kernel_frame Let_def
        split: option.splits bind_splits if_splits)
  show "deleteRequstSendNode sn d = Some (b, d') \<Longrightarrow> kernel d' = kernel d"
    by (auto simp: deleteRequstSendNode_def dest!: del split: option.splits bind_splits)
  show "set_send_body a n d = Some d' \<Longrightarrow> kernel d' = kernel d"
    by (auto simp: set_send_body_def kernel_frame)
  show "addSendDataToNode E n d = Some (b, d') \<Longrightarrow> kernel d' = kernel d"
    by (auto simp: addSendDataToNode_def put_send_node_def insertSendListNode_def kernel_frame Let_def
        dest!: kernel_malloc split: if_splits bind_splits prod.splits)
qed

lemma kernel_delete_tcp: "delete_tcp_nodes p d = Some r \<Longrightarrow> kernel r = kernel d"
proof (erule delete_tcp_nodes.raw_induct [where P = "\<lambda>p d r. kernel r = kernel d", rotated])
  fix f p d r
  assume IH: "\<And>p d r. f p d = Some r \<Longrightarrow> kernel r = kernel d"
    and run: "(case p of None \<Rightarrow> Some d
      | Some a \<Rightarrow> Option.bind (cells (sendList d) a) (\<lambda>c.
          if sendOrigin (fst c) = MSG_FROM_TCP
          then Option.bind (deleteSendListNode (Some a) d) (\<lambda>r. f (snd c) (snd r))
          else f (snd c) d)) = Some r"
  show "kernel r = kernel d"
    using run by (auto dest!: kernel_send_nodes(1) IH split: option.splits bind_splits if_splits)
qed

lemma kernel_sending [kernel_dest]:
  "lum_delAllTcpWhileReconnServer d = Some d' \<Longrightarrow> kernel d' = kernel d"
  "sendUdpData buf n ip d = Some (b, d') \<Longrightarrow> kernel d' = kernel d"
  "sendTcpData buf n d = Some (b, d') \<Longrightarrow> kernel d' = kernel d"
  "after_send b t a n1 d = Some d' \<Longrightarrow> kernel d' = kernel d"
  by (auto simp: lum_delAllTcpWhileReconnServer_def sendUdpData_def sendTcpData_def udpSocketSendData_def
      tcpSocketSendData_def after_send_def kernel_frame Let_def
      dest!: kernel_delete_tcp kernel_send_nodes split: if_splits bind_splits)

lemma kernel_send_loop: "send_loop E t u now p d = Some r \<Longrightarrow> kernel (snd r) = kernel d"
proof (erule send_loop.raw_induct [where P = "\<lambda>E t u now p d r. kernel (snd r) = kernel d", rotated])
  fix f E t u now p d r
  assume IH: "\<And>E t u now p d r. f E t u now p d = Some r \<Longrightarrow> kernel (snd r) = kernel d"
    and run: "(case p of None \<Rightarrow> Some (False, d)
      | Some a \<Rightarrow> Option.bind (cells (sendList d) a) (\<lambda>c.
          let b = fst c in
          if sendOrigin b \<noteq> MSG_FROM_UDP \<and> sendOrigin b \<noteq> MSG_FROM_TCP
          then Option.bind (deleteSendListNode (Some a) d) (\<lambda>r. f E t u now (snd c) (snd r))
          else if nextSendTime b = 0 \<or> nextSendTime b < now
          then let (ready, d1) = socketSelectWrite E (if sendOrigin b = MSG_FROM_UDP then u else t) d
            in if ready = 0
               then Option.bind
                 (set_send_body a (b\<lparr>nextSendTime := now + MAX_RESEND_INTERVAL div 2\<rparr>) d1)
                 (f E t u now (snd c))
               else do {
                 (sendSuccess, d2) \<leftarrow>
                   (if sendOrigin b = MSG_FROM_UDP
                    then sendUdpData (sendData b) (unat (sendLen b)) (sendIp b) d1
                    else sendTcpData (sendData b) (unat (sendLen b)) d1);
                 d3 \<leftarrow> after_send sendSuccess now a b d2;
                 Some (sendSuccess, d3)
               }
          else f E t u now (snd c) d)) = Some r"
  show "kernel (snd r) = kernel d"
    using run by (auto simp: Let_def socketSelectWrite_def kernel_frame
        dest!: kernel_send_nodes kernel_sending IH split: option.splits bind_splits if_splits)
qed

lemma kernel_sendSocketData [kernel_dest]:
  "sendSocketData E t u d = Some (b, d') \<Longrightarrow> kernel d' = kernel d"
  using kernel_time(1) [of E d]
  by (auto simp: sendSocketData_def Let_def dest!: kernel_send_loop split: prod.splits if_splits)

lemma kernel_sn: "getSocketSn b d = (sn, d') \<Longrightarrow> kernel d' = kernel d"
  using kernel_pins(8) [of b d] by simp

lemma kernel_packets [kernel_dest]:
  "createSendSocketData E c d = Some (r, d') \<Longrightarrow> kernel d' = kernel d"
  "msgSendSocketData E c pNode d = Some d' \<Longrightarrow> kernel d' = kernel d"
  "reply E body pNode d = Some d' \<Longrightarrow> kernel d' = kernel d"
  "request E body pNode d = Some d' \<Longrightarrow> kernel d' = kernel d"
proof -
  show create: "createSendSocketData E c d = Some (r, d') \<Longrightarrow> kernel d' = kernel d" for c r d d'
    by (auto simp: createSendSocketData_def getEncryptDataBuf_def kernel_frame Let_def
        dest!: kernel_malloc kernel_udp_log(2) split: if_splits bind_splits option.splits prod.splits)
  show send: "msgSendSocketData E c pNode d = Some d' \<Longrightarrow> kernel d' = kernel d" for c pNode d d'
    by (auto simp: msgSendSocketData_def kernel_frame Let_def dest!: create kernel_send_nodes(4) kernel_sn
        split: if_splits bind_splits option.splits prod.splits)
  show "reply E body pNode d = Some d' \<Longrightarrow> kernel d' = kernel d"
    "request E body pNode d = Some d' \<Longrightarrow> kernel d' = kernel d"
    by (simp_all add: reply_def request_def send)
qed

lemma kernel_receive [kernel_dest]:
  "insertSocketMsgToList E origin buf cnt ip d = Some (b, d') \<Longrightarrow> kernel d' = kernel d"
  "recv_into E fd bf off n d = Some (r, d') \<Longrightarrow> kernel d' = kernel d"
  "tcpSocketRecvData E bf fd d = Some (r, d') \<Longrightarrow> kernel d' = kernel d"
  "recvUdpData E d = Some (u, d') \<Longrightarrow> kernel d' = kernel d"
proof -
  show "insertSocketMsgToList E origin buf cnt ip d = Some (b, d') \<Longrightarrow> kernel d' = kernel d"
    by (auto simp: insertSocketMsgToList_def kernel_frame Let_def
        dest!: kernel_malloc kernel_lists(3,4) kernel_udp_log(2)
        split: if_splits bind_splits option.splits prod.splits)
  show recv: "recv_into E fd bf off n d = Some (r, d') \<Longrightarrow> kernel d' = kernel d" for fd bf off n d r d'
    by (auto simp: recv_into_def kernel_frame Let_def split: option.splits)
  show "tcpSocketRecvData E bf fd d = Some (r, d') \<Longrightarrow> kernel d' = kernel d"
    by (auto simp: tcpSocketRecvData_def kernel_frame Let_def dest!: recv split: if_splits bind_splits)
  show "recvUdpData E d = Some (u, d') \<Longrightarrow> kernel d' = kernel d"
    by (auto simp: recvUdpData_def udpSocketRecvData_def kernel_frame Let_def
        split: option.splits bind_splits prod.splits)
qed

lemma kernel_open_socket:
  "open_socket E d = Some r \<Longrightarrow> kernel (snd r) = kernel d \<and> fst r \<ge> 0"
proof (erule open_socket.raw_induct [where P = "\<lambda>E d r. kernel (snd r) = kernel d \<and> fst r \<ge> 0", rotated])
  fix f E d r
  assume IH: "\<And>E d r. f E d = Some r \<Longrightarrow> kernel (snd r) = kernel d \<and> fst r \<ge> 0"
    and run: "(let fd = c_socket E (trace d); d1 = call Socket_open d
      in if fd < 0 then f E (call (Msleep 1000) d1) else Some (fd, d1)) = Some r"
  show "kernel (snd r) = kernel d \<and> fst r \<ge> 0"
    using run IH [of E "call (Msleep 1000) (call Socket_open d)" r]
    by (auto simp: Let_def kernel_frame split: if_splits)
qed

lemma kernel_date [kernel_dest]:
  "createSocketFd E d = Some (fd, d') \<Longrightarrow> kernel d' = kernel d"
  "date_loop n E fd d = Some (r, d') \<Longrightarrow> kernel d' = kernel d"
  "getUtcTimeByMessage E d = Some d' \<Longrightarrow> kernel d' = kernel d"
proof -
  show sock: "createSocketFd E d = Some (fd, d') \<Longrightarrow> kernel d' = kernel d" for fd d d'
    by (auto simp: createSocketFd_def setSocketOption_def kernel_frame dest!: kernel_open_socket split: bind_splits)
  show loop: "date_loop n E fd d = Some (r, d') \<Longrightarrow> kernel d' = kernel d" for n fd d r d'
    by (induction n arbitrary: d)
      (auto simp: socketSelectRead_def kernel_frame Let_def dest!: kernel_receive(3) split: if_splits bind_splits)
  show "getUtcTimeByMessage E d = Some d' \<Longrightarrow> kernel d' = kernel d"
    by (auto simp: getUtcTimeByMessage_def getUtcTimeFromNetwork_def kernel_frame Let_def
        dest!: sock loop split: if_splits bind_splits option.splits prod.splits)
qed

lemma kernel_callbacks [kernel_dest]:
  "lum_sendFactoryResetMsg E d = Some d' \<Longrightarrow> kernel d' = kernel d"
  "lum_factoryReseTimerCallback E d = Some d' \<Longrightarrow> kernel d' = kernel d"
  "lum_checkReportUsername E d = Some d' \<Longrightarrow> kernel d' = kernel d"
  "lum_AfterConnectServer E d = Some d' \<Longrightarrow> kernel d' = kernel d"
  "heartBeatTimerCallback E d = Some d' \<Longrightarrow> kernel d' = kernel d"
  "getUtcTimerCallback E d = Some d' \<Longrightarrow> kernel d' = kernel d"
  "irqDebounceTimerCallback E d = Some d' \<Longrightarrow> kernel d' = kernel d"
proof -
  show msg: "lum_sendFactoryResetMsg E d = Some d' \<Longrightarrow> kernel d' = kernel d" for d d'
    by (auto simp: lum_sendFactoryResetMsg_def dest!: kernel_lists(1) split: if_splits)
  show "lum_factoryReseTimerCallback E d = Some d' \<Longrightarrow> kernel d' = kernel d"
    by (auto simp: lum_factoryReseTimerCallback_def kernel_frame dest!: msg)
  show user: "lum_checkReportUsername E d = Some d' \<Longrightarrow> kernel d' = kernel d" for d d'
    by (auto simp: lum_checkReportUsername_def kernel_frame dest!: msg split: if_splits bind_splits)
  show "lum_AfterConnectServer E d = Some d' \<Longrightarrow> kernel d' = kernel d"
    by (auto simp: lum_AfterConnectServer_def kernel_frame dest!: user)
  show "heartBeatTimerCallback E d = Some d' \<Longrightarrow> kernel d' = kernel d"
    by (auto simp: heartBeatTimerCallback_def kernel_frame dest!: kernel_lists(1) split: if_splits bind_splits)
  show "getUtcTimerCallback E d = Some d' \<Longrightarrow> kernel d' = kernel d"
    by (auto simp: getUtcTimerCallback_def dest!: kernel_lists(1))
  show "irqDebounceTimerCallback E d = Some d' \<Longrightarrow> kernel d' = kernel d"
    by (auto simp: kernel_frame dest!: kernel_switch(2) elim!: irqDebounceTimerCallback_cases)
qed

section \<open>Operations on the configuration\<close>

lemma well_formed_config:
  assumes "well_formed d" "snd (kernel d') = snd (kernel d)" "config_shape (deviceConfigData d')"
  shows "well_formed d'"
  using assms by (simp add: well_formed_def kernel_def keys_ok_def connection_ok_def getDeviceConnectInfo_def)

lemma links_upd_config [simp]: "snd (kernel (upd_config f d)) = snd (kernel d)"
  by (simp add: kernel_def upd_config_def)

lemma links_simps [simp]:
  "snd (kernel (saveDeviceConfigData d)) = snd (kernel d)" "snd (kernel (call c d)) = snd (kernel d)"
  by (simp_all add: kernel_frame)

lemma well_formed_setters [wf_intros]:
  assumes "well_formed d"
  shows "well_formed (setCountDownData cd i d)" "well_formed (deleteCountDownData i d)"
    "well_formed (deleteAlarmData i b d)" "well_formed (eraseAbsenceData i d)"
    "well_formed (changeDeviceLockedStatus b d)" "well_formed (lum_setUdpLogFlag v d)"
    "well_formed (clearSoftwareUpgradeFlag d)"
    "length (nameData nd) = DEVICE_NAME_LEN \<Longrightarrow> well_formed (setDeviceName nd d)"
proof -
  have s: "config_shape (deviceConfigData d)" using assms by (simp add: well_formed_def)
  note sh = small_setters_shape [OF s] deleteAlarmData_shape [OF s] eraseAbsenceData_shape [OF s]
  note wf = well_formed_config [OF assms]
  show "well_formed (setCountDownData cd i d)" by (rule wf [OF _ sh(1)]) (simp add: setCountDownData_def)
  show "well_formed (deleteCountDownData i d)" by (rule wf [OF _ sh(2)]) (simp add: deleteCountDownData_def)
  show "well_formed (deleteAlarmData i b d)" by (rule wf [OF _ sh(9)]) (simp add: deleteAlarmData_def Let_def)
  show "well_formed (eraseAbsenceData i d)" by (rule wf [OF _ sh(10)]) (simp add: eraseAbsenceData_def)
  show "well_formed (changeDeviceLockedStatus b d)"
    by (rule wf [OF _ sh(4)]) (simp add: changeDeviceLockedStatus_def Let_def)
  show "well_formed (lum_setUdpLogFlag v d)" by (rule wf [OF _ sh(6)]) (simp add: lum_setUdpLogFlag_def)
  show "well_formed (clearSoftwareUpgradeFlag d)" by (rule wf [OF _ sh(7)]) (simp add: clearSoftwareUpgradeFlag_def)
  show "well_formed (setDeviceName nd d)" if "length (nameData nd) = DEVICE_NAME_LEN"
    by (rule wf [OF _ sh(8) [OF that]]) (simp add: setDeviceName_def)
qed

lemma well_formed_partial_setters:
  assumes "well_formed d"
  shows "setAlarmData a i offset d = Some (r, d') \<Longrightarrow> well_formed d'"
    "lum_setUserName name d = Some d' \<Longrightarrow> well_formed d'"
    "setSoftwareUpgradeUrl E url n d = Some d' \<Longrightarrow> well_formed d'"
proof -
  have s: "config_shape (deviceConfigData d)" using assms by (simp add: well_formed_def)
  show "well_formed d'" if "setAlarmData a i offset d = Some (r, d')"
    by (rule well_formed_config [OF assms _ setAlarmData_shape [OF that s]])
      (use that in \<open>auto simp: setAlarmData_def Let_def split: if_splits bind_splits\<close>)
  show "well_formed d'" if "lum_setUserName name d = Some d'"
    by (rule well_formed_config [OF assms _ lum_setUserName_shape [OF that s]])
      (use that in \<open>auto simp: lum_setUserName_def Let_def split: bind_splits\<close>)
  show "well_formed d'" if "setSoftwareUpgradeUrl E url n d = Some d'"
    by (rule well_formed_config [OF assms _ setSoftwareUpgradeUrl_shape [OF that s]])
      (use that in \<open>auto simp: setSoftwareUpgradeUrl_def Let_def dest!: kernel_lists(1)
         split: if_splits bind_splits\<close>)
qed

section \<open>Timers of the user\<close>

lemma well_formed_foldo:
  assumes "\<And>x d d'. f x d = Some d' \<Longrightarrow> well_formed d \<Longrightarrow> well_formed d'"
  shows "foldo f xs d = Some d' \<Longrightarrow> well_formed d \<Longrightarrow> well_formed d'"
proof (induction xs arbitrary: d)
  case (Cons x xs)
  then show ?case using assms by (auto split: bind_splits)
qed simp

lemma well_formed_alarm:
  assumes "well_formed d"
  shows "lum_checkInactiveAlarm i a d = Some d' \<Longrightarrow> well_formed d'"
    "lum_compareAlarm E t m i d = Some d' \<Longrightarrow> well_formed d'"
proof -
  have inactive: "lum_checkInactiveAlarm i a d = Some d' \<Longrightarrow> well_formed d'" if "well_formed d" for i a d d'
    using well_formed_partial_setters(1) [OF that] by (auto simp: lum_checkInactiveAlarm_def)
  then show "lum_checkInactiveAlarm i a d = Some d' \<Longrightarrow> well_formed d'" using assms .
  have switch: "setSwitchStatus E s p d = Some d' \<Longrightarrow> well_formed d' = well_formed d" for s p d d'
    by (rule well_formed_kernel) (rule kernel_switch(1))
  have start: "alarm_start E i t m w c d = Some d' \<Longrightarrow> well_formed d \<Longrightarrow> well_formed d'" for w c d d'
    by (auto simp: alarm_start_def Let_def dest!: switch dest: inactive split: if_splits bind_splits)
  have stop: "alarm_stop E i t m w c e d = Some d' \<Longrightarrow> well_formed d \<Longrightarrow> well_formed d'" for w c e d d'
    by (auto simp: alarm_stop_def Let_def dest!: switch dest: inactive split: if_splits bind_splits)
  show "lum_compareAlarm E t m i d = Some d' \<Longrightarrow> well_formed d'"
    using assms by (auto simp: lum_compareAlarm_def Let_def dest: start stop split: if_splits bind_splits)
qed

lemma kernel_now: "lum_getSystemTime E d = (now, d') \<Longrightarrow> kernel d' = kernel d"
  using kernel_time(1) [of E d] by simp

lemma kernel_gmtime: "lum_getGmtime E d = Some (t, d') \<Longrightarrow> kernel d' = kernel d"
  by (auto simp: lum_getGmtime_def Let_def dest: kernel_now split: prod.splits)

definition keeps_well_formed :: "set_absence \<Rightarrow> bool" where
  "keeps_well_formed sf \<longleftrightarrow> (\<forall>a i offset d r d'. sf a i offset d = Some (r, d') \<longrightarrow> well_formed d \<longrightarrow> well_formed d')"

lemma well_formed_absence_loop:
  assumes sf: "keeps_well_formed sf"
  shows "absence_loop sf t m is st d = Some (r, d') \<Longrightarrow> well_formed d \<Longrightarrow> well_formed d'"
proof (induction "is" arbitrary: d st)
  case (Cons i "is")
  have "well_formed d1" if "lum_compareAbsence sf t m (of_nat i) d = Some (s, d1)" for s d1
    using that Cons.prems(2) sf
    by (auto simp: lum_compareAbsence_def lum_checkInactiveAbsence_def keeps_well_formed_def
      split: if_splits bind_splits)
  then show ?case using Cons by (auto split: bind_splits)
qed simp

lemma well_formed_absence_act:
  assumes "absence_act E m p st d = Some d'" "well_formed d"
  shows "well_formed d'"
proof -
  have "kernel d2 = kernel d1" if "lum_changeSwitchByAbsence E a m b p d1 = Some d2" for a b d1 d2
    using that by (auto simp: lum_changeSwitchByAbsence_def getRandomNumber_def kernel_frame Let_def
      dest!: kernel_switch(1) split: if_splits bind_splits)
  then have "kernel d' = kernel d"
    using assms(1) by (auto simp: absence_act_def getSwitchStatus_def read_pin_def kernel_frame Let_def
      split: if_splits)
  then show ?thesis using assms(2) well_formed_kernel by blast
qed

lemma well_formed_checkAbsence:
  assumes sf: "keeps_well_formed sf"
  shows "lum_checkAbsence sf E t m p d = Some d' \<Longrightarrow> well_formed d \<Longrightarrow> well_formed d'"
    "lum_checkAbsenceWhileChange sf E i d = Some d' \<Longrightarrow> well_formed d \<Longrightarrow> well_formed d'"
proof -
  show check: "lum_checkAbsence sf E t m p d = Some d' \<Longrightarrow> well_formed d \<Longrightarrow> well_formed d'" for t m p d d'
    by (auto simp: lum_checkAbsence_def dest: well_formed_absence_loop [OF sf] well_formed_absence_act
        split: if_splits bind_splits)
  show "well_formed d'" if run: "lum_checkAbsenceWhileChange sf E i d = Some d'" and d: "well_formed d"
  proof -
    consider "d' = d" | t d1 where "lum_getGmtime E d = Some (t, d1)"
        "lum_checkAbsence sf E t (minute_of (hour t) (minute t)) SWITCH_PIN_1 d1 = Some d'"
      using run by (auto simp: lum_checkAbsenceWhileChange_def split: if_splits bind_splits)
    then show ?thesis
    proof cases
      case 2
      have "well_formed d1" using d well_formed_kernel [OF kernel_gmtime [OF 2(1)]] by simp
      then show ?thesis using check [OF 2(2)] by simp
    qed (simp add: d)
  qed
qed

lemma well_formed_setAbsenceData_n: "keeps_well_formed (setAbsenceData_n n E)"
proof (induction n)
  case 0
  then show ?case by (simp add: keeps_well_formed_def)
next
  case (Suc n)
  have save: "well_formed (saveDeviceConfigData e) = well_formed e" for e
    by (rule well_formed_kernel) (simp add: kernel_frame)
  have store: "well_formed (upd_config (\<lambda>c. c\<lparr>absenceData := (absenceData c)[k := a]\<rparr>) e)" if "well_formed e" for k a e
    by (rule well_formed_config [OF that]) (use that in \<open>auto simp: well_formed_def config_shape_def\<close>)
  show ?case unfolding keeps_well_formed_def setAbsenceData_n.simps
    using well_formed_checkAbsence(2) [OF Suc] well_formed_setters(6) store
    by (auto simp: save Let_def split: if_splits bind_splits)
qed

lemma well_formed_save [simp]: "well_formed (saveDeviceConfigData d) = well_formed d"
  by (rule well_formed_kernel) (simp add: kernel_frame)

lemma well_formed_absence:
  assumes "well_formed d"
  shows "setAbsenceData E a i offset d = Some (r, d') \<Longrightarrow> well_formed d'"
    "deleteAbsenceData E i b d = Some d' \<Longrightarrow> well_formed d'"
proof -
  note k = well_formed_setAbsenceData_n [of ABSENCE_DEPTH E, folded setAbsenceData_def]
  show "setAbsenceData E a i offset d = Some (r, d') \<Longrightarrow> well_formed d'"
    using k assms by (auto simp: keeps_well_formed_def)
  show "deleteAbsenceData E i b d = Some d' \<Longrightarrow> well_formed d'"
    using well_formed_checkAbsence(2) [OF k] well_formed_setters(4) [OF assms] assms
    by (auto simp: deleteAbsenceData_def Let_def split: if_splits)
qed

lemma well_formed_countdown:
  assumes run: "lum_compareCountdown E t i d = Some d'" and d: "well_formed d"
  shows "well_formed d'"
proof -
  obtain now d1 where t: "lum_getSystemTime E d = (now, d1)" by fastforce
  have d1: "well_formed d1" using d well_formed_kernel [OF kernel_now [OF t]] by simp
  have switch: "well_formed e" if "setSwitchStatus E a p d1 = Some e" for a p e
    using d1 well_formed_kernel [OF kernel_switch(1) [OF that]] by simp
  show ?thesis using run d d1 switch
    by (auto simp: lum_compareCountdown_def t lum_checkInactiveCountdown_def Let_def
      intro: well_formed_setters(1) split: if_splits bind_splits)
qed

lemma well_formed_checkTimer:
  assumes "lum_checkTimer E t d = Some d'" "well_formed d"
  shows "well_formed d'"
proof -
  obtain m d1 d2 where s: "lum_checkAlarm E t m d = Some d1"
    "lum_checkAbsence (setAbsenceData E) E t m SWITCH_PIN_1 d1 = Some d2" "lum_checkCountdown E t d2 = Some d'"
    using assms(1) by (auto simp: lum_checkTimer_def Let_def split: bind_splits)
  have "well_formed d1"
    by (rule well_formed_foldo [OF _ s(1) [unfolded lum_checkAlarm_def] assms(2)]) (rule well_formed_alarm(2))
  then have "well_formed d2"
    by (rule well_formed_checkAbsence(1) [OF well_formed_setAbsenceData_n s(2) [unfolded setAbsenceData_def]])
  then show ?thesis
    by (rule well_formed_foldo [OF _ s(3) [unfolded lum_checkCountdown_def], rotated]) (rule well_formed_countdown)
qed

lemma well_formed_minute:
  assumes "lum_checkTimerCallback E d = Some d'" "well_formed d"
  shows "well_formed d'"
proof -
  have protect: "well_formed e'" if "lum_minuteCheckProtect E t e = Some e'" "well_formed e" for t e e'
  proof -
    have loop: "well_formed y" if "foldo (\<lambda>i x. Option.bind (lum_gmtime (now - of_nat ((n - i) * 60)))
        (\<lambda>tmp. lum_checkTimer E tmp x)) xs x = Some y" "well_formed x" for now n xs x y
      by (rule well_formed_foldo [OF _ that]) (auto intro: well_formed_checkTimer split: bind_splits)
    obtain now e1 where t: "lum_getSystemTime E e = (now, e1)" by fastforce
    have "well_formed e1" using that(2) well_formed_kernel [OF kernel_now [OF t]] by simp
    then show ?thesis
      using that loop [of now] well_formed_checkTimer [of E t e e']
      by (auto simp: lum_minuteCheckProtect_def Let_def t simp del: upt_Suc split: if_splits)
  qed
  obtain now d1 where t: "lum_getSystemTime E d = (now, d1)" by fastforce
  have d1: "well_formed d1" using assms(2) well_formed_kernel [OF kernel_now [OF t]] by simp
  have frame: "well_formed (lum_initTimer E p e) = well_formed e"
    "well_formed (e\<lparr>lastCheckMinute := b\<rparr>) = well_formed e" for p e b
    by (rule well_formed_kernel, simp add: kernel_frame)+
  show ?thesis using assms(1) d1 protect
    by (auto simp: lum_checkTimerCallback_def t frame split: if_splits bind_splits)
qed

section \<open>Reset\<close>

definition flash_fits :: "sdk \<Rightarrow> bool" where
  "flash_fits E \<longleftrightarrow> (\<forall>tr. config_shape (hffile_userbin_read E tr))"

lemma defaults_links:
  "snd (kernel (initCountDownData (initAbsenceData (initAlarmData (initDeviceNameData d))))) = snd (kernel d)"
proof -
  have fold: "snd (kernel (fold f xs e)) = snd (kernel e)" if "\<And>x e. snd (kernel (f x e)) = snd (kernel e)" for f xs e
    using that by (induction xs arbitrary: e) simp_all
  show ?thesis
    by (simp add: initCountDownData_def initAbsenceData_def initAlarmData_def initDeviceNameData_def Let_def
      fold deleteAlarmData_def eraseAbsenceData_def)
qed

lemma well_formed_init:
  assumes "flash_fits E"
  shows "well_formed (globalConfigDataInit E b d)"
proof -
  have "config_shape (deviceConfigData (globalConfigDataInit E b d))"
    using globalConfigDataInit_shape assms by (simp add: flash_fits_def)
  moreover have "snd (kernel (globalConfigDataInit E b d)) =
      (keyData zero_global, macAddr zero_global, connInfo zero_global, tcpSocketFd d)"
    using defaults_links by (auto simp: globalConfigDataInit_def Let_def) (simp_all add: kernel_def)
  ultimately show ?thesis
    by (simp add: well_formed_def kernel_def keys_ok_def connection_ok_def getDeviceConnectInfo_def zero_global_def)
qed

lemma well_formed_call [simp]: "well_formed (call c d) = well_formed d"
  by (rule well_formed_kernel) (simp add: kernel_frame)

lemma well_formed_reset:
  assumes "flash_fits E"
  shows "well_formed (lum_deviceFactoryReset E d)" "well_formed (snd (checkResetType E d))"
    "well_formed d \<Longrightarrow> well_formed (deviceKeyTimerCallback E d)"
proof -
  note init = well_formed_init [OF assms]
  have flag: "well_formed (upd_config (\<lambda>c. c\<lparr>needSmartLink := 1\<rparr>) e)" if "well_formed e" for e
    by (rule well_formed_config [OF that]) (use that in \<open>auto simp: well_formed_def config_shape_def\<close>)
  show fr: "well_formed (lum_deviceFactoryReset E d)" for d
    using flag [OF init] by (simp add: lum_deviceFactoryReset_def sendSmartLinkCmd_def at_command_def Let_def)
  show check: "well_formed (snd (checkResetType E d))" for d
    using init by (simp add: checkResetType_def Let_def)
  have frame: "well_formed (e\<lparr>bLongPress := b\<rparr>) = well_formed e" for e b
    by (rule well_formed_kernel) (simp add: kernel_frame)
  show "well_formed d \<Longrightarrow> well_formed (deviceKeyTimerCallback E d)"
    using fr check [of "(call (Pin_read HFGPIO_F_KEY) d)\<lparr>bLongPress := True\<rparr>"]
    by (auto simp: deviceKeyTimerCallback_def getDevicekeyPressStatus_def read_pin_def Let_def split: prod.splits)
qed

section \<open>Connection\<close>

lemma well_formed_links:
  assumes "well_formed d" "fst (kernel d') = fst (kernel d)" "keys_ok d'" "connection_ok d'"
  shows "well_formed d'"
  using assms by (simp add: well_formed_def kernel_def)

lemma well_formed_connInfo:
  assumes "well_formed d"
  shows "well_formed (setDeviceConnectInfo DHPC_OK_BIT b d)"
    "well_formed (setDeviceConnectInfo SERVER_CONN_BIT False d)"
    "well_formed (setDeviceConnectInfo SERVER_CONN_BIT False (setDeviceConnectInfo BALANCE_CONN_BIT False d))"
    "well_formed (setDeviceConnectInfo SERVER_ADDR_BIT True d)"
    "tcpSocketFd d \<ge> 0 \<Longrightarrow> well_formed (setDeviceConnectInfo BALANCE_CONN_BIT True d)"
    "getDeviceConnectInfo BALANCE_CONN_BIT d \<Longrightarrow> getDeviceConnectInfo SERVER_ADDR_BIT d \<Longrightarrow>
      well_formed (setDeviceConnectInfo SERVER_CONN_BIT True d)"
  using assms
  by (auto simp: well_formed_def keys_ok_def connection_ok_def connInfo_set setDeviceConnectInfo_def
      upd_global_def getDeviceConnectInfo_def)

lemma well_formed_server_keys:
  assumes "well_formed d"
  shows "length key = AES_KEY_LEN \<Longrightarrow> well_formed (setServerAesKey key d)"
    "well_formed (clearServerAesKey False d)" "well_formed (afterGetServerAddr a d)"
proof -
  show "well_formed (setServerAesKey key d)" if "length key = AES_KEY_LEN"
    using assms that by (simp add: well_formed_def setServerAesKey_def keys_ok_def connection_ok_def
      getDeviceConnectInfo_def upd_global_def)
  show "well_formed (clearServerAesKey False d)"
    using assms by (simp add: well_formed_def clearServerAesKey_def keys_ok_def connection_ok_def
      getDeviceConnectInfo_def upd_global_def)
  have "well_formed (setServerAddr a (call (Mutex_lock g_tcp_socket_mutex) d))"
    using assms by (subst well_formed_kernel [where d = d]) (simp_all add: kernel_frame)
  from well_formed_connInfo(4) [OF this] show "well_formed (afterGetServerAddr a d)"
    by (simp add: afterGetServerAddr_def)
qed

lemma tcpSocketInit_ok:
  assumes "tcpSocketInit E clear d = Some d'" "well_formed d"
  shows "well_formed d'" "tcpSocketFd d' \<ge> 0" "connInfo (globalData d') = connInfo (globalData d)"
proof -
  define d1 where "d1 = (if tcpSocketFd d \<noteq> -1
    then (call (Socket_close (tcpSocketFd d)) d)\<lparr>tcpSocketFd := -1\<rparr> else d)"
  obtain fd d2 where o: "createSocketFd E d1 = Some (fd, d2)"
    "d' = (if clear then clearServerAesKey False (d2\<lparr>tcpSocketFd := fd\<rparr>) else d2\<lparr>tcpSocketFd := fd\<rparr>)"
    using assms(1) by (auto simp: tcpSocketInit_def d1_def Let_def split: bind_splits)
  have fd: "fd \<ge> 0" using o(1) kernel_open_socket by (auto simp: createSocketFd_def split: bind_splits)
  have k: "deviceConfigData d2 = deviceConfigData d" "keyData (globalData d2) = keyData (globalData d)"
    "macAddr (globalData d2) = macAddr (globalData d)" "connInfo (globalData d2) = connInfo (globalData d)"
    using kernel_date(1) [OF o(1)] by (auto simp: kernel_def d1_def split: if_splits)
  then have w: "well_formed (d2\<lparr>tcpSocketFd := fd\<rparr>)"
    using assms(2) fd by (simp add: well_formed_def keys_ok_def connection_ok_def getDeviceConnectInfo_def)
  show "well_formed d'" using o(2) w well_formed_server_keys(2) by simp
  show "tcpSocketFd d' \<ge> 0" "connInfo (globalData d') = connInfo (globalData d)"
    using o(2) fd k by (simp_all add: clearServerAesKey_def upd_global_def)
qed

lemma kernel_connectServerSocket: "connectServerSocket E a d = (b, d') \<Longrightarrow> kernel d' = kernel d"
  by (auto simp: connectServerSocket_def kernel_frame Let_def split: if_splits)

lemma well_formed_queued:
  assumes "insertLocalMsgToList E origin dat len cmd d = Some (r, d')" "well_formed d"
  shows "well_formed d'"
  using well_formed_kernel [OF kernel_lists(1) [OF assms(1)]] assms(2) by simp

lemma well_formed_checkTcpConnStatus:
  assumes run: "checkTcpConnStatus E d = Some (again, d')" and d: "well_formed d"
  shows "well_formed d'"
proof -
  have queued: "well_formed d'" if "(if b then map_option (\<lambda>r. (False, snd r))
        (insertLocalMsgToList E MSG_LOCAL_EVENT None 0 cmd e1) else Some (True, call (Msleep 3000) e2))
      = Some (again, d')" "b \<Longrightarrow> well_formed e1" "well_formed e2" for b cmd e1 e2
    using that well_formed_queued by (auto split: if_splits)
  consider (off) "getDeviceConnectInfo SERVER_CONN_BIT d \<or> \<not> getDeviceConnectInfo DHPC_OK_BIT d"
    | (balance) "\<not> getDeviceConnectInfo SERVER_CONN_BIT d" "getDeviceConnectInfo DHPC_OK_BIT d"
      "\<not> getDeviceConnectInfo BALANCE_CONN_BIT d"
    | (server) "\<not> getDeviceConnectInfo SERVER_CONN_BIT d" "getDeviceConnectInfo DHPC_OK_BIT d"
      "getDeviceConnectInfo BALANCE_CONN_BIT d" "getDeviceConnectInfo SERVER_ADDR_BIT d"
    | (wait) "\<not> getDeviceConnectInfo SERVER_CONN_BIT d" "getDeviceConnectInfo DHPC_OK_BIT d"
      "getDeviceConnectInfo BALANCE_CONN_BIT d" "\<not> getDeviceConnectInfo SERVER_ADDR_BIT d"
    by blast
  then show ?thesis
  proof cases
    case balance
    obtain d1 where i: "tcpSocketInit E False d = Some d1"
      using run balance by (auto simp: checkTcpConnStatus_def split: bind_splits)
    obtain addr d2 where g: "getBalanceServerAddr E d1 = (addr, d2)" by fastforce
    obtain b d3 where c: "(case addr of None \<Rightarrow> (False, d2) | Some a \<Rightarrow> connectServerSocket E a d2) = (b, d3)"
      by fastforce
    have k: "kernel d3 = kernel d1"
      using c g by (auto simp: getBalanceServerAddr_def kernel_frame Let_def dest: kernel_connectServerSocket
        split: option.splits)
    have d3: "well_formed d3" "tcpSocketFd d3 \<ge> 0"
      using tcpSocketInit_ok [OF i d] well_formed_kernel [OF k] k by (simp_all add: kernel_def)
    show ?thesis
      by (rule queued [of b _ "setDeviceConnectInfo BALANCE_CONN_BIT True d3" d3])
        (use run balance d3 in \<open>simp_all add: checkTcpConnStatus_def i g c well_formed_connInfo(5)\<close>)
  next
    case server
    obtain d1 where i: "tcpSocketInit E True d = Some d1"
      using run server by (auto simp: checkTcpConnStatus_def split: bind_splits)
    obtain b d2 where c: "connectServerSocket E (getServerAddr d1) d1 = (b, d2)" by fastforce
    note k = kernel_connectServerSocket [OF c] and ok = tcpSocketInit_ok [OF i d]
    have d2: "well_formed d2" "getDeviceConnectInfo BALANCE_CONN_BIT d2" "getDeviceConnectInfo SERVER_ADDR_BIT d2"
      using ok(1,3) well_formed_kernel [OF k] server(3,4) k
      by (simp_all add: kernel_def getDeviceConnectInfo_def)
    show ?thesis
      by (rule queued [of b _ "setDeviceConnectInfo SERVER_CONN_BIT True d2" d2])
        (use run server d2 in \<open>simp_all add: checkTcpConnStatus_def i c well_formed_connInfo(6)\<close>)
  next
    case off
    then show ?thesis using run d by (auto simp: checkTcpConnStatus_def split: if_splits)
  next
    case wait
    then show ?thesis using run d by (simp add: checkTcpConnStatus_def)
  qed
qed

lemma well_formed_events:
  assumes "well_formed d"
  shows "heartBeatTimeoutTimerCallback E d = Some d' \<Longrightarrow> well_formed d'"
    "recvTcpData E d = Some (r, d') \<Longrightarrow> well_formed d'"
    "systemEventCallback E ev d = Some d' \<Longrightarrow> well_formed d'"
proof -
  have off: "well_formed e'" if "saveNormalLogData E msg (setDeviceConnectInfo SERVER_CONN_BIT False
      (setDeviceConnectInfo BALANCE_CONN_BIT False e)) = Some e'" "well_formed e" for msg e e'
    using well_formed_kernel [OF kernel_udp_log(3) [OF that(1)]] well_formed_connInfo(3) [OF that(2)] by simp
  show "heartBeatTimeoutTimerCallback E d = Some d' \<Longrightarrow> well_formed d'"
    using off assms by (auto simp: heartBeatTimeoutTimerCallback_def)
  have recv: "well_formed e'" if "tcpSocketRecvData E b fd d = Some (x, e')" for b fd x e'
    using well_formed_kernel [OF kernel_receive(3) [OF that]] assms by simp
  show "well_formed d'" if run: "recvTcpData E d = Some (r, d')"
  proof -
    obtain x e where t: "tcpSocketRecvData E (replicate NETWORK_MAXRECV_LEN 0) (tcpSocketFd d) d = Some (x, e)"
      using run by (auto simp: recvTcpData_def split: bind_splits)
    show ?thesis using run off recv [OF t]
      by (cases x) (auto simp: recvTcpData_def t split: if_splits bind_splits)
  qed
  have ip: "well_formed e'" if "setDeviceIpAddress E b a e = Some e'" "well_formed e" for b a e e'
    using well_formed_kernel [OF kernel_log(3) [OF that(1)]] that(2) by simp
  have led: "well_formed (setWifiLedStatus E s e) = well_formed e"
    "well_formed (lum_stopFactoryResetTimer e) = well_formed e" for s e
    by (rule well_formed_kernel, simp add: kernel_frame)+
  show "systemEventCallback E ev d = Some d' \<Longrightarrow> well_formed d'"
    using well_formed_connInfo(1) [OF assms] assms
    by (cases ev) (auto simp: systemEventCallback_def setFlagAfterDhcp_def setFlagAfterApDisconnect_def led
      dest!: ip intro: well_formed_connInfo(2) split: if_splits bind_splits)
qed

section \<open>Messages\<close>

lemma well_formed_answer:
  assumes "well_formed d"
  shows "reply E body pNode d = Some d' \<Longrightarrow> well_formed d'"
    "request E body pNode d = Some d' \<Longrightarrow> well_formed d'"
    "deleteRequstSendNode sn d = Some (b, d') \<Longrightarrow> well_formed d'"
    "setSwitchStatus E action p d = Some d' \<Longrightarrow> well_formed d'"
    "lum_checkReportUsername E d = Some d' \<Longrightarrow> well_formed d'"
    "lum_AfterConnectServer E d = Some d' \<Longrightarrow> well_formed d'"
proof -
  have k: "well_formed d'" if "kernel d' = kernel d" using well_formed_kernel [OF that] assms by simp
  show "reply E body pNode d = Some d' \<Longrightarrow> well_formed d'" by (rule k) (rule kernel_packets(3))
  show "request E body pNode d = Some d' \<Longrightarrow> well_formed d'" by (rule k) (rule kernel_packets(4))
  show "deleteRequstSendNode sn d = Some (b, d') \<Longrightarrow> well_formed d'" by (rule k) (rule kernel_send_nodes(2))
  show "setSwitchStatus E action p d = Some d' \<Longrightarrow> well_formed d'" by (rule k) (rule kernel_switch(1))
  show "lum_checkReportUsername E d = Some d' \<Longrightarrow> well_formed d'" by (rule k) (rule kernel_callbacks(3))
  show "lum_AfterConnectServer E d = Some d' \<Longrightarrow> well_formed d'" by (rule k) (rule kernel_callbacks(4))
qed

lemma well_formed_frames [simp]:
  "well_formed (lum_createHeartBeatTimer E i d) = well_formed d"
  "well_formed (lum_checkTcpHeartTimeout E d) = well_formed d"
  "well_formed (lum_checlCaliDateByApp E t d) = well_formed d"
  "well_formed (lum_stopFactoryResetTimer d) = well_formed d"
  "well_formed (wifiLedTimerCallback E d) = well_formed d"
  "well_formed (deviceKeyPressIrq E d) = well_formed d"
  by (rule well_formed_kernel, simp add: kernel_frame)+

lemmas well_formed_basics = well_formed_answer well_formed_queued well_formed_setters well_formed_partial_setters
  well_formed_absence well_formed_server_keys

lemma well_formed_identity_handlers:
  assumes d: "well_formed d"
  shows "rebackFoundDevice E b d = Some d' \<Longrightarrow> well_formed d'"
    "rebackHeartBeat E b d = Some d' \<Longrightarrow> well_formed d'"
    "rebackGetDeviceInfo E b d = Some d' \<Longrightarrow> well_formed d'"
    "rebackSetDeviceName E b d = Some d' \<Longrightarrow> well_formed d'"
    "rebackLockDevice E b d = Some d' \<Longrightarrow> well_formed d'"
    "rebackGetDeviceUpgrade E b d = Some d' \<Longrightarrow> well_formed d'"
    "rebackEnterSmartLink E b d = Some d' \<Longrightarrow> well_formed d'"
proof -
  have ip: "well_formed e'" if "getDeviceIpAddress E e = Some (ip, e')" "well_formed e" for e ip e'
    using well_formed_kernel [OF kernel_log(2) [OF that(1)]] that(2) by simp
  show "rebackFoundDevice E b d = Some d' \<Longrightarrow> well_formed d'"
    using d by (auto simp: rebackFoundDevice_def setFoundDeviceBody_def dest!: ip well_formed_answer(1) [rotated] split: bind_splits)
  show "rebackHeartBeat E b d = Some d' \<Longrightarrow> well_formed d'"
    using d by (auto simp: rebackHeartBeat_def requstTcpHeartBeat_def rebackUdpHeartBeat_def rebackTcpHeartBeat_def
      Let_def dest: well_formed_answer(1,2,3) [rotated] split: msg_origin.splits bind_splits)
  show "rebackGetDeviceInfo E b d = Some d' \<Longrightarrow> well_formed d'"
    using d by (auto simp: rebackGetDeviceInfo_def Let_def dest: well_formed_answer(1) [rotated] split: bind_splits)
  show "rebackLockDevice E b d = Some d' \<Longrightarrow> well_formed d'"
    using d by (auto simp: rebackLockDevice_def dest: well_formed_answer(1,5) [rotated]
      well_formed_partial_setters(2) [rotated] intro: well_formed_setters(5) split: if_splits bind_splits)
  show "rebackGetDeviceUpgrade E b d = Some d' \<Longrightarrow> well_formed d'"
    using d by (auto simp: rebackGetDeviceUpgrade_def dest: well_formed_answer(1) [rotated]
      well_formed_partial_setters(3) [rotated] split: bind_splits)
  show "rebackEnterSmartLink E b d = Some d' \<Longrightarrow> well_formed d'"
    using d by (auto simp: rebackEnterSmartLink_def dest!: well_formed_answer(1) [rotated]
      dest: well_formed_queued intro: well_formed_setters(5) split: bind_splits)
  show "rebackSetDeviceName E b d = Some d' \<Longrightarrow> well_formed d'"
  proof -
    assume run: "rebackSetDeviceName E b d = Some d'"
    obtain len name where s: "body_byte b 1 = Some len"
      "body_bytes b 2 (unat (if len > DEVICE_NAME_LEN - 2 then DEVICE_NAME_LEN - 2 else len)) = Some name"
      using run by (auto simp: rebackSetDeviceName_def Let_def split: bind_splits)
    define n where "n = (if len > DEVICE_NAME_LEN - 2 then DEVICE_NAME_LEN - 2 else len)"
    have "n \<le> 18" by (auto simp: n_def)
    then have n: "unat n \<le> 18" by (simp add: word_le_nat_alt)
    have "length name = unat n" using s(2) length_rds by (auto simp: body_bytes_def n_def split: bind_splits)
    then have "length (name @ replicate (DEVICE_NAME_LEN - unat n) 0) = DEVICE_NAME_LEN" using n by simp
    from well_formed_setters(8) [OF d, of "\<lparr>nameLen = n, nameData = name @ replicate (DEVICE_NAME_LEN - unat n) 0\<rparr>"] this
    have "well_formed (setDeviceName \<lparr>nameLen = n, nameData = name @ replicate (DEVICE_NAME_LEN - unat n) 0\<rparr> d)" by simp
    from well_formed_answer(1) [OF this] show "well_formed d'"
      using run s by (auto simp: rebackSetDeviceName_def Let_def n_def split: bind_splits)
  qed
qed

lemmas answer_dests = well_formed_answer [rotated]

lemma well_formed_relay_handlers:
  assumes d: "well_formed d"
  shows "rebackSetGpioStatus E b d = Some d' \<Longrightarrow> well_formed d'"
    "rebackGetGpioStatus E b d = Some d' \<Longrightarrow> well_formed d'"
    "reportGpioChangeEvent E b d = Some d' \<Longrightarrow> well_formed d'"
    "rebackReportGpioChange b d = Some d' \<Longrightarrow> well_formed d'"
    "localRequstFactoryDataReset E b d = Some d' \<Longrightarrow> well_formed d'"
    "lum_replyFactoryDataReset d = Some d' \<Longrightarrow> well_formed d'"
    "lum_appResetFactory E b d = Some d' \<Longrightarrow> well_formed d'"
    "lum_cmdSetUdpLogFlag E b d = Some d' \<Longrightarrow> well_formed d'"
proof -
  show "rebackSetGpioStatus E b d = Some d' \<Longrightarrow> well_formed d'"
    using d by (auto simp: rebackSetGpioStatus_def Let_def dest!: answer_dests split: bind_splits)
  show "rebackGetGpioStatus E b d = Some d' \<Longrightarrow> well_formed d'"
    using d by (auto simp: rebackGetGpioStatus_def getSwitchStatus_def read_pin_def Let_def
      dest!: answer_dests split: bind_splits)
  show "reportGpioChangeEvent E b d = Some d' \<Longrightarrow> well_formed d'"
    using d by (auto simp: reportGpioChangeEvent_def Let_def dest!: answer_dests split: bind_splits)
  show "rebackReportGpioChange b d = Some d' \<Longrightarrow> well_formed d'"
    using d by (auto simp: rebackReportGpioChange_def dest!: answer_dests)
  show "localRequstFactoryDataReset E b d = Some d' \<Longrightarrow> well_formed d'"
    using d by (auto simp: localRequstFactoryDataReset_def Let_def dest!: answer_dests split: bind_splits)
  show "lum_replyFactoryDataReset d = Some d' \<Longrightarrow> well_formed d'"
    using d by (auto simp: lum_replyFactoryDataReset_def dest!: well_formed_partial_setters(2) [rotated])
  show "lum_appResetFactory E b d = Some d' \<Longrightarrow> well_formed d'"
    using d by (auto simp: lum_appResetFactory_def dest!: answer_dests well_formed_queued split: bind_splits)
  show "lum_cmdSetUdpLogFlag E b d = Some d' \<Longrightarrow> well_formed d'"
    using d by (auto simp: lum_cmdSetUdpLogFlag_def intro: well_formed_setters(6) dest!: answer_dests
      split: bind_splits)
qed

lemma well_formed_alarm_handlers:
  assumes d: "well_formed d"
  shows "rebackSetAlarmData E b d = Some d' \<Longrightarrow> well_formed d'"
    "rebackGetAlarmData E b d = Some d' \<Longrightarrow> well_formed d'"
    "rebackDeleteAlarmData E b d = Some d' \<Longrightarrow> well_formed d'"
    "rebackSetAbsenceData E b d = Some d' \<Longrightarrow> well_formed d'"
    "rebackGetAbsenceData E b d = Some d' \<Longrightarrow> well_formed d'"
    "rebackDeleteAbsenceData E b d = Some d' \<Longrightarrow> well_formed d'"
proof -
  show "rebackSetAlarmData E b d = Some d' \<Longrightarrow> well_formed d'"
    using d by (auto simp: rebackSetAlarmData_def Let_def dest!: answer_dests(1)
      well_formed_partial_setters(1) [rotated] split: bind_splits)
  show "rebackGetAlarmData E b d = Some d' \<Longrightarrow> well_formed d'"
    using d by (auto simp: rebackGetAlarmData_def Let_def dest!: answer_dests(1) simp del: upt_Suc split: bind_splits)
  show "rebackGetAbsenceData E b d = Some d' \<Longrightarrow> well_formed d'"
    using d by (auto simp: rebackGetAbsenceData_def Let_def dest!: answer_dests(1) simp del: upt_Suc split: bind_splits)
  show "rebackSetAbsenceData E b d = Some d' \<Longrightarrow> well_formed d'"
    using d by (auto simp: rebackSetAbsenceData_def Let_def dest!: answer_dests(1)
      well_formed_absence(1) [rotated] split: bind_splits)
  have alarms: "well_formed y" if "foldo (\<lambda>i d. Option.bind (body_byte b (i + 4))
      (\<lambda>idx. Some (deleteAlarmData (f idx) (g i) d))) xs x = Some y" "well_formed x" for f g xs x y
    by (rule well_formed_foldo [OF _ that]) (auto intro: well_formed_setters(3) split: bind_splits)
  show "rebackDeleteAlarmData E b d = Some d' \<Longrightarrow> well_formed d'"
    using d by (auto simp: rebackDeleteAlarmData_def Let_def dest!: answer_dests(1) dest: alarms
      intro: well_formed_setters(3) split: if_splits bind_splits)
  have absences: "well_formed y" if "foldo (\<lambda>i d. Option.bind (body_byte b (i + 4))
      (\<lambda>idx. deleteAbsenceData E (f idx) (g i) d)) xs x = Some y" "well_formed x" for f g xs x y
    by (rule well_formed_foldo [OF _ that]) (auto dest: well_formed_absence(2) [rotated] split: bind_splits)
  show "rebackDeleteAbsenceData E b d = Some d' \<Longrightarrow> well_formed d'"
    using d by (auto simp: rebackDeleteAbsenceData_def Let_def dest!: answer_dests(1) well_formed_absence(2) [rotated]
      dest: absences split: if_splits bind_splits)
qed

lemma kernel_fill_countdown: "fillCountDownRebackData E i off v d = (bs, d') \<Longrightarrow> kernel d' = kernel d"
  by (auto simp: fillCountDownRebackData_def Let_def dest: kernel_now split: option.splits prod.splits if_splits)

lemma kernel_fill_countdowns:
  "fold (\<lambda>i (bs, d). case fillCountDownRebackData E (f i) off v d of (bs', d') \<Rightarrow> (bs @ bs', d')) xs (bs0, d)
     = (bs, d') \<Longrightarrow> kernel d' = kernel d"
proof (induction xs arbitrary: bs0 d)
  case (Cons x xs)
  obtain bs1 d1 where f: "fillCountDownRebackData E (f x) off v d = (bs1, d1)" by fastforce
  then show ?case using Cons kernel_fill_countdown [OF f] by (simp add: f)
qed simp

lemma well_formed_countdown_handlers:
  assumes d: "well_formed d"
  shows "rebackSetCountDownData E b d = Some d' \<Longrightarrow> well_formed d'"
    "rebackGetCountDownData E b d = Some d' \<Longrightarrow> well_formed d'"
    "rebackDeleteCountDownData E b d = Some d' \<Longrightarrow> well_formed d'"
proof -
  obtain now d1 where t: "lum_getSystemTime E d = (now, d1)" by fastforce
  have d1: "well_formed d1" using well_formed_kernel [OF kernel_now [OF t]] d by simp
  show "rebackSetCountDownData E b d = Some d' \<Longrightarrow> well_formed d'"
    using d d1 by (auto simp: rebackSetCountDownData_def t Let_def dest!: answer_dests(1)
      intro: well_formed_setters(1) split: if_splits bind_splits)
  show "rebackDeleteCountDownData E b d = Some d' \<Longrightarrow> well_formed d'"
    using d by (auto simp: rebackDeleteCountDownData_def dest!: answer_dests(1)
      intro: well_formed_setters(2) split: bind_splits)
  show "well_formed d'" if run: "rebackGetCountDownData E b d = Some d'"
  proof -
    obtain bs d2 body where s: "kernel d2 = kernel d" "reply E body b d2 = Some d'"
      using run by (auto simp: rebackGetCountDownData_def Let_def simp del: upt_Suc
        dest!: kernel_fill_countdown kernel_fill_countdowns split: bind_splits prod.splits if_splits)
    then show ?thesis using well_formed_kernel [OF s(1)] answer_dests(1) d by blast
  qed
qed

lemma well_formed_server_handlers:
  assumes d: "well_formed d"
  shows "localGetServerAddr E b d = Some d' \<Longrightarrow> well_formed d'"
    "rebackGetServerAddr b d = Some d' \<Longrightarrow> well_formed d'"
    "localRequstConnectServer E b d = Some d' \<Longrightarrow> well_formed d'"
    "rebackRequstConnectServer E b d = Some d' \<Longrightarrow> well_formed d'"
    "getUtcTimeByMessage E d = Some d' \<Longrightarrow> well_formed d'"
proof -
  show "localGetServerAddr E b d = Some d' \<Longrightarrow> well_formed d'"
    using d by (auto simp: localGetServerAddr_def dest!: answer_dests(2))
  show "rebackGetServerAddr b d = Some d' \<Longrightarrow> well_formed d'"
    using well_formed_server_keys(3) [OF d]
    by (auto simp: rebackGetServerAddr_def dest!: answer_dests(3) split: bind_splits)
  have del: "well_formed e'" if "lum_delAllTcpWhileReconnServer d = Some e'" for e'
    using well_formed_kernel [OF kernel_sending(1) [OF that]] d by simp
  show "localRequstConnectServer E b d = Some d' \<Longrightarrow> well_formed d'"
    by (auto simp: localRequstConnectServer_def dest!: del answer_dests(2) split: bind_splits)
  have key: "well_formed (setServerAesKey k d)" if "body_bytes b 2 AES_KEY_LEN = Some k" for k
    using well_formed_server_keys(1) [OF d] that length_rds by (auto simp: body_bytes_def split: bind_splits)
  show "rebackRequstConnectServer E b d = Some d' \<Longrightarrow> well_formed d'"
    by (auto simp: rebackRequstConnectServer_def dest!: key answer_dests(3,6) split: bind_splits)
  show "well_formed d'" if "getUtcTimeByMessage E d = Some d'"
    using well_formed_kernel [OF kernel_date(3) [OF that]] d by simp
qed

lemmas well_formed_handlers = well_formed_identity_handlers well_formed_relay_handlers
  well_formed_alarm_handlers well_formed_countdown_handlers well_formed_server_handlers

lemma if_SomeE:
  "(if c then x else y) = Some z \<Longrightarrow> (c \<Longrightarrow> x = Some z \<Longrightarrow> P) \<Longrightarrow> (\<not> c \<Longrightarrow> y = Some z \<Longrightarrow> P) \<Longrightarrow> P"
  by (simp split: if_splits)

lemma well_formed_dispatch:
  assumes "flash_fits E" "well_formed d" "dispatch E b d = Some d'"
  shows "well_formed d'"
proof -
  have some: "Some e = Some d' \<Longrightarrow> well_formed e \<Longrightarrow> well_formed d'" for e by simp
  have "well_formed (LocalGetDeviceUpgrade d)"
    using assms(2) by (simp add: LocalGetDeviceUpgrade_def resetForUpgrade_def)
  note local = this assms(2) well_formed_reset(1) [OF assms(1)]
  from assms(3) show ?thesis unfolding dispatch_def Let_def
    by (elim if_SomeE) (erule well_formed_handlers [OF assms(2)] | erule some, rule local)+
qed

section \<open>The steps of the running firmware\<close>

text \<open>
  What can happen next: a round or the start of a thread, the expiry of a timer, an edge on the
  key's pin, an event of the network.  A fault (\<open>None\<close>) has no next state.  The relation lets every
  thread and every timer run at any time, which covers all schedules of the operating system that
  do not interrupt a round.
\<close>

inductive system_step :: "sdk \<Rightarrow> device \<Rightarrow> device \<Rightarrow> bool" for E where
  message_start: "system_step E d (deviceMessageThread_start d)"
| message_round: "deviceMessageThread_step E d = Some d' \<Longrightarrow> system_step E d d'"
| local_start: "deviceLocalUdpThread_start E (initUdpSockrtMutex d) = Some (b, d') \<Longrightarrow> system_step E d d'"
| local_round: "deviceLocalUdpThread_step E d = Some d' \<Longrightarrow> system_step E d d'"
| server_start: "system_step E d (deviceServerTcpThread_start d)"
| server_round: "deviceServerTcpThread_step E d = Some d' \<Longrightarrow> system_step E d d'"
| network: "systemEventCallback E ev d = Some d' \<Longrightarrow> system_step E d d'"
| heart_beat: "heartBeatTimerCallback E d = Some d' \<Longrightarrow> system_step E d d'"
| heart_beat_timeout: "heartBeatTimeoutTimerCallback E d = Some d' \<Longrightarrow> system_step E d d'"
| reset_timeout: "lum_factoryReseTimerCallback E d = Some d' \<Longrightarrow> system_step E d d'"
| minute: "lum_checkTimerCallback E d = Some d' \<Longrightarrow> system_step E d d'"
| clock: "getUtcTimerCallback E d = Some d' \<Longrightarrow> system_step E d d'"
| wifi_led: "system_step E d (wifiLedTimerCallback E d)"
| key_edge: "system_step E d (deviceKeyPressIrq E d)"
| key_debounced: "irqDebounceTimerCallback E d = Some d' \<Longrightarrow> system_step E d d'"
| key_held: "system_step E d (deviceKeyTimerCallback E d)"

inductive_cases system_stepE: "system_step E d d'"

lemma well_formed_message_round:
  assumes E: "flash_fits E" and d: "well_formed d" and run: "deviceMessageThread_step E d = Some d'"
  shows "well_formed d'"
proof -
  obtain d1 r d2 where s: "handle_first_message E (call Watchdog_reset d) = Some d1"
    "sendSocketData E (getTcpSocketFd d1) (getUdpSocketFd d1) d1 = Some (r, d2)"
    "d' = (if firstNodePtr (msgList d2) = None then call (Msleep 50) d2 else d2)"
    using run by (auto simp: deviceMessageThread_step_def split: bind_splits)
  have d1: "well_formed d1"
  proof (cases "firstNodePtr (msgList (call Watchdog_reset d))")
    case None
    then show ?thesis using s(1) d by (auto simp: handle_first_message_def)
  next
    case (Some cur)
    then obtain b e1 x where "dispatch E b (call Watchdog_reset d) = Some e1"
      "deleteListNode (Some cur) e1 = Some (x, d1)"
      using s(1) by (auto simp: handle_first_message_def split: bind_splits)
    then show ?thesis
      using well_formed_dispatch [OF E, of "call Watchdog_reset d" b e1] d
        well_formed_kernel [OF kernel_lists(2)] by auto
  qed
  show ?thesis
    using s(3) d1 well_formed_kernel [OF kernel_sendSocketData [OF s(2)]] by simp
qed

lemma well_formed_receiving_rounds:
  assumes d: "well_formed d"
  shows "deviceLocalUdpThread_step E d = Some d' \<Longrightarrow> well_formed d'"
    "deviceServerTcpThread_step E d = Some d' \<Longrightarrow> well_formed d'"
proof -
  have select: "well_formed e'" if "socketSelectRead E fd n e = (s, e')" "well_formed e" for fd n s e e'
    using that by (auto simp: socketSelectRead_def)
  have msg: "well_formed e'" if "insertSocketMsgToList E org buf cnt ip e = Some (b, e')" "well_formed e"
    for org buf cnt ip e b e'
    using well_formed_kernel [OF kernel_receive(1) [OF that(1)]] that(2) by simp
  have udp: "well_formed e'" if "recvUdpData E e = Some (u, e')" "well_formed e" for u e e'
    using well_formed_kernel [OF kernel_receive(4) [OF that(1)]] that(2) by simp
  show "deviceLocalUdpThread_step E d = Some d' \<Longrightarrow> well_formed d'"
    using d by (auto simp: deviceLocalUdpThread_step_def Let_def dest!: msg udp intro: select
        split: if_splits bind_splits prod.splits)
  have recv: "well_formed e'" if "recvTcpData E e = Some (u, e')" "well_formed e" for u e e'
    using well_formed_events(2) [OF that(2,1)] .
  show "deviceServerTcpThread_step E d = Some d' \<Longrightarrow> well_formed d'"
    using d by (auto simp: deviceServerTcpThread_step_def Let_def
        intro: select dest!: msg recv well_formed_checkTcpConnStatus
        split: if_splits bind_splits prod.splits option.splits)
qed

lemma well_formed_starts:
  assumes d: "well_formed d"
  shows "well_formed (deviceMessageThread_start d)" "well_formed (deviceServerTcpThread_start d)"
    "deviceLocalUdpThread_start E (initUdpSockrtMutex d) = Some (b, d') \<Longrightarrow> well_formed d'"
proof -
  have frame: "well_formed (e\<lparr>msgList := l\<rparr>) = well_formed e" "well_formed (e\<lparr>udpSocketFd := fd\<rparr>) = well_formed e"
    for e l fd by (rule well_formed_kernel, simp add: kernel_frame)+
  show "well_formed (deviceMessageThread_start d)" "well_formed (deviceServerTcpThread_start d)"
    using d by (simp_all add: deviceMessageThread_start_def messageListInit_def frame
      deviceServerTcpThread_start_def initTcpSockrtMutex_def)
  have sock: "well_formed e'" if "open_socket E e = Some (fd, e')" "well_formed e" for e fd e'
    using kernel_open_socket [OF that(1)] well_formed_kernel [of e' e] that(2) by simp
  show "deviceLocalUdpThread_start E (initUdpSockrtMutex d) = Some (b, d') \<Longrightarrow> well_formed d'"
    using d by (auto simp: deviceLocalUdpThread_start_def initUdpSockrtMutex_def udpSocketInit_def frame
      dest!: sock split: if_splits bind_splits)
qed

lemma well_formed_step:
  assumes "flash_fits E" "system_step E d d'" "well_formed d"
  shows "well_formed d'"
  using assms(2)
proof cases
  case message_round
  then show ?thesis by (rule well_formed_message_round [OF assms(1,3)])
next
  case minute
  then show ?thesis by (rule well_formed_minute [OF _ assms(3)])
next
  case network
  then show ?thesis by (rule well_formed_events(3) [OF assms(3)])
next
  case heart_beat_timeout
  then show ?thesis by (rule well_formed_events(1) [OF assms(3)])
qed (use assms(3) well_formed_starts [OF assms(3)] well_formed_receiving_rounds [OF assms(3)]
    well_formed_reset(3) [OF assms(1,3)] well_formed_kernel [OF kernel_callbacks(2)]
    well_formed_kernel [OF kernel_callbacks(5)] well_formed_kernel [OF kernel_callbacks(6)]
    well_formed_kernel [OF kernel_callbacks(7)] in simp_all)

section \<open>The start\<close>

lemma mac_bytes_length: "mac_bytes n s = Some m \<Longrightarrow> length m = n"
  by (induction n s arbitrary: m rule: mac_bytes.induct) auto

lemma well_formed_itoParaInit:
  assumes run: "itoParaInit E b d = Some d'" and d: "well_formed d"
  shows "well_formed d'"
proof -
  have at: "well_formed (snd (at_command E s e)) = well_formed e" for s e
    by (simp add: at_command_def Let_def)
  have ntp: "well_formed e'" if "closeNtpMode E e = Some e'" "well_formed e" for e e'
    using that by (auto simp: closeNtpMode_def at_command_def Let_def split: if_splits)
  have store: "well_formed (upd_global (\<lambda>g. g\<lparr>macAddr := m\<rparr>) e)"
    if "length m = DEVICE_MAC_LEN" "well_formed e" for m e
    using that by (simp add: well_formed_def upd_global_def keys_ok_def connection_ok_def getDeviceConnectInfo_def)
  have mac: "well_formed e'" if "readDeviceMacAddr E e = Some (x, e')" "well_formed e" for x e e'
    using that by (auto simp: readDeviceMacAddr_def at_command_def Let_def intro!: store dest: mac_bytes_length
      split: if_splits)
  have key: "well_formed (CreateLocalAesKey e)" if "well_formed e" for e
    using that by (simp add: well_formed_def CreateLocalAesKey_def upd_global_def keys_ok_def
      connection_ok_def getDeviceConnectInfo_def DEFAULT_AES_KEY_def ascii_def)
  have frame: "well_formed (sendListInit e) = well_formed e" "well_formed (lum_initTimer E p e) = well_formed e"
    "well_formed (lum_initSystemTime E e) = well_formed e" "well_formed (e\<lparr>udpLogSocketFd := fd\<rparr>) = well_formed e"
    for e p fd
    by (rule well_formed_kernel, simp add: kernel_frame sendListInit_def lum_initSystemTime_def Let_def)+
  have sock: "well_formed e'" if "open_socket E e = Some (fd, e')" "well_formed e" for e fd e'
    using kernel_open_socket [OF that(1)] well_formed_kernel [of e' e] that(2) by simp
  show ?thesis using run d
    by (auto simp: itoParaInit_def setDebuglevel_def lum_createUdpLogSocket_def frame
      intro!: key dest!: ntp mac sock split: bind_splits)
qed

lemma well_formed_start:
  assumes E: "flash_fits E" and run: "lumitekITOMain E d = Some d'"
  shows "well_formed d'"
proof -
  obtain t d1 where c: "checkResetType E d = (t, d1)" by fastforce
  have d1: "well_formed d1" using well_formed_reset(2) [OF E, of d] by (simp add: c)
  have flag: "well_formed (lum_setFactorySmartlink b d1)" for b
    unfolding lum_setFactorySmartlink_def well_formed_save
    by (rule well_formed_config [OF d1]) (use d1 in \<open>auto simp: well_formed_def config_shape_def\<close>)
  have sta: "well_formed e'" if "bRuningStaMode E e = Some (x, e')" "well_formed e" for x e e'
    using that by (auto simp: bRuningStaMode_def at_command_def Let_def split: if_splits)
  show ?thesis using run d1 flag
    by (auto simp: lumitekITOMain_def c Let_def enterUpgradeThread_def sendSmartLinkCmd_def at_command_def
      dest!: well_formed_itoParaInit sta split: if_splits bind_splits)
qed

section \<open>Properties\<close>

text \<open>
  Property C1: in every state the running firmware can reach from its start, whatever the network,
  the key and the timers do, the saved configuration has the sizes its arrays were declared with,
  both AES keys have 16 bytes and the MAC address 6, and a device that counts as connected to its
  server got the server's address, was connected to the balance server before and has an open
  socket.
\<close>

theorem reachable_well_formed:
  "flash_fits E \<Longrightarrow> lumitekITOMain E d = Some d0 \<Longrightarrow> (system_step E)\<^sup>*\<^sup>* d0 d' \<Longrightarrow>
   config_shape (deviceConfigData d')
   \<and> length (localKey (keyData (globalData d'))) = AES_KEY_LEN
   \<and> length (serverKey (keyData (globalData d'))) = AES_KEY_LEN
   \<and> length (macAddr (globalData d')) = DEVICE_MAC_LEN
   \<and> (getDeviceConnectInfo SERVER_CONN_BIT d' \<longrightarrow>
        getDeviceConnectInfo BALANCE_CONN_BIT d' \<and> getDeviceConnectInfo SERVER_ADDR_BIT d')
   \<and> (getDeviceConnectInfo BALANCE_CONN_BIT d' \<longrightarrow> tcpSocketFd d' \<ge> 0)"
proof -
  assume E: "flash_fits E" and start: "lumitekITOMain E d = Some d0"
    and run: "(system_step E)\<^sup>*\<^sup>* d0 d'"
  from run have "well_formed d'"
    by (induction rule: rtranclp_induct) (use well_formed_start [OF E start] well_formed_step [OF E] in blast)+
  then show ?thesis by (simp add: well_formed_def keys_ok_def connection_ok_def)
qed

text \<open>A module with a saved configuration whose balance server answers.\<close>

definition online_sdk :: sdk where
  "online_sdk = plain_sdk\<lparr>hffile_userbin_read := (\<lambda>_. zero_config\<lparr>lumitekFlag := LUMITEK_SW_FLAG\<rparr>),
     hfnet_gethostbyname := (\<lambda>_ _. Some 0x0100007F), c_connect := (\<lambda>_ _. True)\<rparr>"

lemma online_start:
  "\<exists>d. lumitekITOMain online_sdk power_on = Some d \<and> connInfo (globalData d) = connInfo zero_global
     \<and> msgList d = msgList power_on \<and> tcpSocketFd d = -1"
  by (simp add: lumitekITOMain_def checkResetType_def globalConfigDataInit_def itoParaInit_def Let_def
    lum_getFactorySmartlink_def closeNtpMode_def readDeviceMacAddr_def at_command_def lum_createUdpLogSocket_def
    bRuningStaMode_def sendListInit_def CreateLocalAesKey_def lum_initTimer_def lum_initSystemTime_def
    createGetUtcTimer_def restart_timer_def setDebuglevel_def
    open_socket.simps online_sdk_def plain_sdk_def zero_config_def zero_global_def power_on_def)

lemma online_dhcp:
  assumes "connInfo (globalData d) = connInfo zero_global" "msgList d = msgList power_on"
  shows "\<exists>d'. systemEventCallback online_sdk (HFE_DHCP_OK 1) d = Some d' \<and> msgList d' = msgList power_on
     \<and> getDeviceConnectInfo DHPC_OK_BIT d' \<and> \<not> getDeviceConnectInfo BALANCE_CONN_BIT d'
     \<and> \<not> getDeviceConnectInfo SERVER_CONN_BIT d' \<and> tcpSocketFd d' = tcpSocketFd d"
  using assms
  by (simp add: systemEventCallback_def setFlagAfterDhcp_def getDeviceConnectInfo_def setDeviceConnectInfo_def
    setDeviceIpAddress_def getIpAddrFromModual_def at_command_def setWifiLedStatus_def changeWifiLedStatus_def
    restart_timer_def Let_def online_sdk_def plain_sdk_def zero_global_def)

lemma online_balance:
  assumes "msgList d = msgList power_on" "getDeviceConnectInfo DHPC_OK_BIT d" "tcpSocketFd d = -1"
    "\<not> getDeviceConnectInfo BALANCE_CONN_BIT d" "\<not> getDeviceConnectInfo SERVER_CONN_BIT d"
  shows "\<exists>d'. deviceServerTcpThread_step online_sdk d = Some d' \<and> getDeviceConnectInfo BALANCE_CONN_BIT d'"
  using assms
  by (simp add: deviceServerTcpThread_step_def checkTcpConnStatus_def tcpSocketInit_def createSocketFd_def
    setSocketOption_def open_socket.simps getBalanceServerAddr_def connectServerSocket_def
    insertLocalMsgToList_def mallocSocketData_def enqueue_msg_def put_msg_node_def insertListNode_def
    link_msg_node_def new_node_def set_next_def socketSelectRead_def getDeviceConnectInfo_def setDeviceConnectInfo_def
    Let_def online_sdk_def plain_sdk_def power_on_def)

theorem reachable_well_formed_witness:
  "\<exists>d d'. lumitekITOMain online_sdk power_on = Some d \<and> (system_step online_sdk)\<^sup>*\<^sup>* d d'
     \<and> getDeviceConnectInfo BALANCE_CONN_BIT d' \<and> tcpSocketFd d' \<ge> 0"
proof -
  obtain d0 where d0: "lumitekITOMain online_sdk power_on = Some d0" "connInfo (globalData d0) = connInfo zero_global"
    "msgList d0 = msgList power_on" "tcpSocketFd d0 = -1" using online_start by blast
  obtain d1 where d1: "systemEventCallback online_sdk (HFE_DHCP_OK 1) d0 = Some d1" "msgList d1 = msgList power_on"
    "getDeviceConnectInfo DHPC_OK_BIT d1" "\<not> getDeviceConnectInfo BALANCE_CONN_BIT d1"
    "\<not> getDeviceConnectInfo SERVER_CONN_BIT d1" "tcpSocketFd d1 = -1"
    using online_dhcp [OF d0(2,3)] d0(4) by auto
  obtain d2 where d2: "deviceServerTcpThread_step online_sdk d1 = Some d2" "getDeviceConnectInfo BALANCE_CONN_BIT d2"
    using online_balance [OF d1(2,3,6,4,5)] by blast
  have run: "(system_step online_sdk)\<^sup>*\<^sup>* d0 d2"
    using system_step.network [OF d1(1)] system_step.server_round [OF d2(1)] by (meson rtranclp.simps)
  have "flash_fits online_sdk"
    by (simp add: flash_fits_def online_sdk_def config_shape_def zero_config_def)
  from reachable_well_formed [OF this d0(1) run] show ?thesis using d0(1) run d2(2) by blast
qed

end
