(* ===== verification/Sx1208.thy ===== *)
theory Sx1208
  imports Message_Properties
begin

text \<open>
  The 433 MHz radio SX1208 of the gateway (\<open>lum_sx1208.c\<close>, product \<open>P5_Config.h\<close>; like the power
  meter not part of the product of the other theories, with a record of its own).  The gateway
  learns the signal of a remote control by sampling a pin, hands it to the app, and replays it on
  request.
\<close>

abbreviation (input) "RF_SLEEP \<equiv> 0x00"
abbreviation (input) "RF_STANDBY \<equiv> 0x04"
abbreviation (input) "RF_SYNTHESIZER \<equiv> 0x08"
abbreviation (input) "RF_TRANSMITTER \<equiv> 0x0C"
abbreviation (input) "RF_RECEIVER \<equiv> 0x10"
abbreviation (input) "MODE_CHANGED \<equiv> 0x00"
abbreviation (input) "MODE_NOCHANGED \<equiv> 0xFF"
abbreviation (input) "REG_OPMODE \<equiv> 0x01"
abbreviation (input) "REG_FRFMSB \<equiv> 0x07"
abbreviation (input) "REG_FRFMID \<equiv> 0x08"
abbreviation (input) "REG_FRFLSB \<equiv> 0x09"
abbreviation (input) "REG_OOKFIX \<equiv> 0x1D"
abbreviation (input) "REG_RSSICONFIG \<equiv> 0x23"
abbreviation (input) "REG_RSSIVALUE \<equiv> 0x24"
abbreviation (input) "REG_IRQFLAGS1 \<equiv> 0x27"
abbreviation (input) "REG_SYNCVALUE5 \<equiv> 0x33"
abbreviation (input) "REG_OPMODE_PRESET \<equiv> 0x00"
abbreviation (input) "RF_IRQFLAGS1_MODEREADY \<equiv> 0x80"
abbreviation (input) "RF_IRQFLAGS1_TXREADY \<equiv> 0x20"
abbreviation (input) "SPI_TEST_DATA \<equiv> 0x55"
abbreviation (input) "MIN_WAVE_GAP_TIME \<equiv> 240"
abbreviation (input) "MAX_WAVE_DATA_COUNT \<equiv> 200"
abbreviation (input) "MAX_WAVE_RESEND_COUNT \<equiv> 5"
abbreviation (input) "MAX_SEARCH_FREQ_TIMER_GAP \<equiv> 1000"
abbreviation (input) "MIN_SEARCH_FREQ_WAIT_TIME \<equiv> 15"
abbreviation (input) "MAX_SEARCH_FREQ_WAIT_TIME \<equiv> 35"
abbreviation (input) "MIN_SEARCH_FREQUENT \<equiv> 433000000"
abbreviation (input) "MAX_SEARCH_FREQUENT \<equiv> 435000000"
abbreviation (input) "MIN_SEARCH_FREQ_GAP \<equiv> 20000"
abbreviation (input) "MAX_SEARCH_FREQ_GAP \<equiv> 100000"
abbreviation (input) "MAX_READ_RSSI_COUNT \<equiv> 50"
abbreviation (input) "MIN_SEARCH_FREQ_RSSI \<equiv> 0x80"
abbreviation (input) "MAX_STUDY_TIME_WAIT \<equiv> 20000"
abbreviation (input) "MAX_SEND_WAVE_TIME_DELAY \<equiv> 15000"
abbreviation (input) "MSX_DELAY_STUDY_IRQ_COME \<equiv> 5000"
abbreviation (input) "SIZEOF_ORIGIN_WAVE_DATA \<equiv> 208"
abbreviation (input) "MSG_CMD_433M_STUDY_KEY \<equiv> 0x10"
abbreviation (input) "MSG_CMD_433M_CONTROL_KEY \<equiv> 0x11"
abbreviation (input) "MSG_CMD_433M_REPLY_STUDY_STATUS \<equiv> 0xFF05"

section \<open>State\<close>

record origin_wave_data =
  waveCount :: u8
  firstHighlevel :: u8
  wave_reserved :: "u8 list"
  waveFreq :: u32
  waveData :: "u8 list"

datatype chip_status = SX1208_IDLE | SX1208_SEARCHING | SX1208_SEARCH_AGAIN | SX1208_STUDYING | SX1208_SENDING

record search_freq_info =
  foundIrq :: u8
  maxRssi :: u8
  search_timeout :: u32
  curFreq :: u32
  bestFreq :: u32
  chipStatus :: chip_status

text \<open>The field \<open>pWaveData\<close> is NULL or points to \<open>g_studyWaveData\<close>.\<close>

record study_socket_save_data =
  keyID :: u16
  save_snIndex :: u16
  save_ipAddr :: u32
  save_msgOrigin :: msg_origin
  pWaveData :: bool

datatype radio_call =
    Spi_init | Spi_write "u8 list" | Spi_read u8
  | Reset_pin bool | Sdo2_low | Wifi_led bool | Sdo2_irq bool | Sdo2_configure
  | Line bool | Sample | Delay_15us nat | Irqs_off | Irqs_on
  | Radio_sleep nat | Radio_time
  | Study_timer_create nat | Study_timer_period nat

record radio =
  g_pWaveDataInfo :: bool
  g_searchFreqData :: search_freq_info
  g_socketSaveData :: study_socket_save_data
  g_studyWaveData :: origin_wave_data
  pre_mode :: u8
  g_bLastFound :: bool
  g_sendCount :: u8
  g_433StudyTimer :: bool
  rtrace :: "radio_call list"

text \<open>What the chip, the pin and the clock answer.\<close>

record radio_sdk =
  spi_data :: "radio_call list \<Rightarrow> u8 \<Rightarrow> u8"
  pin_c :: "radio_call list \<Rightarrow> bool"
  radio_time :: "radio_call list \<Rightarrow> u32"
  sdo2_configured :: "radio_call list \<Rightarrow> bool"

definition rcall :: "radio_call \<Rightarrow> radio \<Rightarrow> radio" where
  "rcall c r = r\<lparr>rtrace := c # rtrace r\<rparr>"

definition upd_search :: "(search_freq_info \<Rightarrow> search_freq_info) \<Rightarrow> radio \<Rightarrow> radio" where
  "upd_search f r = r\<lparr>g_searchFreqData := f (g_searchFreqData r)\<rparr>"

definition zero_search :: search_freq_info where
  "zero_search = \<lparr>foundIrq = 0, maxRssi = 0, search_timeout = 0, curFreq = 0, bestFreq = 0,
     chipStatus = SX1208_IDLE\<rparr>"

definition zero_wave :: origin_wave_data where
  "zero_wave = \<lparr>waveCount = 0, firstHighlevel = 0, wave_reserved = [0, 0], waveFreq = 0,
     waveData = replicate MAX_WAVE_DATA_COUNT 0\<rparr>"

definition radio_power_on :: radio where
  "radio_power_on = \<lparr>g_pWaveDataInfo = False, g_searchFreqData = zero_search,
     g_socketSaveData = \<lparr>keyID = 0, save_snIndex = 0, save_ipAddr = 0, save_msgOrigin = MSG_LOCAL_EVENT,
       pWaveData = False\<rparr>,
     g_studyWaveData = zero_wave, pre_mode = RF_STANDBY, g_bLastFound = False, g_sendCount = 0,
     g_433StudyTimer = False, rtrace = []\<rparr>"

section \<open>The chip\<close>

definition RegistersCfg :: "(u8 \<times> u8) list" where
  "RegistersCfg = [
     (0x01, 0x04), (0x02, 0x69), (0x03, 0x0D), (0x04, 0x05), (0x05, 0x01), (0x06, 0x37), (0x07, 0x6C),
     (0x08, 0x79), (0x09, 0x9A), (0x0A, 0x41), (0x0B, 0x00), (0x0C, 0x02), (0x0D, 0x92), (0x0E, 0xF5),
     (0x0F, 0x20), (0x11, 0x9F), (0x12, 0x09), (0x13, 0x1B), (0x14, 0x40), (0x15, 0xB0), (0x16, 0x7B),
     (0x17, 0x9B), (0x18, 0x89), (0x19, 0x42), (0x1A, 0x91), (0x1B, 0x3F), (0x1C, 0x00), (0x1D, 0x50),
     (0x1E, 0x10), (0x25, 0x00), (0x26, 0x07), (0x29, 0xE8), (0x2A, 0x00), (0x2B, 0x00), (0x2C, 0x00),
     (0x2D, 0x04), (0x2E, 0x9A), (0x2F, 0xD3), (0x30, 0x91), (0x31, 0xD3), (0x32, 0x91), (0x33, 0x00),
     (0x34, 0x00), (0x35, 0x00), (0x36, 0x00), (0x37, 0x90), (0x38, 66), (0x39, 0x00), (0x3A, 0x00),
     (0x3B, 0x00), (0x3C, 0xC2), (0x3D, 0x02), (0x3E, 0x00), (0x3F, 0x00), (0x40, 0x00), (0x41, 0x00),
     (0x42, 0x00), (0x43, 0x00), (0x44, 0x00), (0x45, 0x00), (0x46, 0x00), (0x47, 0x00), (0x48, 0x00),
     (0x49, 0x00), (0x4A, 0x00), (0x4B, 0x00), (0x4C, 0x00), (0x4D, 0x00), (0x58, 0x2D), (0x5A, 0x55),
     (0x5C, 0x70), (0x6F, 0x00), (0x71, 0x00)]"

definition lum_spiWriteData :: "u8 \<Rightarrow> u8 \<Rightarrow> radio \<Rightarrow> radio" where
  "lum_spiWriteData addr dat r = rcall (Spi_write [addr OR 0x80, dat]) r"

definition lum_spiReadData :: "radio_sdk \<Rightarrow> u8 \<Rightarrow> radio \<Rightarrow> u8 \<times> radio" where
  "lum_spiReadData R addr r = (spi_data R (rtrace r) (addr AND 0x7F), rcall (Spi_read (addr AND 0x7F)) r)"

definition lum_spiInit :: "radio \<Rightarrow> radio" where
  "lum_spiInit r = rcall Spi_init r"

definition lum_sx1208HwReset :: "radio \<Rightarrow> radio" where
  "lum_sx1208HwReset r = rcall (Radio_sleep 15) (rcall (Reset_pin False)
     (rcall (Radio_sleep 15) (rcall (Reset_pin True) r)))"

text \<open>The busy waits for a flag of the chip.\<close>

partial_function (option) wait_irq_flag :: "radio_sdk \<Rightarrow> u8 \<Rightarrow> radio \<Rightarrow> radio option" where
  "wait_irq_flag R flag r =
     (let (v, r1) = lum_spiReadData R REG_IRQFLAGS1 r
      in if v AND flag = 0 then wait_irq_flag R flag r1 else Some r1)"

definition lum_setRfMode :: "radio_sdk \<Rightarrow> u8 \<Rightarrow> radio \<Rightarrow> (u8 \<times> radio) option" where
  "lum_setRfMode R mode r =
     (if mode \<noteq> pre_mode r
      then let set_mode = (\<lambda>m. lum_spiWriteData REG_OPMODE ((REG_OPMODE_PRESET AND 0xE3) OR m) r);
               now = (\<lambda>m r1. (MODE_CHANGED, r1\<lparr>pre_mode := m\<rparr>))
      in if mode = RF_TRANSMITTER
         then map_option (now RF_TRANSMITTER) (wait_irq_flag R RF_IRQFLAGS1_TXREADY (set_mode RF_TRANSMITTER))
         else if mode = RF_RECEIVER then Some (now RF_RECEIVER (set_mode RF_RECEIVER))
         else if mode = RF_SYNTHESIZER
         then map_option (now RF_SYNTHESIZER) (wait_irq_flag R RF_IRQFLAGS1_MODEREADY (set_mode RF_SYNTHESIZER))
         else if mode = RF_STANDBY
         then map_option (now RF_STANDBY) (wait_irq_flag R RF_IRQFLAGS1_MODEREADY (set_mode RF_STANDBY))
         else map_option (now RF_SLEEP) (wait_irq_flag R RF_IRQFLAGS1_MODEREADY (set_mode RF_SLEEP))
      else Some (MODE_NOCHANGED, r))"

definition rf_mode :: "radio_sdk \<Rightarrow> u8 \<Rightarrow> radio \<Rightarrow> radio option" where
  "rf_mode R mode r = map_option snd (lum_setRfMode R mode r)"

definition lum_writeInitPara :: "radio \<Rightarrow> radio" where
  "lum_writeInitPara r = fold (\<lambda>(a, v). lum_spiWriteData a v) RegistersCfg r"

partial_function (option) lum_testSpi :: "radio_sdk \<Rightarrow> radio \<Rightarrow> radio option" where
  "lum_testSpi R r =
     (let (v, r1) = lum_spiReadData R REG_SYNCVALUE5
            (rcall (Radio_sleep 10) (lum_spiWriteData REG_SYNCVALUE5 SPI_TEST_DATA r))
      in if v \<noteq> SPI_TEST_DATA then lum_testSpi R (rcall (Radio_sleep 10) r1) else Some r1)"

definition lum_sx1208ChipInit :: "radio_sdk \<Rightarrow> radio \<Rightarrow> radio option" where
  "lum_sx1208ChipInit R r = do {
     r1 \<leftarrow> lum_testSpi R (lum_sx1208HwReset (rcall (Radio_sleep 100) (lum_spiInit r)));
     rf_mode R RF_SLEEP (lum_writeInitPara r1)
   }"

text \<open>
  \<open>originFreq / 61.03515625\<close> is computed in floating point; the divisor is 15625 / 256, and the
  quotient of a U32 is never close enough to an integer for rounding to change its integral part.
\<close>

definition lum_writeFrFrequent :: "u32 \<Rightarrow> radio \<Rightarrow> radio" where
  "lum_writeFrFrequent originFreq r =
     (let freq = (of_nat (unat originFreq * 256 div 15625) :: u32)
      in lum_spiWriteData REG_FRFLSB (ucast freq)
           (lum_spiWriteData REG_FRFMID (ucast (drop_bit 8 freq))
             (lum_spiWriteData REG_FRFMSB (ucast (drop_bit 16 freq)) r)))"

definition lum_changeToRecvMode :: "radio_sdk \<Rightarrow> u32 \<Rightarrow> radio \<Rightarrow> radio option" where
  "lum_changeToRecvMode R freq r = map_option (rcall (Radio_sleep 100))
     (rf_mode R RF_RECEIVER (lum_writeFrFrequent freq (lum_spiWriteData REG_OOKFIX 0x50 r)))"

definition lum_changeToSendMode :: "radio_sdk \<Rightarrow> u32 \<Rightarrow> radio \<Rightarrow> radio option" where
  "lum_changeToSendMode R freq r = map_option (rcall (Radio_sleep 100))
     (rf_mode R RF_TRANSMITTER (lum_writeFrFrequent freq r))"

definition lum_changeToSearchFreqMode :: "radio_sdk \<Rightarrow> radio \<Rightarrow> radio option" where
  "lum_changeToSearchFreqMode R r = map_option
     (\<lambda>r1. rcall (Radio_sleep 100) (lum_spiWriteData REG_OOKFIX 0x60
        (lum_spiWriteData REG_RSSICONFIG 0x01 (rcall (Radio_sleep 10) r1))))
     (rf_mode R RF_RECEIVER r)"

section \<open>Interrupts and the timer\<close>

definition lum_delay15us :: "nat \<Rightarrow> radio \<Rightarrow> radio" where
  "lum_delay15us n r = rcall (Delay_15us n) r"

definition lum_disableAllIrq :: "radio \<Rightarrow> radio" where
  "lum_disableAllIrq r = rcall Irqs_off r"

definition lum_enableAllIrq :: "radio \<Rightarrow> radio" where
  "lum_enableAllIrq r = rcall Irqs_on r"

definition lum_setSdo2InteruptStatus :: "bool \<Rightarrow> radio \<Rightarrow> radio" where
  "lum_setSdo2InteruptStatus enableIrq r = rcall (Sdo2_irq enableIrq) r"

definition lum_initSdo2Interupt :: "radio_sdk \<Rightarrow> radio \<Rightarrow> radio" where
  "lum_initSdo2Interupt R r =
     (if sdo2_configured R (rtrace r) then lum_setSdo2InteruptStatus False (rcall Sdo2_configure r)
      else rcall Sdo2_configure r)"

definition lum_start433StudyTimer :: "nat \<Rightarrow> radio \<Rightarrow> radio" where
  "lum_start433StudyTimer timerGap r = rcall (Study_timer_period timerGap)
     (if \<not> g_433StudyTimer r then (rcall (Study_timer_create timerGap) r)\<lparr>g_433StudyTimer := True\<rparr> else r)"

definition set_chip :: "chip_status \<Rightarrow> radio \<Rightarrow> radio" where
  "set_chip st = upd_search (\<lambda>s. s\<lparr>chipStatus := st\<rparr>)"

definition lum_sdo2IrqCallback :: "radio \<Rightarrow> radio" where
  "lum_sdo2IrqCallback r =
     (case chipStatus (g_searchFreqData r) of
        SX1208_STUDYING \<Rightarrow> lum_start433StudyTimer MSX_DELAY_STUDY_IRQ_COME r
      | SX1208_SEARCHING \<Rightarrow> upd_search (\<lambda>s. s\<lparr>chipStatus := SX1208_SEARCH_AGAIN, curFreq := MIN_SEARCH_FREQUENT\<rparr>) r
      | SX1208_SEARCH_AGAIN \<Rightarrow> upd_search (\<lambda>s. s\<lparr>foundIrq := 1\<rparr>) r
      | _ \<Rightarrow> r)"

section \<open>Searching the frequency\<close>

text \<open>
  No command of the present code enters this mode (\<open>radio_never_searches\<close> below); it is modelled
  because the timer callback can still call it.
\<close>

definition lum_searchNextFreq :: "radio_sdk \<Rightarrow> radio \<Rightarrow> radio option" where
  "lum_searchNextFreq R r = do {
     let r1 = lum_setSdo2InteruptStatus False r;
     let r2 = (if curFreq (g_searchFreqData r1) = MIN_SEARCH_FREQUENT then upd_search (\<lambda>s. s\<lparr>foundIrq := 0\<rparr>) r1 else r1);
     r3 \<leftarrow> rf_mode R RF_STANDBY r2;
     let r4 = lum_start433StudyTimer MAX_SEARCH_FREQ_TIMER_GAP (lum_writeFrFrequent (curFreq (g_searchFreqData r3)) r3);
     r5 \<leftarrow> rf_mode R RF_RECEIVER r4;
     Some (if foundIrq (g_searchFreqData r5) = 0
           then lum_setSdo2InteruptStatus True (rcall (Radio_sleep 2) r5) else r5)
   }"

partial_function (option) search_loop ::
    "radio_sdk \<Rightarrow> u32 \<Rightarrow> u32 \<Rightarrow> u32 \<Rightarrow> u32 \<Rightarrow> radio \<Rightarrow> (u32 \<times> u32 \<times> radio) option" where
  "search_loop R beginTime waitTime readCount totalRssi r =
     (let r1 = rcall Sample r
      in if pin_c R (rtrace r)
         then let (rssiData, r2) = lum_spiReadData R REG_RSSIVALUE r1
           in if rssiData \<noteq> 0x80
              then let n = readCount + 1; sum = totalRssi + ucast rssiData
                in if n \<ge> MAX_READ_RSSI_COUNT
                   then let avg = sum div n; r3 = rcall Radio_time r2
                     in if avg > ucast (maxRssi (g_searchFreqData r2))
                        then if g_bLastFound r2
                          then Some (n, avg, upd_search (\<lambda>s. s\<lparr>maxRssi := ucast avg, bestFreq := curFreq s\<rparr>) r3)
                          else Some (n, 0, r3\<lparr>g_bLastFound := True\<rparr>)
                        else Some (n, avg, r3)
                   else search_loop R beginTime MAX_SEARCH_FREQ_WAIT_TIME n sum r2
              else search_loop R beginTime MAX_SEARCH_FREQ_WAIT_TIME readCount totalRssi r2
         else let curTime = radio_time R (rtrace r1); r2 = rcall Radio_time r1;
                  begin' = (if curTime < beginTime then 0 else beginTime)
           in if curTime - begin' > waitTime then Some (readCount, 0, r2\<lparr>g_bLastFound := False\<rparr>)
              else search_loop R begin' waitTime readCount totalRssi r2)"

definition lum_enterStudyMode :: "radio_sdk \<Rightarrow> u32 \<Rightarrow> radio \<Rightarrow> radio option" where
  "lum_enterStudyMode R freq r = map_option (lum_setSdo2InteruptStatus True)
     (lum_changeToRecvMode R freq (set_chip SX1208_STUDYING r))"

definition lum_sendReplyStudyMessage :: "sdk \<Rightarrow> device \<times> radio \<Rightarrow> (device \<times> radio) option" where
  "lum_sendReplyStudyMessage E s = map_option (\<lambda>(_, d). (d, rcall (Wifi_led True) (snd s)))
     (insertLocalMsgToList E MSG_LOCAL_EVENT None 0 MSG_CMD_433M_REPLY_STUDY_STATUS (fst s))"

definition lum_searchFreqCallback :: "sdk \<Rightarrow> radio_sdk \<Rightarrow> device \<times> radio \<Rightarrow> (device \<times> radio) option" where
  "lum_searchFreqCallback E R s = do {
     let (d, r) = s;
     (readCount, r1) \<leftarrow>
       (if foundIrq (g_searchFreqData r) \<noteq> 0
        then let r0 = lum_setSdo2InteruptStatus False r
          in map_option (\<lambda>(n, _, r'). (n, r'))
               (search_loop R (radio_time R (rtrace r0)) MIN_SEARCH_FREQ_WAIT_TIME 0 0 (rcall Radio_time r0))
        else Some (0, r));
     let g = g_searchFreqData r1;
     if curFreq g < MAX_SEARCH_FREQUENT
     then let r2 = upd_search (\<lambda>s. s\<lparr>curFreq := curFreq s + (if foundIrq s \<noteq> 0 then MIN_SEARCH_FREQ_GAP
                      else MAX_SEARCH_FREQ_GAP), foundIrq := (if readCount = 0 then 0 else foundIrq s)\<rparr>) r1
       in map_option (Pair d) (lum_searchNextFreq R r2)
     else if maxRssi g < MIN_SEARCH_FREQ_RSSI
     then let curTime = radio_time R (rtrace r1); r2 = rcall Radio_time r1
       in if curTime < MAX_STUDY_TIME_WAIT \<or> curTime - search_timeout g < MAX_STUDY_TIME_WAIT
          then map_option (Pair d) (lum_searchNextFreq R (upd_search (\<lambda>s. zero_search\<lparr>chipStatus := SX1208_SEARCHING,
                 curFreq := MIN_SEARCH_FREQUENT, search_timeout := search_timeout s\<rparr>) r2))
          else do {
            r3 \<leftarrow> rf_mode R RF_SLEEP (set_chip SX1208_IDLE (lum_setSdo2InteruptStatus False r2));
            lum_sendReplyStudyMessage E (d, r3)
          }
     else map_option (Pair d) (lum_enterStudyMode R (bestFreq g) (lum_setSdo2InteruptStatus False r1))
   }"

section \<open>Learning a signal\<close>

text \<open>One more sample in the counter \<open>waveData[i]\<close>.\<close>

definition count_sample :: "nat \<Rightarrow> origin_wave_data \<Rightarrow> origin_wave_data option" where
  "count_sample i w = map_option (\<lambda>b. w\<lparr>waveData := (waveData w)[i := b + 1]\<rparr>) (rd (waveData w) i)"

definition clear_sample :: "origin_wave_data \<Rightarrow> origin_wave_data option" where
  "clear_sample w = map_option (\<lambda>b. w\<lparr>waveData := (waveData w)[0 := 0]\<rparr>) (rd (waveData w) 0)"

text \<open>
  The loop of \<open>lum_studyWaveData\<close>; its first argument is what \<open>protectCount\<close> still allows.
\<close>

primrec study_loop :: "nat \<Rightarrow> radio_sdk \<Rightarrow> bool \<Rightarrow> bool \<Rightarrow> bool \<Rightarrow> origin_wave_data \<Rightarrow> radio \<Rightarrow>
    (bool \<times> origin_wave_data \<times> radio) option" where
  "study_loop 0 R lastGpio afterFirstWave startSave w r = Some (False, w, r)"
| "study_loop (Suc n) R lastGpio afterFirstWave startSave w r =
     (let curGpio = pin_c R (rtrace r); r1 = rcall Sample r; r2 = lum_delay15us 1 r1
      in if \<not> afterFirstWave then do {
           w1 \<leftarrow> (if curGpio \<noteq> lastGpio then clear_sample w else count_sample 0 w);
           d \<leftarrow> rd (waveData w1) 0;
           if d \<ge> MIN_WAVE_GAP_TIME
           then do {
             w2 \<leftarrow> clear_sample w1;
             study_loop n R curGpio True startSave (w2\<lparr>firstHighlevel := (if curGpio then 1 else 0)\<rparr>) r2
           }
           else study_loop n R curGpio False startSave w1 r2
         }
         else if curGpio \<noteq> lastGpio
         then if \<not> startSave then study_loop n R curGpio True True w r2
           else do {
             w1 \<leftarrow> count_sample (unat (waveCount w)) w;
             let w2 = w1\<lparr>waveCount := waveCount w1 + 1\<rparr>;
             if waveCount w2 \<ge> MAX_WAVE_DATA_COUNT then Some (False, w2, r1)
             else study_loop n R curGpio True True w2 r2
           }
         else do {
           w1 \<leftarrow> (if startSave then count_sample (unat (waveCount w)) w else Some w);
           d \<leftarrow> rd (waveData w1) (unat (waveCount w1));
           if d \<ge> MIN_WAVE_GAP_TIME then Some (waveCount w1 > 20, w1, r1)
           else study_loop n R lastGpio True startSave w1 r2
         })"

definition lum_studyWaveData :: "radio_sdk \<Rightarrow> radio \<Rightarrow> (bool \<times> radio) option" where
  "lum_studyWaveData R r = map_option
     (\<lambda>(ret, w, r2). (ret, lum_enableAllIrq (r2\<lparr>g_studyWaveData := w\<rparr>)))
     (study_loop 100000 R False False False (g_studyWaveData r)
       (lum_disableAllIrq (lum_setSdo2InteruptStatus False r)))"

section \<open>Replaying a signal\<close>

primrec hold_line :: "nat \<Rightarrow> bool \<Rightarrow> radio \<Rightarrow> radio" where
  "hold_line 0 b r = r"
| "hold_line (Suc n) b r = hold_line n b (lum_delay15us 1 (rcall (Line b) r))"

text \<open>The first argument counts the remaining entries, the second is \<open>index\<close>.\<close>

primrec send_wave_loop :: "nat \<Rightarrow> nat \<Rightarrow> origin_wave_data \<Rightarrow> radio \<Rightarrow> radio option" where
  "send_wave_loop 0 i w r = Some r"
| "send_wave_loop (Suc n) i w r = do {
     count \<leftarrow> rd (waveData w) i;
     send_wave_loop n (i + 1) w (hold_line (unat count) (i mod 2 = unat (firstHighlevel w)) r)
   }"

definition lum_sendStudyWaveData :: "radio_sdk \<Rightarrow> radio \<Rightarrow> radio option" where
  "lum_sendStudyWaveData R r = do {
     let w = g_studyWaveData r;
     let r1 = (if firstHighlevel w \<noteq> 0 then lum_delay15us 300 (rcall (Line True) r) else r);
     r2 \<leftarrow> send_wave_loop (unat (waveCount w)) 0 w r1;
     let r3 = (rcall Sdo2_low r2)\<lparr>g_sendCount := g_sendCount r2 + 1\<rparr>;
     if g_sendCount r3 < MAX_WAVE_RESEND_COUNT then Some (lum_start433StudyTimer MAX_SEND_WAVE_TIME_DELAY r3)
     else map_option (set_chip SX1208_IDLE) (rf_mode R RF_SLEEP (r3\<lparr>g_sendCount := 0\<rparr>))
   }"

section \<open>Modes\<close>

definition lum_433StudyTimerCallback :: "sdk \<Rightarrow> radio_sdk \<Rightarrow> device \<times> radio \<Rightarrow> (device \<times> radio) option" where
  "lum_433StudyTimerCallback E R s =
     (let (d, r) = s
      in case chipStatus (g_searchFreqData r) of
           SX1208_SEARCHING \<Rightarrow> lum_searchFreqCallback E R s
         | SX1208_SEARCH_AGAIN \<Rightarrow> lum_searchFreqCallback E R s
         | SX1208_STUDYING \<Rightarrow>
             if \<not> g_pWaveDataInfo r then None
             else do {
               (studyStatus, r1) \<leftarrow> lum_studyWaveData R (r\<lparr>g_studyWaveData :=
                  (g_studyWaveData r)\<lparr>waveFreq := bestFreq (g_searchFreqData r)\<rparr>\<rparr>);
               let r2 = (if studyStatus then r1\<lparr>g_socketSaveData := (g_socketSaveData r1)\<lparr>pWaveData := True\<rparr>\<rparr> else r1);
               r3 \<leftarrow> rf_mode R RF_STANDBY r2;
               lum_sendReplyStudyMessage E (d, set_chip SX1208_IDLE r3)
             }
         | SX1208_SENDING \<Rightarrow> if \<not> g_pWaveDataInfo r then None else map_option (Pair d) (lum_sendStudyWaveData R r)
         | SX1208_IDLE \<Rightarrow> Some s)"

definition lum_enterSearchFreqMode :: "radio_sdk \<Rightarrow> radio \<Rightarrow> radio option" where
  "lum_enterSearchFreqMode R r =
     (let r1 = lum_initSdo2Interupt R ((rcall (Wifi_led False) r)\<lparr>g_pWaveDataInfo := True,
                 g_searchFreqData := zero_search, g_studyWaveData := zero_wave\<rparr>);
          r2 = upd_search (\<lambda>s. s\<lparr>bestFreq := 433920000\<rparr>) r1
      in lum_enterStudyMode R (bestFreq (g_searchFreqData r2)) r2)"

definition lum_enterSendMode :: "radio_sdk \<Rightarrow> radio \<Rightarrow> radio option" where
  "lum_enterSendMode R r = do {
     r1 \<leftarrow> rf_mode R RF_STANDBY r;
     r2 \<leftarrow> lum_changeToSendMode R (waveFreq (g_studyWaveData r1)) (rcall Sdo2_low (rcall (Radio_sleep 100) r1));
     Some (set_chip SX1208_SENDING (lum_start433StudyTimer MAX_SEND_WAVE_TIME_DELAY (r2\<lparr>g_pWaveDataInfo := True\<rparr>)))
   }"

definition lum_saveStudySocketData :: "study_socket_save_data \<Rightarrow> radio \<Rightarrow> radio" where
  "lum_saveStudySocketData x r = r\<lparr>g_socketSaveData := x\<rparr>"

definition lum_getStudySocketData :: "radio \<Rightarrow> study_socket_save_data" where
  "lum_getStudySocketData r = g_socketSaveData r"

definition lum_study433Wave :: "radio_sdk \<Rightarrow> radio \<Rightarrow> radio option" where
  "lum_study433Wave R r = lum_enterSearchFreqMode R r"

definition lum_send433Wave :: "radio_sdk \<Rightarrow> origin_wave_data \<Rightarrow> radio \<Rightarrow> radio option" where
  "lum_send433Wave R w r = lum_enterSendMode R (r\<lparr>g_studyWaveData := w\<rparr>)"

section \<open>Messages\<close>

text \<open>The structure as the bytes of a packet.\<close>

definition wave_bytes :: "origin_wave_data \<Rightarrow> u8 list" where
  "wave_bytes w = [waveCount w, firstHighlevel w] @ wave_reserved w @ le32 (waveFreq w) @ waveData w"

definition wave_of_bytes :: "u8 list \<Rightarrow> origin_wave_data" where
  "wave_of_bytes bs = \<lparr>waveCount = bs ! 0, firstHighlevel = bs ! 1, wave_reserved = take 2 (drop 2 bs),
     waveFreq = of_le32 (take 4 (drop 4 bs)), waveData = drop 8 bs\<rparr>"

definition lum_revc433StudyCmd :: "radio_sdk \<Rightarrow> msg_node_body \<Rightarrow> device \<times> radio \<Rightarrow> (device \<times> radio) option" where
  "lum_revc433StudyCmd R pNode s = do {
     key \<leftarrow> body_bytes pNode 1 2;
     let saveData = \<lparr>keyID = of_le16 key, save_snIndex = snIndex pNode, save_ipAddr = socketIp pNode,
                     save_msgOrigin = msgOrigin pNode, pWaveData = False\<rparr>;
     r \<leftarrow> lum_study433Wave R (lum_saveStudySocketData saveData (snd s));
     Some (fst s, r)
   }"

text \<open>The node is a local variable of which only four fields are set and used.\<close>

definition lum_send433StudyStatus :: "sdk \<Rightarrow> device \<times> radio \<Rightarrow> (device \<times> radio) option" where
  "lum_send433StudyStatus E s = do {
     let x = lum_getStudySocketData (snd s);
     let w = g_studyWaveData (snd s);
     let waveLen = waveCount w + 8;
     let head = [MSG_CMD_433M_STUDY_KEY] @ le16 (keyID x);
     body \<leftarrow> (if pWaveData x
              then do {
                bytes \<leftarrow> rds (wave_bytes w) 0 (unat waveLen);
                _ \<leftarrow> wrs (replicate (SIZEOF_ORIGIN_WAVE_DATA + 5) 0) 4 bytes;
                Some (head @ [waveLen] @ bytes)
              }
              else Some (head @ [0]));
     d \<leftarrow> reply E body \<lparr>bReback = False, cmdData = MSG_CMD_433M_STUDY_KEY, snIndex = save_snIndex x, dataLen = 0,
            pData = None, msgOrigin = save_msgOrigin x, socketIp = save_ipAddr x\<rparr> (fst s);
     Some (d, snd s)
   }"

definition lum_sendControlCmd :: "sdk \<Rightarrow> radio_sdk \<Rightarrow> msg_node_body \<Rightarrow> device \<times> radio \<Rightarrow> (device \<times> radio) option" where
  "lum_sendControlCmd E R pNode s = do {
     rfLen \<leftarrow> body_byte pNode 1;
     let waveDataError = (rfLen = 0 \<or> unat rfLen > SIZEOF_ORIGIN_WAVE_DATA);
     d \<leftarrow> reply E [MSG_CMD_433M_CONTROL_KEY, if waveDataError then REBACK_FAILD_MESSAGE else REBACK_SUCCESS_MESSAGE]
            pNode (fst s);
     if waveDataError then Some (d, snd s)
     else do {
       bytes \<leftarrow> body_bytes pNode 2 (unat rfLen);
       buf \<leftarrow> wrs (replicate SIZEOF_ORIGIN_WAVE_DATA 0) 0 bytes;
       r \<leftarrow> lum_send433Wave R (wave_of_bytes buf) (snd s);
       Some (d, r)
     }
   }"

text \<open>The radio's part of the switch in \<open>deviceMessageThread\<close>.\<close>

definition radio_dispatch :: "sdk \<Rightarrow> radio_sdk \<Rightarrow> msg_node_body \<Rightarrow> device \<times> radio \<Rightarrow> (device \<times> radio) option" where
  "radio_dispatch E R b s =
     (if cmdData b = MSG_CMD_433M_STUDY_KEY then lum_revc433StudyCmd R b s
      else if cmdData b = MSG_CMD_433M_REPLY_STUDY_STATUS then lum_send433StudyStatus E s
      else if cmdData b = MSG_CMD_433M_CONTROL_KEY then lum_sendControlCmd E R b s
      else Some s)"

section \<open>What is learned is what is replayed\<close>

text \<open>
  The pin as the loop samples it: sample \<open>i\<close> follows \<open>i\<close> samples and delays.
\<close>

fun pin_shows :: "radio_sdk \<Rightarrow> radio_call list \<Rightarrow> bool list \<Rightarrow> bool" where
  "pin_shows R tr [] = True"
| "pin_shows R tr (b # bs) = (pin_c R tr = b \<and> pin_shows R (Delay_15us 1 # Sample # tr) bs)"

text \<open>The loop as a function of the samples; \<open>None\<close> when it needs more of them.\<close>

fun study_list :: "bool list \<Rightarrow> bool \<Rightarrow> bool \<Rightarrow> bool \<Rightarrow> origin_wave_data \<Rightarrow> (bool \<times> origin_wave_data) option" where
  "study_list [] lastGpio afterFirst start w = None"
| "study_list (cur # bs) lastGpio afterFirst start w =
     (if \<not> afterFirst then do {
        w1 \<leftarrow> (if cur \<noteq> lastGpio then clear_sample w else count_sample 0 w);
        d \<leftarrow> rd (waveData w1) 0;
        if d \<ge> MIN_WAVE_GAP_TIME
        then do {
          w2 \<leftarrow> clear_sample w1;
          study_list bs cur True start (w2\<lparr>firstHighlevel := (if cur then 1 else 0)\<rparr>)
        }
        else study_list bs cur False start w1
      }
      else if cur \<noteq> lastGpio
      then if \<not> start then study_list bs cur True True w
        else do {
          w1 \<leftarrow> count_sample (unat (waveCount w)) w;
          let w2 = w1\<lparr>waveCount := waveCount w1 + 1\<rparr>;
          if waveCount w2 \<ge> MAX_WAVE_DATA_COUNT then Some (False, w2)
          else study_list bs cur True True w2
        }
      else do {
        w1 \<leftarrow> (if start then count_sample (unat (waveCount w)) w else Some w);
        d \<leftarrow> rd (waveData w1) (unat (waveCount w1));
        if d \<ge> MIN_WAVE_GAP_TIME then Some (waveCount w1 > 20, w1)
        else study_list bs lastGpio True start w1
      })"

lemma study_loop_list:
  "pin_shows R (rtrace r) bs \<Longrightarrow> length bs \<le> n \<Longrightarrow> study_list bs lastGpio afterFirst start w = Some (ret, w') \<Longrightarrow>
   \<exists>tr. study_loop n R lastGpio afterFirst start w r = Some (ret, w', r\<lparr>rtrace := tr\<rparr>)"
proof (induction bs arbitrary: n r lastGpio afterFirst start w)
  case (Cons cur bs)
  then obtain k where n: "n = Suc k" by (cases n) auto
  have r2: "rtrace (lum_delay15us 1 (rcall Sample r)) = Delay_15us 1 # Sample # rtrace r"
    "(lum_delay15us 1 (rcall Sample r))\<lparr>rtrace := tr\<rparr> = r\<lparr>rtrace := tr\<rparr>" for tr
    by (simp_all add: lum_delay15us_def rcall_def)
  have IH: "\<exists>tr. study_loop k R l a st v (lum_delay15us 1 (rcall Sample r)) = Some (ret, w', r\<lparr>rtrace := tr\<rparr>)"
    if "study_list bs l a st v = Some (ret, w')" for l a st v
    using Cons.IH [of "lum_delay15us 1 (rcall Sample r)" k l a st v] Cons.prems(1,2) that by (simp add: n r2 del: One_nat_def)
  have r1: "\<exists>tr. rcall Sample r = r\<lparr>rtrace := tr\<rparr>" by (auto simp: rcall_def)
  have cur: "pin_c R (rtrace r) = cur" using Cons.prems(1) by simp
  show ?case using Cons.prems(3)
    by (auto simp: n cur Let_def simp del: One_nat_def split: if_splits bind_splits intro: IH r1)
qed simp

text \<open>A signal of alternating levels held for the given numbers of samples.\<close>

fun signal :: "bool \<Rightarrow> nat list \<Rightarrow> bool list" where
  "signal b [] = []"
| "signal b (l # ls) = replicate l b @ signal (\<not> b) ls"

lemma unat_u8_of_nat: "n < 256 \<Longrightarrow> unat (of_nat n :: u8) = n"
  by (simp add: unat_of_nat take_bit_nat_eq_self_iff)

lemma study_gap:
  "0 < k \<Longrightarrow> c + k = 240 \<Longrightarrow> waveData w = of_nat c # ds \<Longrightarrow>
   study_list (replicate k b @ bs) b False start w
     = study_list bs b True start (w\<lparr>waveData := 0 # ds, firstHighlevel := (if b then 1 else 0)\<rparr>)"
proof (induction k arbitrary: c w)
  case (Suc k)
  have c: "(of_nat c + 1 :: u8) = of_nat (Suc c)" by simp
  have u: "unat (of_nat (Suc c) :: u8) = Suc c"
    by (rule unat_u8_of_nat) (use Suc.prems(2) in simp)
  have "(of_nat (Suc c) :: u8) \<ge> 240 \<longleftrightarrow> k = 0"
    unfolding word_le_nat_alt u using Suc.prems(2) by auto
  then show ?case
    using Suc.IH [of "Suc c" "w\<lparr>waveData := of_nat (Suc c) # ds\<rparr>"] Suc.prems
    by (cases "k = 0") (simp_all add: count_sample_def clear_sample_def c del: of_nat_Suc)
qed simp

lemma study_gap_rest:
  "waveCount w = 0 \<Longrightarrow> waveData w = 0 # ds \<Longrightarrow>
   study_list (replicate k b @ bs) b True False w = study_list bs b True False w"
  by (induction k) simp_all

text \<open>The counters after the runs \<open>done\<close>, while the next run is being counted.\<close>

definition wave_holds :: "origin_wave_data \<Rightarrow> nat list \<Rightarrow> nat \<Rightarrow> bool" where
  "wave_holds w ls c \<longleftrightarrow> length ls < MAX_WAVE_DATA_COUNT \<and> waveCount w = of_nat (length ls)
     \<and> waveData w = map of_nat ls @ of_nat c # replicate (MAX_WAVE_DATA_COUNT - 1 - length ls) 0"

lemma wave_holds_at:
  assumes "wave_holds w ls c"
  shows "unat (waveCount w) = length ls" "rd (waveData w) (length ls) = Some (of_nat c)"
    "count_sample (length ls) w = Some (w\<lparr>waveData := (waveData w)[length ls := of_nat c + 1]\<rparr>)"
    "wave_holds (w\<lparr>waveData := (waveData w)[length ls := of_nat c + 1]\<rparr>) ls (Suc c)"
proof -
  note w = assms [unfolded wave_holds_def]
  show "unat (waveCount w) = length ls" using w by (simp add: unat_u8_of_nat)
  show rd: "rd (waveData w) (length ls) = Some (of_nat c)" using w by (simp add: rd_def nth_append)
  show "count_sample (length ls) w = Some (w\<lparr>waveData := (waveData w)[length ls := of_nat c + 1]\<rparr>)"
    by (simp add: count_sample_def rd)
  show "wave_holds (w\<lparr>waveData := (waveData w)[length ls := of_nat c + 1]\<rparr>) ls (Suc c)"
    using w by (simp add: wave_holds_def list_update_append add.commute)
qed

lemma study_run:
  "wave_holds w ls c \<Longrightarrow> c + k < 240 \<Longrightarrow>
   \<exists>w'. study_list (replicate k b @ bs) b True True w = study_list bs b True True w' \<and> wave_holds w' ls (c + k)
     \<and> firstHighlevel w' = firstHighlevel w \<and> waveFreq w' = waveFreq w \<and> wave_reserved w' = wave_reserved w"
proof (induction k arbitrary: c w)
  case (Suc k)
  define w1 where "w1 = w\<lparr>waveData := (waveData w)[length ls := of_nat c + 1]\<rparr>"
  note at = wave_holds_at [OF Suc.prems(1), folded w1_def]
  have "\<not> (of_nat (Suc c) :: u8) \<ge> 240"
    using Suc.prems(2) unat_u8_of_nat [of "Suc c"] by (simp add: word_le_nat_alt del: of_nat_Suc)
  then have "study_list (replicate (Suc k) b @ bs) b True True w = study_list (replicate k b @ bs) b True True w1"
    using wave_holds_at(1,2) [OF at(4)] by (simp add: at(1,3) del: of_nat_Suc)
  moreover have "firstHighlevel w1 = firstHighlevel w" "waveFreq w1 = waveFreq w" "wave_reserved w1 = wave_reserved w"
    by (simp_all add: w1_def)
  ultimately show ?case using Suc.IH [OF at(4)] Suc.prems(2) by (metis add_Suc_shift)
qed auto

lemma study_edge:
  assumes "wave_holds w ls c" "Suc (length ls) < MAX_WAVE_DATA_COUNT" "b' = (\<not> b)"
  shows "\<exists>w'. study_list (b' # bs) b True True w = study_list bs b' True True w' \<and> wave_holds w' (ls @ [Suc c]) 0
     \<and> firstHighlevel w' = firstHighlevel w \<and> waveFreq w' = waveFreq w \<and> wave_reserved w' = wave_reserved w"
proof -
  define w1 where "w1 = w\<lparr>waveData := (waveData w)[length ls := of_nat c + 1]\<rparr>"
  define w2 where "w2 = w1\<lparr>waveCount := waveCount w1 + 1\<rparr>"
  note at = wave_holds_at [OF assms(1), folded w1_def]
  have c: "waveCount w2 = of_nat (Suc (length ls))"
    using at(4) by (simp add: w2_def wave_holds_def)
  then have c1: "waveCount w1 + 1 = of_nat (Suc (length ls))" by (simp add: w2_def)
  have "\<not> waveCount w1 + 1 \<ge> MAX_WAVE_DATA_COUNT"
    unfolding c1 word_le_nat_alt using assms(2) unat_u8_of_nat [of "Suc (length ls)"] by (simp del: of_nat_Suc)
  then have "study_list (b' # bs) b True True w = study_list bs b' True True w2"
    by (simp add: assms(3) at(1,3) w2_def)
  moreover have "199 - length ls = Suc (198 - length ls)" using assms(2) by simp
  then have "replicate (199 - length ls) (0 :: u8) = 0 # replicate (198 - length ls) 0" by (simp only: replicate_Suc)
  then have "wave_holds w2 (ls @ [Suc c]) 0"
    using at(4) assms(2) c by (simp add: wave_holds_def w2_def)
  ultimately show ?thesis by (intro exI [of _ w2]) (simp add: w2_def w1_def)
qed

declare study_list.simps(2) [simp del]

abbreviation "same_head w' w \<equiv>
  firstHighlevel w' = firstHighlevel w \<and> waveFreq w' = waveFreq w \<and> wave_reserved w' = wave_reserved w"

lemma study_end:
  assumes "wave_holds w ls 0" "240 \<le> g"
  shows "\<exists>w'. study_list (replicate g b @ rest) b True True w = Some (20 < length ls, w') \<and> wave_holds w' ls 240
    \<and> same_head w' w"
proof -
  define n where "n = g - 240"
  have g: "g = 239 + Suc n" using assms(2) by (simp add: n_def)
  obtain w1 where w1: "study_list (replicate 239 b @ b # replicate n b @ rest) b True True w
      = study_list (b # replicate n b @ rest) b True True w1"
    "wave_holds w1 ls 239" "same_head w1 w"
    using study_run [OF assms(1), of 239 b "b # replicate n b @ rest"] by auto
  note at = wave_holds_at [OF w1(2)]
  define w2 where "w2 = w1\<lparr>waveData := (waveData w1)[length ls := of_nat 239 + 1]\<rparr>"
  have w2: "wave_holds w2 ls 240" using at(4) by (simp add: w2_def)
  have "waveCount w2 > 20 \<longleftrightarrow> 20 < length ls"
    using wave_holds_at(1) [OF w2] by (simp add: word_less_nat_alt)
  then have "study_list (b # replicate n b @ rest) b True True w1 = Some (20 < length ls, w2)"
    using wave_holds_at(1,2) [OF w2] by (simp add: study_list.simps(2) at(1,3) w2_def)
  moreover have "replicate g b @ rest = replicate 239 b @ b # replicate n b @ rest"
    by (simp only: g replicate_add replicate_Suc append_assoc append_Cons)
  ultimately show ?thesis using w1 w2 by (intro exI [of _ w2]) (simp add: w2_def)
qed

lemma study_signal:
  "wave_holds w dn 0 \<Longrightarrow> \<forall>x \<in> set (l # ls). 1 \<le> x \<and> x \<le> 240 \<Longrightarrow> length dn + length (l # ls) < MAX_WAVE_DATA_COUNT \<Longrightarrow>
   241 \<le> g \<Longrightarrow>
   \<exists>w'. study_list (replicate (l - 1) b @ signal (\<not> b) (ls @ [g])) b True True w
       = Some (20 < length dn + length (l # ls), w')
     \<and> wave_holds w' (dn @ l # ls) 240 \<and> same_head w' w"
proof (induction ls arbitrary: l dn b w)
  case (Cons k ls)
  define bs where "bs = replicate (k - 1) (\<not> b) @ signal b (ls @ [g])"
  have sig: "signal (\<not> b) ((k # ls) @ [g]) = (\<not> b) # bs"
    using Cons.prems(2) replicate_Suc [of "k - 1" "\<not> b"] by (simp add: bs_def)
  obtain w1 where w1: "study_list (replicate (l - 1) b @ (\<not> b) # bs) b True True w = study_list ((\<not> b) # bs) b True True w1"
    "wave_holds w1 dn (l - 1)" "same_head w1 w"
    using study_run [OF Cons.prems(1), of "l - 1" b "(\<not> b) # bs"] Cons.prems(2) by force
  obtain w2 where w2: "study_list ((\<not> b) # bs) b True True w1 = study_list bs (\<not> b) True True w2"
    "wave_holds w2 (dn @ [l]) 0" "same_head w2 w1"
    using study_edge [OF w1(2), of "\<not> b" b bs] Cons.prems(2,3) by auto
  have "\<exists>w'. study_list bs (\<not> b) True True w2 = Some (20 < length (dn @ [l]) + length (k # ls), w')
      \<and> wave_holds w' ((dn @ [l]) @ k # ls) 240 \<and> same_head w' w2"
    using Cons.IH [OF w2(2), of k "\<not> b"] Cons.prems(2,3,4) by (simp add: bs_def)
  then show ?case unfolding sig w1(1) w2(1) using w1(3) w2(3) by auto
next
  case Nil
  have sig: "signal (\<not> b) ([] @ [g]) = (\<not> b) # replicate (g - 1) (\<not> b)"
    using Nil.prems(4) replicate_Suc [of "g - 1" "\<not> b"] by simp
  obtain w1 where w1: "study_list (replicate (l - 1) b @ (\<not> b) # replicate (g - 1) (\<not> b)) b True True w
      = study_list ((\<not> b) # replicate (g - 1) (\<not> b)) b True True w1"
    "wave_holds w1 dn (l - 1)" "same_head w1 w"
    using study_run [OF Nil.prems(1), of "l - 1" b "(\<not> b) # replicate (g - 1) (\<not> b)"] Nil.prems(2) by force
  obtain w2 where w2: "study_list ((\<not> b) # replicate (g - 1) (\<not> b)) b True True w1
      = study_list (replicate (g - 1) (\<not> b)) (\<not> b) True True w2"
    "wave_holds w2 (dn @ [l]) 0" "same_head w2 w1"
    using study_edge [OF w1(2), of "\<not> b" b "replicate (g - 1) (\<not> b)"] Nil.prems(2,3) by auto
  have "\<exists>w'. study_list (replicate (g - 1) (\<not> b)) (\<not> b) True True w2 = Some (20 < length (dn @ [l]), w')
      \<and> wave_holds w' (dn @ [l]) 240 \<and> same_head w' w2"
    using study_end [OF w2(2), of "g - 1" "\<not> b" "[]"] Nil.prems(4) by simp
  then show ?case unfolding sig w1(1) w2(1) using w1(3) w2(3) by auto
qed

lemma study_whole:
  assumes w: "waveCount w = 0" "waveData w = replicate MAX_WAVE_DATA_COUNT 0"
    and ls: "ls \<noteq> []" "\<forall>x \<in> set ls. 1 \<le> x \<and> x \<le> 240" "length ls < MAX_WAVE_DATA_COUNT"
    and gaps: "241 \<le> g" "241 \<le> g'"
  shows "\<exists>w'. study_list (signal L (g # ls @ [g'])) False False False w = Some (20 < length ls, w')
    \<and> wave_holds w' ls 240 \<and> firstHighlevel w' = (if L then 1 else 0) \<and> waveFreq w' = waveFreq w
    \<and> wave_reserved w' = wave_reserved w"
proof -
  obtain l ks where l: "ls = l # ks" using ls(1) by (cases ls) auto
  define w1 where "w1 = w\<lparr>firstHighlevel := (if L then 1 else 0)\<rparr>"
  define bs where "bs = replicate (l - 1) (\<not> L) @ signal L (ks @ [g'])"
  have data: "waveData w = 0 # replicate 199 0"
    unfolding w(2) using replicate_Suc [of 199 "0 :: u8"] by simp
  have w1: "waveCount w1 = 0" "waveData w1 = 0 # replicate 199 0" "wave_holds w1 [] 0"
    using w(1) data by (simp_all add: w1_def wave_holds_def)
  have sig: "signal L (g # ls @ [g']) = replicate g L @ (\<not> L) # bs"
    using ls(2) replicate_Suc [of "l - 1" "\<not> L"] by (simp add: l bs_def)
  define m where "m = (if L then g - 241 else g - 240)"
  have "w\<lparr>waveData := waveData w\<rparr> = w" by simp
  then have same: "w\<lparr>waveData := 0 # replicate 199 0\<rparr> = w" unfolding data .
  have step: "study_list (replicate 240 L @ rest) L False False w = study_list rest L True False w1" for rest
    using study_gap [of 240 0 w "replicate 199 0" L rest False] data same by (simp add: w1_def)
  have gap: "study_list (replicate g L @ rest) False False False w = study_list (replicate m L @ rest) L True False w1" for rest
  proof (cases L)
    case False
    then have "replicate g L @ rest = replicate 240 L @ replicate m L @ rest"
      using gaps(1) replicate_add [of 240 m L] by (simp add: m_def)
    then show ?thesis using step [of "replicate m L @ rest"] False by simp
  next
    case True
    then have "replicate g L @ rest = L # replicate 240 L @ replicate m L @ rest"
      using gaps(1) replicate_add [of 240 m L] replicate_Suc [of "g - 1" L] by (simp add: m_def)
    moreover have "study_list (L # bs') False False False w = study_list bs' L False False w" for bs'
      using True data by (simp add: study_list.simps(2) clear_sample_def same)
    ultimately show ?thesis using step [of "replicate m L @ rest"] by simp
  qed
  have "study_list (signal L (g # ls @ [g'])) False False False w = study_list bs (\<not> L) True True w1"
    unfolding sig gap study_gap_rest [OF w1(1,2)] by (simp add: study_list.simps(2))
  then show ?thesis
    using study_signal [OF w1(3), of l ks g' "\<not> L"] ls gaps(2) by (auto simp: l bs_def w1_def)
qed

text \<open>What the device put on the line, one entry per sample time.\<close>

fun sent_levels :: "radio_call list \<Rightarrow> bool list" where
  "sent_levels [] = []"
| "sent_levels (Line b # tr) = sent_levels tr @ [b]"
| "sent_levels (_ # tr) = sent_levels tr"

lemma hold_line_levels:
  "sent_levels (rtrace (hold_line n b r)) = sent_levels (rtrace r) @ replicate n b
   \<and> g_sendCount (hold_line n b r) = g_sendCount r"
  by (induction n arbitrary: r) (simp_all add: lum_delay15us_def rcall_def)

lemma send_wave_loop_levels:
  "i + length ls \<le> length (waveData w) \<Longrightarrow> map unat (take (length ls) (drop i (waveData w))) = ls \<Longrightarrow>
   unat (firstHighlevel w) < 2 \<Longrightarrow>
   \<exists>r'. send_wave_loop (length ls) i w r = Some r' \<and> g_sendCount r' = g_sendCount r
     \<and> sent_levels (rtrace r') = sent_levels (rtrace r) @ signal (i mod 2 = unat (firstHighlevel w)) ls"
proof (induction ls arbitrary: i r)
  case (Cons l ls)
  have i: "i < length (waveData w)" using Cons.prems(1) by simp
  have "drop i (waveData w) = waveData w ! i # drop (Suc i) (waveData w)"
    using i by (simp add: Cons_nth_drop_Suc)
  then have l: "unat (waveData w ! i) = l" "map unat (take (length ls) (drop (Suc i) (waveData w))) = ls"
    using Cons.prems(2) by simp_all
  have flip: "(Suc i mod 2 = unat (firstHighlevel w)) = (\<not> (i mod 2 = unat (firstHighlevel w)))"
    using Cons.prems(3) by (simp add: mod_Suc) linarith
  show ?case
    using Cons.IH [of "Suc i" "hold_line l (i mod 2 = unat (firstHighlevel w)) r"] Cons.prems(1,3) l i
    by (auto simp: hold_line_levels flip)
qed simp

text \<open>What the control request makes of the bytes that the study reply carried.\<close>

definition wave_from_reply :: "u8 list \<Rightarrow> origin_wave_data" where
  "wave_from_reply bytes = wave_of_bytes (bytes @ replicate (SIZEOF_ORIGIN_WAVE_DATA - length bytes) 0)"

lemma wave_from_reply_holds:
  assumes "wave_holds w ls c" "length (wave_reserved w) = 2"
  shows "waveCount (wave_from_reply (take (8 + length ls) (wave_bytes w))) = waveCount w"
    "firstHighlevel (wave_from_reply (take (8 + length ls) (wave_bytes w))) = firstHighlevel w"
    "take (length ls) (waveData (wave_from_reply (take (8 + length ls) (wave_bytes w)))) = map of_nat ls"
    "length (waveData (wave_from_reply (take (8 + length ls) (wave_bytes w)))) = 200"
proof -
  have w: "length (waveData w) = 200" "take (length ls) (waveData w) = map of_nat ls" "length ls \<le> 200"
    using assms(1) by (auto simp: wave_holds_def)
  obtain x y where res: "wave_reserved w = [x, y]"
    using assms(2) by (metis (no_types, opaque_lifting) One_nat_def Suc_length_conv length_0_conv numeral_2_eq_2)
  have bytes: "take (8 + length ls) (wave_bytes w)
      = [waveCount w, firstHighlevel w, x, y] @ le32 (waveFreq w) @ map of_nat ls"
  proof -
    have "wave_bytes w = ([waveCount w, firstHighlevel w, x, y] @ le32 (waveFreq w)) @ waveData w"
      by (simp add: wave_bytes_def res)
    moreover have "length ([waveCount w, firstHighlevel w, x, y] @ le32 (waveFreq w)) = 8" by simp
    ultimately show ?thesis using w(2) by (simp only: take_append) simp
  qed
  show "waveCount (wave_from_reply (take (8 + length ls) (wave_bytes w))) = waveCount w"
    "firstHighlevel (wave_from_reply (take (8 + length ls) (wave_bytes w))) = firstHighlevel w"
    "take (length ls) (waveData (wave_from_reply (take (8 + length ls) (wave_bytes w)))) = map of_nat ls"
    "length (waveData (wave_from_reply (take (8 + length ls) (wave_bytes w)))) = 200"
    using w(3) unfolding bytes by (simp_all add: wave_from_reply_def wave_of_bytes_def)
qed


text \<open>A remote control whose button is held: thirty levels of five samples between two pauses.\<close>

definition remote_signal :: "bool list" where
  "remote_signal = signal False (300 # replicate 30 5 @ [300])"

definition remote_sdk :: radio_sdk where
  "remote_sdk = \<lparr>spi_data = \<lambda>_ _. 0xFF, pin_c = \<lambda>tr. remote_signal ! count_list tr Sample, radio_time = \<lambda>_. 0,
     sdo2_configured = \<lambda>_. True\<rparr>"

lemma remote_pin: "bs = drop (count_list tr Sample) remote_signal \<Longrightarrow> pin_shows remote_sdk tr bs"
proof (induction bs arbitrary: tr)
  case (Cons b bs)
  have n: "count_list tr Sample < length remote_signal"
  proof (rule ccontr)
    assume "\<not> count_list tr Sample < length remote_signal"
    then show False using Cons.prems by simp
  qed
  have "b # bs = remote_signal ! count_list tr Sample # drop (Suc (count_list tr Sample)) remote_signal"
    using Cons.prems Cons_nth_drop_Suc [OF n] by simp
  then show ?case using Cons.IH [of "Delay_15us 1 # Sample # tr"] by (simp add: remote_sdk_def)
qed simp


section \<open>The states of the radio\<close>

text \<open>What can happen to the radio: its requests, its timer, an edge on the pin, the reply to the app.\<close>

inductive radio_step :: "sdk \<Rightarrow> radio_sdk \<Rightarrow> device \<times> radio \<Rightarrow> device \<times> radio \<Rightarrow> bool" for E R where
  radio_message: "radio_dispatch E R b s = Some s' \<Longrightarrow> radio_step E R s s'"
| radio_timer: "lum_433StudyTimerCallback E R s = Some s' \<Longrightarrow> radio_step E R s s'"
| radio_edge: "radio_step E R (d, r) (d, lum_sdo2IrqCallback r)"
| radio_other: "radio_step E R (d, r) (d', r)"

inductive_cases radio_stepE: "radio_step E R s s'"

definition no_search :: "radio \<Rightarrow> bool" where
  "no_search r \<longleftrightarrow> chipStatus (g_searchFreqData r) \<in> {SX1208_IDLE, SX1208_STUDYING, SX1208_SENDING}
     \<and> (chipStatus (g_searchFreqData r) \<noteq> SX1208_IDLE \<longrightarrow> g_pWaveDataInfo r)"

definition radio_core :: "radio \<Rightarrow> search_freq_info \<times> bool" where
  "radio_core r = (g_searchFreqData r, g_pWaveDataInfo r)"

lemma radio_core_no_search: "radio_core r' = radio_core r \<Longrightarrow> no_search r' = no_search r"
  by (simp add: radio_core_def no_search_def)

lemma radio_core_calls [simp]:
  "radio_core (rcall c r) = radio_core r" "radio_core (lum_spiWriteData a v r) = radio_core r"
  "radio_core (lum_writeFrFrequent f r) = radio_core r" "radio_core (lum_start433StudyTimer n r) = radio_core r"
  "radio_core (lum_setSdo2InteruptStatus b r) = radio_core r" "radio_core (lum_delay15us n r) = radio_core r"
  "radio_core (lum_disableAllIrq r) = radio_core r" "radio_core (lum_enableAllIrq r) = radio_core r"
  "radio_core (hold_line n b r) = radio_core r" "radio_core (lum_saveStudySocketData x r) = radio_core r"
  "radio_core (r\<lparr>pre_mode := m\<rparr>) = radio_core r" "radio_core (r\<lparr>g_sendCount := k\<rparr>) = radio_core r"
  "radio_core (r\<lparr>g_studyWaveData := w\<rparr>) = radio_core r" "radio_core (r\<lparr>g_socketSaveData := sd\<rparr>) = radio_core r"
proof -
  show "radio_core (hold_line n b r) = radio_core r"
    by (induction n arbitrary: r) (simp_all add: radio_core_def rcall_def lum_delay15us_def)
qed (simp_all add: radio_core_def rcall_def lum_spiWriteData_def lum_writeFrFrequent_def Let_def
    lum_start433StudyTimer_def lum_setSdo2InteruptStatus_def lum_delay15us_def lum_disableAllIrq_def
    lum_enableAllIrq_def lum_saveStudySocketData_def)

lemma wait_irq_flag_trace: "wait_irq_flag R flag r = Some r' \<Longrightarrow> \<exists>tr. r' = r\<lparr>rtrace := tr\<rparr>"
proof (erule wait_irq_flag.raw_induct [where P = "\<lambda>R flag r r'. \<exists>tr. r' = r\<lparr>rtrace := tr\<rparr>", rotated])
  fix f R flag r r'
  assume IH: "\<And>R flag r r'. f R flag r = Some r' \<Longrightarrow> \<exists>tr. r' = r\<lparr>rtrace := tr\<rparr>"
    and run: "(let (v, r1) = lum_spiReadData R REG_IRQFLAGS1 r in if v AND flag = 0 then f R flag r1 else Some r1) = Some r'"
  show "\<exists>tr. r' = r\<lparr>rtrace := tr\<rparr>"
    using run IH [of R flag "rcall (Spi_read 0x27) r" r'] by (auto simp: lum_spiReadData_def rcall_def split: if_splits)
qed

lemma rf_mode_frame: "rf_mode R m r = Some r' \<Longrightarrow> \<exists>tr k. r' = r\<lparr>rtrace := tr, pre_mode := k\<rparr>"
proof -
  have same: "\<exists>tr k. r = r\<lparr>rtrace := tr, pre_mode := k\<rparr>" for r :: radio
    by (intro exI [of _ "rtrace r"] exI [of _ "pre_mode r"]) simp
  show "rf_mode R m r = Some r' \<Longrightarrow> \<exists>tr k. r' = r\<lparr>rtrace := tr, pre_mode := k\<rparr>"
    by (auto simp: rf_mode_def lum_setRfMode_def Let_def lum_spiWriteData_def rcall_def same split: if_splits
      dest!: wait_irq_flag_trace) blast+
qed

lemma radio_core_mode: "rf_mode R m r = Some r' \<Longrightarrow> radio_core r' = radio_core r"
  by (auto simp: radio_core_def dest!: rf_mode_frame)

lemma radio_core_study: "study_loop n R l a st w r = Some (ret, w', r') \<Longrightarrow> radio_core r' = radio_core r"
  by (induction n arbitrary: l a st w r) (auto simp: Let_def split: if_splits bind_splits)

lemma radio_core_send: "send_wave_loop n i w r = Some r' \<Longrightarrow> radio_core r' = radio_core r"
  by (induction n arbitrary: i r) (auto split: bind_splits)

lemma no_search_modes:
  "g_pWaveDataInfo r \<Longrightarrow> lum_enterStudyMode R f r = Some r' \<Longrightarrow> no_search r'"
  "lum_enterSearchFreqMode R r = Some r' \<Longrightarrow> no_search r'"
  "lum_enterSendMode R r = Some r' \<Longrightarrow> no_search r'"
  "no_search r \<Longrightarrow> lum_sendStudyWaveData R r = Some r' \<Longrightarrow> no_search r'"
proof -
  have chip: "no_search (set_chip st r)" if "st \<in> {SX1208_IDLE, SX1208_STUDYING, SX1208_SENDING}" "g_pWaveDataInfo r" for st r
    using that by (auto simp: no_search_def set_chip_def upd_search_def)
  have ptr: "g_pWaveDataInfo r' = g_pWaveDataInfo r" if "radio_core r' = radio_core r" for r r'
    using that by (simp add: radio_core_def)
  have study: "no_search r'" if p: "g_pWaveDataInfo r" and run: "lum_enterStudyMode R f r = Some r'" for R f r r'
  proof -
    obtain r1 where "rf_mode R RF_RECEIVER (lum_writeFrFrequent f (lum_spiWriteData REG_OOKFIX 0x50 (set_chip SX1208_STUDYING r)))
        = Some r1" "r' = lum_setSdo2InteruptStatus True (rcall (Radio_sleep 100) r1)"
      using run by (auto simp: lum_enterStudyMode_def lum_changeToRecvMode_def)
    then have "radio_core r' = radio_core (set_chip SX1208_STUDYING r)"
      using radio_core_mode [of R RF_RECEIVER _ r1] by simp
    from radio_core_no_search [OF this] show ?thesis using chip [of SX1208_STUDYING r] p by simp
  qed
  show "g_pWaveDataInfo r \<Longrightarrow> lum_enterStudyMode R f r = Some r' \<Longrightarrow> no_search r'" by (rule study)
  show "lum_enterSearchFreqMode R r = Some r' \<Longrightarrow> no_search r'"
    by (auto simp: lum_enterSearchFreqMode_def Let_def upd_search_def lum_initSdo2Interupt_def
      lum_setSdo2InteruptStatus_def rcall_def intro: study [rotated])
  show "no_search r'" if run: "lum_enterSendMode R r = Some r'"
  proof -
    obtain r2 where r2: "r' = set_chip SX1208_SENDING (lum_start433StudyTimer MAX_SEND_WAVE_TIME_DELAY (r2\<lparr>g_pWaveDataInfo := True\<rparr>))"
      using run by (auto simp: lum_enterSendMode_def split: bind_splits)
    show ?thesis unfolding r2 by (rule chip) (simp_all add: lum_start433StudyTimer_def rcall_def)
  qed
  show "no_search r'" if h: "no_search r" "lum_sendStudyWaveData R r = Some r'"
  proof -
    define r1 where "r1 = (if firstHighlevel (g_studyWaveData r) \<noteq> 0 then lum_delay15us 300 (rcall (Line True) r) else r)"
    have r1: "radio_core r1 = radio_core r" by (simp add: r1_def)
    obtain r2 where r2: "send_wave_loop (unat (waveCount (g_studyWaveData r))) 0 (g_studyWaveData r) r1 = Some r2"
      "r' = lum_start433StudyTimer MAX_SEND_WAVE_TIME_DELAY ((rcall Sdo2_low r2)\<lparr>g_sendCount := g_sendCount r2 + 1\<rparr>)
       \<or> (\<exists>k r4. rf_mode R RF_SLEEP ((rcall Sdo2_low r2)\<lparr>g_sendCount := k, g_sendCount := 0\<rparr>) = Some r4
            \<and> r' = set_chip SX1208_IDLE r4)"
      using h(2) unfolding lum_sendStudyWaveData_def Let_def r1_def [symmetric]
      by (auto simp: rcall_def split: bind_splits if_splits)
    have "radio_core r2 = radio_core r" using radio_core_send [OF r2(1)] r1 by simp
    then have "radio_core r' = radio_core r \<or> (\<exists>r4. r' = set_chip SX1208_IDLE r4)"
      using r2(2) by auto
    then show ?thesis
    proof
      assume "radio_core r' = radio_core r"
      from radio_core_no_search [OF this] show ?thesis using h(1) by simp
    qed (auto simp: no_search_def set_chip_def upd_search_def)
  qed
qed

lemma no_search_reply:
  "lum_sendReplyStudyMessage E (d, r) = Some (d', r') \<Longrightarrow> no_search r \<Longrightarrow> no_search r'"
  using radio_core_no_search [of r' r] by (auto simp: lum_sendReplyStudyMessage_def)

lemma no_search_step:
  assumes "radio_step E R s s'" "no_search (snd s)"
  shows "no_search (snd s')"
  using assms(1)
proof cases
  case (radio_message b)
  then show ?thesis using assms(2)
    by (cases s; cases s')
      (auto simp: radio_dispatch_def lum_revc433StudyCmd_def lum_study433Wave_def lum_send433StudyStatus_def
        lum_sendControlCmd_def lum_send433Wave_def Let_def split: if_splits bind_splits
        dest: no_search_modes(2,3))
next
  case radio_timer
  obtain d r d' r' where s: "s = (d, r)" "s' = (d', r')" by (cases s; cases s')
  show ?thesis
  proof (cases "chipStatus (g_searchFreqData r)")
    case SX1208_STUDYING
    then obtain ret w r1 r2 where p: "g_pWaveDataInfo r"
      "lum_studyWaveData R (r\<lparr>g_studyWaveData := w\<rparr>) = Some (ret, r1)"
      "rf_mode R RF_STANDBY (if ret then r1\<lparr>g_socketSaveData := (g_socketSaveData r1)\<lparr>pWaveData := True\<rparr>\<rparr> else r1) = Some r2"
      "lum_sendReplyStudyMessage E (d, set_chip SX1208_IDLE r2) = Some (d', r')"
      using radio_timer s by (auto simp: lum_433StudyTimerCallback_def split: if_splits bind_splits)
    have "no_search (set_chip SX1208_IDLE r2)" by (simp add: no_search_def set_chip_def upd_search_def)
    from no_search_reply [OF p(4) this] show ?thesis by (simp add: s)
  next
    case SX1208_SENDING
    then show ?thesis using radio_timer s assms(2)
      by (auto simp: lum_433StudyTimerCallback_def split: if_splits dest: no_search_modes(4) [rotated])
  qed (use radio_timer s assms(2) in \<open>auto simp: lum_433StudyTimerCallback_def no_search_def\<close>)
next
  case radio_edge
  then show ?thesis using assms(2)
    by (auto simp: lum_sdo2IrqCallback_def no_search_def lum_start433StudyTimer_def rcall_def)
qed (use assms(2) in simp)

text \<open>
  Property C28: whatever messages, timer expiries, edges of the pin and other steps of the device
  happen after power-on, the radio never enters the search for a frequency: that mode is only
  entered from itself, and the functions for it are dead code.  And the timer callback never
  follows the pointer \<open>g_pWaveDataInfo\<close> before it is set.
\<close>

theorem radio_never_searches:
  "(radio_step E R)\<^sup>*\<^sup>* (d, radio_power_on) (d', r) \<Longrightarrow>
   chipStatus (g_searchFreqData r) \<noteq> SX1208_SEARCHING \<and> chipStatus (g_searchFreqData r) \<noteq> SX1208_SEARCH_AGAIN
   \<and> (chipStatus (g_searchFreqData r) \<noteq> SX1208_IDLE \<longrightarrow> g_pWaveDataInfo r)"
proof -
  assume run: "(radio_step E R)\<^sup>*\<^sup>* (d, radio_power_on) (d', r)"
  have "no_search (snd s)" if "(radio_step E R)\<^sup>*\<^sup>* (d, radio_power_on) s" for s
    using that
    by (induction rule: rtranclp_induct)
      (simp add: no_search_def radio_power_on_def zero_search_def, rule no_search_step)
  from this [OF run] show ?thesis by (auto simp: no_search_def)
qed

text \<open>A request to learn a signal.\<close>

definition study_request :: msg_node_body where
  "study_request = \<lparr>bReback = False, cmdData = MSG_CMD_433M_STUDY_KEY, snIndex = 7, dataLen = 32,
     pData = Some (replicate 32 0), msgOrigin = MSG_FROM_UDP, socketIp = 1\<rparr>"

theorem radio_never_searches_witness:
  "\<exists>d r. (radio_step plain_sdk remote_sdk)\<^sup>*\<^sup>* (power_on, radio_power_on) (d, r)
     \<and> chipStatus (g_searchFreqData r) = SX1208_STUDYING \<and> g_pWaveDataInfo r"
proof -
  have configured: "sdo2_configured remote_sdk tr" for tr by (simp add: remote_sdk_def)
  obtain r where r: "radio_dispatch plain_sdk remote_sdk study_request (power_on, radio_power_on) = Some (power_on, r)"
    "chipStatus (g_searchFreqData r) = SX1208_STUDYING"
    by (simp add: radio_dispatch_def study_request_def lum_revc433StudyCmd_def body_bytes_def rds_def
      lum_study433Wave_def lum_enterSearchFreqMode_def lum_enterStudyMode_def lum_changeToRecvMode_def
      rf_mode_def lum_setRfMode_def radio_power_on_def lum_saveStudySocketData_def lum_initSdo2Interupt_def
      lum_setSdo2InteruptStatus_def rcall_def upd_search_def set_chip_def lum_writeFrFrequent_def
      lum_spiWriteData_def Let_def configured)
  then have "(radio_step plain_sdk remote_sdk)\<^sup>*\<^sup>* (power_on, radio_power_on) (power_on, r)"
    by (intro r_into_rtranclp radio_message)
  from radio_never_searches [OF this] this r(2) show ?thesis by auto
qed

lemma send_wave_loop_overrun:
  "i \<le> length (waveData w) \<Longrightarrow> length (waveData w) < i + n \<Longrightarrow> send_wave_loop n i w r = None"
  by (induction n arbitrary: i r) (auto simp: rd_def split: bind_splits)

text \<open>
  Property C39: a control request may claim more entries than a signal can have.  The handler checks
  the length of the signal's bytes but not the count inside them; a request with a count above 200
  is accepted: the transmission is started, and when the timer expires the device reads past the end
  of the signal's entries.
\<close>

theorem control_request_overruns:
  "body_byte pNode 1 = Some rfLen \<Longrightarrow> 0 < rfLen \<Longrightarrow> rfLen \<le> 208 \<Longrightarrow> body_byte pNode 2 = Some n \<Longrightarrow> 200 < n \<Longrightarrow>
   lum_sendControlCmd E R pNode (d, r) = Some (d', r') \<Longrightarrow>
   chipStatus (g_searchFreqData r') = SX1208_SENDING \<and> lum_433StudyTimerCallback E R (d2, r') = None"
proof -
  assume len: "body_byte pNode 1 = Some rfLen" "0 < rfLen" "rfLen \<le> 208" and n: "body_byte pNode 2 = Some n" "200 < n"
    and run: "lum_sendControlCmd E R pNode (d, r) = Some (d', r')"
  have le: "0 < unat rfLen" "unat rfLen \<le> 208" using len(2,3) by (simp_all add: word_less_nat_alt word_le_nat_alt)
  obtain bytes buf where b: "body_bytes pNode 2 (unat rfLen) = Some bytes" "wrs (replicate 208 0) 0 bytes = Some buf"
    "lum_send433Wave R (wave_of_bytes buf) r = Some r'"
    using run len(1) le by (auto simp: lum_sendControlCmd_def Let_def split: bind_splits if_splits)
  have bytes: "length bytes = unat rfLen" using b(1) length_rds by (auto simp: body_bytes_def split: bind_splits)
  have buf: "length buf = 208" using length_wrs [OF b(2)] by simp
  have first: "bytes ! 0 = n"
    using b(1) n(1) le(1) by (auto simp: body_bytes_def body_byte_def rds_def rd_def split: bind_splits if_splits)
  have "bytes \<noteq> []" using bytes le(1) by auto
  then have "buf ! 0 = n"
    using b(2) first by (auto simp: wrs_def nth_append split: if_splits)
  define w where "w = wave_of_bytes buf"
  have w: "waveCount w = n" "length (waveData w) = 200"
    using \<open>buf ! 0 = n\<close> buf by (simp_all add: w_def wave_of_bytes_def)
  have r': "g_studyWaveData r' = w" "chipStatus (g_searchFreqData r') = SX1208_SENDING" "g_pWaveDataInfo r'"
    using b(3) unfolding w_def
    by (auto simp: lum_send433Wave_def lum_enterSendMode_def lum_changeToSendMode_def lum_writeFrFrequent_def Let_def
      lum_spiWriteData_def rcall_def set_chip_def upd_search_def lum_start433StudyTimer_def
      split: bind_splits dest!: rf_mode_frame)
  have "length (waveData w) < 0 + unat (waveCount w)" using w n(2) by (simp add: word_less_nat_alt)
  then have "lum_sendStudyWaveData R r' = None"
    by (simp add: lum_sendStudyWaveData_def r' Let_def send_wave_loop_overrun)
  then show ?thesis using r' by (simp add: lum_433StudyTimerCallback_def)
qed

text \<open>A request whose nine bytes of signal claim 255 entries.\<close>

definition huge_request :: msg_node_body where
  "huge_request = \<lparr>bReback = False, cmdData = MSG_CMD_433M_CONTROL_KEY, snIndex = 7, dataLen = 32,
     pData = Some (replicate 16 0 @ [0x11, 9, 255] @ replicate 13 0), msgOrigin = MSG_FROM_UDP, socketIp = 1\<rparr>"

theorem control_request_overruns_witness:
  "(case lum_sendControlCmd plain_sdk remote_sdk huge_request (power_on, radio_power_on) of
      None \<Rightarrow> False
    | Some (d', r') \<Rightarrow> lum_433StudyTimerCallback plain_sdk remote_sdk (d', r') = None)"
proof -
  have b: "body_byte huge_request 1 = Some 9" "body_byte huge_request 2 = Some 255"
    by (simp_all add: body_byte_def huge_request_def rd_def nth_append)
  have ok: "keys_ok power_on" "\<not> lum_getUdpLogFlag power_on" "msgOrigin huge_request \<noteq> MSG_LOCAL_EVENT"
    using device_ok_power_on by (simp_all add: device_ok_def huge_request_def)
  obtain d' where q: "reply plain_sdk [MSG_CMD_433M_CONTROL_KEY, REBACK_SUCCESS_MESSAGE] huge_request power_on = Some d'"
    by (rule reply_queued [OF sends_power_on ok(1,2) _ _ ok(3) memory_left_plain,
          of "[MSG_CMD_433M_CONTROL_KEY, REBACK_SUCCESS_MESSAGE]"]) simp_all
  have wait: "wait_irq_flag remote_sdk 0x20 r = Some (snd (lum_spiReadData remote_sdk REG_IRQFLAGS1 r))" for r
    by (subst wait_irq_flag.simps) (simp add: lum_spiReadData_def remote_sdk_def)
  have "\<exists>r'. lum_sendControlCmd plain_sdk remote_sdk huge_request (power_on, radio_power_on) = Some (d', r')"
    using q b(1)
    by (simp add: lum_sendControlCmd_def body_bytes_def rds_def wrs_def lum_send433Wave_def lum_enterSendMode_def
      lum_changeToSendMode_def rf_mode_def lum_setRfMode_def lum_writeFrFrequent_def Let_def lum_spiWriteData_def
      rcall_def radio_power_on_def huge_request_def wait)
  then obtain r' where run: "lum_sendControlCmd plain_sdk remote_sdk huge_request (power_on, radio_power_on) = Some (d', r')" ..
  show ?thesis using control_request_overruns [OF b(1) _ _ b(2) _ run] run by simp
qed
end
