(* ===== verification/Flash.thy ===== *)
theory Flash
  imports Prelude
begin

text \<open>
  The user flash of the module, as the energy counter and the flash log use it.  Erasing a page
  sets all its bits, writing can only clear bits.  The functions \<open>hfuflash_erase_page\<close>,
  \<open>hfuflash_write\<close> and \<open>hfuflash_read\<close> belong to the SDK: erasures and writes are recorded,
  latest first, and what a read returns is a parameter that the hypothesis \<open>flash_works\<close> ties to
  them.
\<close>

abbreviation (input) "HFFLASH_PAGE_SIZE \<equiv> 4096"

datatype flash_call = Flash_erase nat nat | Flash_write nat "u8 list"

text \<open>The byte at an address, when the flash held \<open>z\<close> at first.\<close>

fun stored :: "(nat \<Rightarrow> u8) \<Rightarrow> flash_call list \<Rightarrow> nat \<Rightarrow> u8" where
  "stored z [] a = z a"
| "stored z (Flash_erase off pages # tr) a =
     (if off \<le> a \<and> a < off + pages * HFFLASH_PAGE_SIZE then 0xFF else stored z tr a)"
| "stored z (Flash_write off bs # tr) a =
     (if off \<le> a \<and> a < off + length bs then stored z tr a AND bs ! (a - off) else stored z tr a)"

definition flash_bytes :: "(nat \<Rightarrow> u8) \<Rightarrow> flash_call list \<Rightarrow> nat \<Rightarrow> nat \<Rightarrow> u8 list" where
  "flash_bytes z tr off n = map (stored z tr) [off..<off + n]"

definition flash_works ::
    "(nat \<Rightarrow> u8) \<Rightarrow> (flash_call list \<Rightarrow> nat \<Rightarrow> nat \<Rightarrow> u8 list) \<Rightarrow> bool" where
  "flash_works z read \<longleftrightarrow> (\<forall>tr off n. read tr off n = flash_bytes z tr off n)"

text \<open>The buffer of a read: what was read, then what the buffer held before.\<close>

definition overlay :: "u8 list \<Rightarrow> u8 list \<Rightarrow> u8 list" where
  "overlay bs buf = take (length buf) bs @ drop (length bs) buf"

definition word_at :: "u8 list \<Rightarrow> nat \<Rightarrow> u32" where
  "word_at buf i = of_le32 (take 4 (drop (4 * i) buf))"

lemma length_flash_bytes [simp]: "length (flash_bytes z tr off n) = n"
  by (simp add: flash_bytes_def)

lemma nth_flash_bytes [simp]: "i < n \<Longrightarrow> flash_bytes z tr off n ! i = stored z tr (off + i)"
  by (simp add: flash_bytes_def)

lemma flash_bytes_eqI:
  assumes "length bs = n" "\<And>i. i < n \<Longrightarrow> stored z tr (off + i) = bs ! i"
  shows "flash_bytes z tr off n = bs"
  using assms by (intro nth_equalityI) simp_all

lemma flash_bytes_append:
  "flash_bytes z tr off (m + n) = flash_bytes z tr off m @ flash_bytes z tr (off + m) n"
  by (rule nth_equalityI) (simp_all add: nth_append algebra_simps)

lemma flash_bytes_part:
  "i + k \<le> n \<Longrightarrow> take k (drop i (flash_bytes z tr off n)) = flash_bytes z tr (off + i) k"
  by (rule nth_equalityI) (simp_all add: algebra_simps)

lemma overlay_full [simp]: "length bs = length buf \<Longrightarrow> overlay bs buf = bs"
  by (simp add: overlay_def)

lemma word_at_flash:
  "4 * i + 4 \<le> n \<Longrightarrow> word_at (flash_bytes z tr off n) i = of_le32 (flash_bytes z tr (off + 4 * i) 4)"
  by (simp add: word_at_def flash_bytes_part)

lemma replicate_4: "replicate 4 x = [x, x, x, x]"
  using replicate_Suc [of 3 x] by (simp add: eval_nat_numeral)

lemma le32_ones: "le32 0xFFFFFFFF = replicate 4 0xFF"
  by (simp add: le32_def replicate_4)

lemma of_le32_ones: "of_le32 (replicate 4 0xFF) = 0xFFFFFFFF"
  using of_le32_le32 [of "0xFFFFFFFF"] by (simp only: le32_ones)

lemma and_ones [simp]: "(0xFF :: u8) AND w = w"
proof -
  have "(0xFF :: u8) = - 1" by simp
  then show ?thesis by (simp only: and.left_neutral)
qed

lemma written_to_erased:
  assumes "flash_bytes z tr off (length bs) = replicate (length bs) 0xFF"
  shows "flash_bytes z (Flash_write off bs # tr) off (length bs) = bs"
proof (rule flash_bytes_eqI)
  fix i assume "i < length bs"
  then have "stored z tr (off + i) = 0xFF" using arg_cong [OF assms, of "\<lambda>l. l ! i"] by simp
  then show "stored z (Flash_write off bs # tr) (off + i) = bs ! i" using \<open>i < length bs\<close> by simp
qed simp

lemma written_elsewhere:
  "off + n \<le> at \<or> at + length bs \<le> off \<Longrightarrow>
   flash_bytes z (Flash_write at bs # tr) off n = flash_bytes z tr off n"
  by (rule nth_equalityI) auto

lemma erased:
  "at \<le> off \<Longrightarrow> off + n \<le> at + pages * HFFLASH_PAGE_SIZE \<Longrightarrow>
   flash_bytes z (Flash_erase at pages # tr) off n = replicate n 0xFF"
  by (rule nth_equalityI) auto

end
