(* ===== verification/Rn8209c.thy ===== *)
theory Rn8209c
  imports Message_Dispose Flash
begin

text \<open>
  The power meter RN8209C of the metering socket (\<open>rn8209c.c\<close>, product \<open>P2_Config.h\<close>; its code is
  not part of the product the other theories model, so its variables are a record of their own).
  The chip gives a pulse per unit of energy, which an interrupt counts; every fifty pulses the total
  is appended to a page of the flash.  Voltage and power are read from registers by UART.
\<close>

abbreviation (input) "ENERGY_DATA_OFFSET \<equiv> 4096"
abbreviation (input) "ENERGY_DATA_TOTAL_SIZE \<equiv> 4096"
abbreviation (input) "ENERGY_DATA_FLAG \<equiv> 0x89ABCDEF"
abbreviation (input) "ENERGY_PER_DEAD_LEN \<equiv> 128"
abbreviation (input) "ENERGY_DATA_SIZE \<equiv> 4"
abbreviation (input) "ENERGY_SAVE_DATA_GAP \<equiv> 50"
abbreviation (input) "MAX_CALIBRATE_READ_COUNT \<equiv> 5"
abbreviation (input) "RN8209C_DEFAULT_EC \<equiv> 3200"
abbreviation (input) "RN8209C_HF_COST_KPEC \<equiv> 750"
abbreviation (input) "RN8209C_DEFAULT_KI \<equiv> 780"
abbreviation (input) "RN8209C_DEFAULT_KV \<equiv> 4610"
abbreviation (input) "RN8209C_DEFAULT_KP \<equiv> 10982"
abbreviation (input) "RN8209C_DEFAULT_HFCOST \<equiv> 2574"
abbreviation (input) "RN9029C_MAX_DATA_LEN \<equiv> 100"
abbreviation (input) "RN8209C_HFConst \<equiv> 0x02"
abbreviation (input) "RN8209C_URMS \<equiv> 0x24"
abbreviation (input) "RN8209C_PowerPA \<equiv> 0x26"
abbreviation (input) "RN8209C_DeviceID \<equiv> 0x7F"
abbreviation (input) "RN8209C_EA \<equiv> 0xEA"
abbreviation (input) "RN8209C_PATH_A \<equiv> 0x5A"
abbreviation (input) "RN9208C_WRITE_EN \<equiv> 0xE5"
abbreviation (input) "RN8209C_WRITE_PROTECT \<equiv> 0xDC"
abbreviation (input) "RN8209C_CMD_RESET \<equiv> 0xFA"
abbreviation (input) "MSG_CMD_QUERY_ENERGY_DATA \<equiv> 0x07"
abbreviation (input) "REPORT_ENERGY_DATA_TIMER_GAP \<equiv> 1800000"
abbreviation (input) "RESEND_ENERGY_DATA_TIMER_GAP \<equiv> 10000"

section \<open>State\<close>

record rn8209c_cali_data =
  rn8209cHFCost :: u16
  rn8209cKP :: u16
  rn8209cKI :: u16
  rn8209cKV :: u16

record energy_data_info =
  energyOffset :: u32
  energyData :: u32
  energyCurData :: u32

text \<open>The calls of the meter's code, latest first, like the trace of the device.\<close>

datatype meter_call =
    Flash flash_call
  | Uart_open | Uart_send "u8 list" | Uart_recv nat | Uart_at "u8 list"
  | Cf_interrupt
  | Meter_sleep nat | Meter_sys_reset
  | Cali_saved rn8209c_cali_data
  | Report_timer_create nat | Report_timer_period nat

record meter =
  g_energyData :: energy_data_info
  g_rn8209cCaliData :: rn8209c_cali_data
  reportEnergyTimer :: bool
  meterTrace :: "meter_call list"

text \<open>What the SDK answers; \<open>None\<close> from the UART is an error code.\<close>

record meter_sdk =
  hfuflash_read :: "flash_call list \<Rightarrow> nat \<Rightarrow> nat \<Rightarrow> u8 list"
  hfuart_recv :: "meter_call list \<Rightarrow> nat \<Rightarrow> u8 list option"
  hfat_uart_cmd :: "meter_call list \<Rightarrow> u8 list"
  uninitialised_word :: "meter_call list \<Rightarrow> u32"
  uninitialised_int :: "meter_call list \<Rightarrow> int"

fun flash_calls :: "meter_call list \<Rightarrow> flash_call list" where
  "flash_calls [] = []"
| "flash_calls (Flash c # tr) = c # flash_calls tr"
| "flash_calls (_ # tr) = flash_calls tr"

definition mcall :: "meter_call \<Rightarrow> meter \<Rightarrow> meter" where
  "mcall c m = m\<lparr>meterTrace := c # meterTrace m\<rparr>"

section \<open>The energy counter\<close>

definition lum_rn8209cClearEnergyData :: "bool \<Rightarrow> meter \<Rightarrow> meter" where
  "lum_rn8209cClearEnergyData needSaveData m =
     (let m1 = mcall (Flash (Flash_write ENERGY_DATA_OFFSET (le32 ENERGY_DATA_FLAG)))
                 (mcall (Flash (Flash_erase ENERGY_DATA_OFFSET (ENERGY_DATA_TOTAL_SIZE div HFFLASH_PAGE_SIZE))) m);
          g = (if \<not> needSaveData then (g_energyData m)\<lparr>energyData := 0, energyCurData := 0\<rparr>
               else g_energyData m)
      in m1\<lparr>g_energyData := g\<lparr>energyOffset := ENERGY_DATA_SIZE\<rparr>\<rparr>)"

text \<open>The search for the first free word, block by block.\<close>

function energy_scan :: "meter_sdk \<Rightarrow> flash_call list \<Rightarrow> nat \<Rightarrow> energy_data_info \<Rightarrow> energy_data_info" where
  "energy_scan M tr readOffset g =
     (if readOffset \<ge> ENERGY_DATA_TOTAL_SIZE then g
      else let got = take ENERGY_PER_DEAD_LEN
                 (hfuflash_read M tr (ENERGY_DATA_OFFSET + readOffset) ENERGY_PER_DEAD_LEN)
      in if got = [] then g
      else let readBuf = overlay got (replicate ENERGY_PER_DEAD_LEN 0)
      in if word_at readBuf 31 = 0xFFFFFFFF
         then (case find (\<lambda>i. word_at readBuf i = 0xFFFFFFFF) [0..<32] of
                 None \<Rightarrow> g
               | Some i \<Rightarrow> let off = readOffset + 4 * i in
                   g\<lparr>energyOffset := of_nat off, energyData :=
                     (if off = ENERGY_DATA_SIZE then 0
                      else word_at (overlay (hfuflash_read M tr (off + ENERGY_DATA_OFFSET - ENERGY_DATA_SIZE)
                             ENERGY_DATA_SIZE) readBuf) 0)\<rparr>)
         else energy_scan M tr (readOffset + length got) g)"
  by pat_completeness auto
termination
  by (relation "measure (\<lambda>(M, tr, off, g). ENERGY_DATA_TOTAL_SIZE - off)") (auto simp: Let_def min_def simp flip: length_greater_0_conv)

declare energy_scan.simps [simp del]

definition lum_rn8209cInitEnergyData :: "meter_sdk \<Rightarrow> meter \<Rightarrow> meter" where
  "lum_rn8209cInitEnergyData M m =
     (let tr = flash_calls (meterTrace m);
          m1 = m\<lparr>g_energyData := \<lparr>energyOffset = 0, energyData = 0, energyCurData = 0\<rparr>\<rparr>;
          energyFlag = word_at (overlay (hfuflash_read M tr ENERGY_DATA_OFFSET ENERGY_DATA_SIZE)
                         (le32 (uninitialised_word M (meterTrace m)))) 0
      in if energyFlag \<noteq> ENERGY_DATA_FLAG then lum_rn8209cClearEnergyData False m1
         else m1\<lparr>g_energyData := energy_scan M tr 0 (g_energyData m1)\<rparr>)"

definition lum_rn8209cSaveEnergyData :: "u32 \<Rightarrow> meter \<Rightarrow> meter" where
  "lum_rn8209cSaveEnergyData e m =
     (let m1 = (if energyOffset (g_energyData m) \<ge> ENERGY_DATA_TOTAL_SIZE
                then lum_rn8209cClearEnergyData True m else m);
          off = energyOffset (g_energyData m1)
      in (mcall (Flash (Flash_write (ENERGY_DATA_OFFSET + unat off) (le32 e))) m1)
           \<lparr>g_energyData := (g_energyData m1)\<lparr>energyOffset := off + ENERGY_DATA_SIZE\<rparr>\<rparr>)"

definition lum_rn8209cAddEnergyData :: "meter \<Rightarrow> meter" where
  "lum_rn8209cAddEnergyData m =
     (let cur = energyCurData (g_energyData m) + 1
      in if cur \<ge> ENERGY_SAVE_DATA_GAP
         then let e = energyData (g_energyData m) + cur
              in lum_rn8209cSaveEnergyData e (m\<lparr>g_energyData := (g_energyData m)\<lparr>energyData := e, energyCurData := 0\<rparr>\<rparr>)
         else m\<lparr>g_energyData := (g_energyData m)\<lparr>energyCurData := cur\<rparr>\<rparr>)"

definition lum_rn8209cGetUData :: "meter \<Rightarrow> u32" where
  "lum_rn8209cGetUData m =
     (energyData (g_energyData m) + energyCurData (g_energyData m)) * 100 div RN8209C_DEFAULT_EC"

section \<open>Frames of the UART\<close>

text \<open>The \<open>dataLen\<close> of the code is the length of the list, a U8.\<close>

definition rn8209cGetChecksun :: "u8 \<Rightarrow> u8 list \<Rightarrow> u8" where
  "rn8209cGetChecksun cmd dat =
     (if dat = [] then 0
      else ucast (NOT (fold (\<lambda>b (totalSun :: u32). totalSun + ucast b) dat (ucast cmd) AND 0xFF)))"

definition rn8209cSetUartBaudrate :: "meter_sdk \<Rightarrow> meter \<Rightarrow> bool \<times> meter" where
  "rn8209cSetUartBaudrate M m =
     (let rsp = hfat_uart_cmd M (meterTrace m);
          m1 = mcall (Uart_at (ascii ''AT+UART=0'' @ crlf)) m
      in if rsp_ok rsp
         then if take 8 rsp \<noteq> ascii ''+ok=4800''
              then (rsp_ok (hfat_uart_cmd M (meterTrace m1)), mcall (Uart_at (ascii ''AT+UART=4800,8,1,EVEN,NFC'' @ crlf)) m1)
              else (True, m1)
         else (False, m1))"

definition rn8209cWriteFrame :: "u8 \<Rightarrow> u8 list \<Rightarrow> meter \<Rightarrow> meter option" where
  "rn8209cWriteFrame addr dat m = do {
     let cmd = addr OR 0x80;
     b1 \<leftarrow> wrs (replicate RN9029C_MAX_DATA_LEN 0) 0 (cmd # rev dat);
     b2 \<leftarrow> wrs b1 (length dat + 1) [rn8209cGetChecksun cmd dat];
     Some (mcall (Uart_send (take (length dat + 2) b2)) m)
   }"

text \<open>The loop of \<open>rn8209cReadFrame\<close> with the tries that are left; the result is what was received.\<close>

primrec frame_loop :: "nat \<Rightarrow> meter_sdk \<Rightarrow> nat \<Rightarrow> u8 list \<Rightarrow> meter \<Rightarrow> nat \<times> u8 list \<times> meter" where
  "frame_loop 0 M totalRead got m = (0, got, m)"
| "frame_loop (Suc n) M totalRead got m =
     (if length got < totalRead
      then let k = totalRead - length got;
               bs = (case hfuart_recv M (meterTrace m) k of None \<Rightarrow> [] | Some bs \<Rightarrow> take k bs)
           in frame_loop n M totalRead (got @ bs) (mcall (Uart_recv k) m)
      else (Suc n, got, m))"

text \<open>\<open>buf\<close> is the variable of the caller that receives the bytes, the last one first.\<close>

definition rn8209cReadFrame :: "meter_sdk \<Rightarrow> u8 \<Rightarrow> u8 list \<Rightarrow> nat \<Rightarrow> meter \<Rightarrow> ((bool \<times> u8 list) \<times> meter) option" where
  "rn8209cReadFrame M addr buf readLen m =
     (let m1 = mcall (Uart_send [addr AND 0x7F]) (mcall (Uart_recv RN9029C_MAX_DATA_LEN) m);
          (left, got, m2) = frame_loop 10 M (readLen + 1) [] m1
      in if left > 0
         then do {
           readBuf \<leftarrow> wrs (replicate RN9029C_MAX_DATA_LEN 0) 0 got;
           check \<leftarrow> rd readBuf readLen;
           if rn8209cGetChecksun addr (take readLen readBuf) = check
           then do { buf' \<leftarrow> wrs buf 0 (rev (take readLen readBuf)); Some ((True, buf'), m2) }
           else Some ((False, buf), m2)
         }
         else Some ((False, buf), m2))"

definition rn8209cUartInit :: "meter_sdk \<Rightarrow> meter \<Rightarrow> meter" where
  "rn8209cUartInit M m = mcall (Uart_recv 200)
     (snd (rn8209cSetUartBaudrate M (mcall (Meter_sleep 10) (mcall Uart_open m))))"

definition lum_rn8209cChipInit :: "meter_sdk \<Rightarrow> meter \<Rightarrow> meter option" where
  "lum_rn8209cChipInit M m = do {
     m1 \<leftarrow> rn8209cWriteFrame RN8209C_EA [RN8209C_CMD_RESET] (rn8209cUartInit M m);
     (_, m2) \<leftarrow> rn8209cReadFrame M RN8209C_DeviceID (replicate 4 0) 3 (mcall (Meter_sleep 300) m1);
     m3 \<leftarrow> rn8209cWriteFrame RN8209C_EA [RN9208C_WRITE_EN] m2;
     m4 \<leftarrow> rn8209cWriteFrame RN8209C_EA [RN8209C_PATH_A] m3;
     m5 \<leftarrow> rn8209cWriteFrame RN8209C_HFConst (le16 (rn8209cHFCost (g_rn8209cCaliData m4))) m4;
     rn8209cWriteFrame RN8209C_EA [RN8209C_WRITE_PROTECT] m5
   }"

section \<open>Calibration data\<close>

definition lum_rn8209cSaveCaliData :: "meter \<Rightarrow> meter" where
  "lum_rn8209cSaveCaliData m = mcall (Cali_saved (g_rn8209cCaliData m)) m"

definition rn8209cClearCalibraterData :: "meter \<Rightarrow> meter" where
  "rn8209cClearCalibraterData m = mcall Meter_sys_reset (mcall (Meter_sleep 100) (lum_rn8209cSaveCaliData
     (m\<lparr>g_rn8209cCaliData := \<lparr>rn8209cHFCost = 0, rn8209cKP = 0, rn8209cKI = 0, rn8209cKV = 0\<rparr>\<rparr>)))"

definition lum_rn8209cInitCaliData :: "meter \<Rightarrow> meter" where
  "lum_rn8209cInitCaliData m =
     (let c = g_rn8209cCaliData m;
          c' = \<lparr>rn8209cHFCost = (if rn8209cHFCost c = 0 then RN8209C_DEFAULT_HFCOST else rn8209cHFCost c),
                rn8209cKP = (if rn8209cKP c = 0 then RN8209C_DEFAULT_KP else rn8209cKP c),
                rn8209cKI = (if rn8209cKI c = 0 then RN8209C_DEFAULT_KI else rn8209cKI c),
                rn8209cKV = (if rn8209cKV c = 0 then RN8209C_DEFAULT_KV else rn8209cKV c)\<rparr>;
          needSave = (rn8209cHFCost c = 0 \<or> rn8209cKI c = 0 \<or> rn8209cKV c = 0 \<or> rn8209cKP c = 0);
          m1 = m\<lparr>g_rn8209cCaliData := c'\<rparr>
      in if needSave then lum_rn8209cSaveCaliData m1 else m1)"

definition lum_rn8209cInitCfPin :: "meter \<Rightarrow> meter" where
  "lum_rn8209cInitCfPin m = mcall Cf_interrupt m"

definition lum_rn8209cCfIrq :: "meter \<Rightarrow> meter" where
  "lum_rn8209cCfIrq m = lum_rn8209cAddEnergyData m"

definition lum_rn8209cInit :: "meter_sdk \<Rightarrow> meter \<Rightarrow> meter option" where
  "lum_rn8209cInit M m = map_option lum_rn8209cInitCfPin
     (lum_rn8209cChipInit M (lum_rn8209cInitEnergyData M (lum_rn8209cInitCaliData m)))"

section \<open>Measuring\<close>

text \<open>Fields of C type \<open>int\<close>; a result that does not fit is a fault, and so is a division by zero.\<close>

record measure_data_info =
  reco_irms :: int
  reco_urms :: int
  reco_powerp :: int

record meature_energy_data =
  urms :: u16
  irms :: u16
  powerP :: u32
  energyU :: u32

definition s32 :: "int \<Rightarrow> int option" where
  "s32 x = (if - (2 ^ 31) \<le> x \<and> x < 2 ^ 31 then Some x else None)"

definition quot :: "int \<Rightarrow> int \<Rightarrow> int option" where
  "quot x y = (if y = 0 then None else Some (sgn x * sgn y * (\<bar>x\<bar> div \<bar>y\<bar>)))"

text \<open>\<open>reco_irms\<close> is not written.\<close>

definition lum_rn8209cReadIVPData ::
    "meter_sdk \<Rightarrow> measure_data_info \<Rightarrow> meter \<Rightarrow> (measure_data_info \<times> meter) option" where
  "lum_rn8209cReadIVPData M info m = do {
     ((_, b1), m1) \<leftarrow> rn8209cReadFrame M RN8209C_URMS (replicate 4 0) 3 m;
     let u = of_le32 b1;
     ((_, b2), m2) \<leftarrow> rn8209cReadFrame M RN8209C_PowerPA (replicate 4 0) 4 m1;
     let p = of_le32 b2;
     Some (info\<lparr>reco_urms := (if u AND 0x800000 \<noteq> 0 then 0 else uint u),
                reco_powerp := (if p AND 0x80000000 \<noteq> 0 then 0 else uint p)\<rparr>, m2)
   }"

definition uninitialised_info :: "meter_sdk \<Rightarrow> meter \<Rightarrow> measure_data_info" where
  "uninitialised_info M m = \<lparr>reco_irms = uninitialised_int M (meterTrace m),
     reco_urms = uninitialised_int M (meterTrace m), reco_powerp = uninitialised_int M (meterTrace m)\<rparr>"

definition lum_rn8209cGetIVPData :: "meter_sdk \<Rightarrow> meter \<Rightarrow> (meature_energy_data \<times> meter) option" where
  "lum_rn8209cGetIVPData M m = do {
     (info, m1) \<leftarrow> lum_rn8209cReadIVPData M (uninitialised_info M m) m;
     let c = g_rn8209cCaliData m1;
     v \<leftarrow> quot (reco_urms info) (uint (rn8209cKV c));
     p10 \<leftarrow> s32 (reco_powerp info * 10);
     p \<leftarrow> quot p10 (uint (rn8209cKP c));
     let volt = (of_int v :: u16);
     let power = (of_int p :: u32);
     if volt = 0 then None
     else Some (\<lparr>urms = volt, irms = ucast (power * 10 div ucast volt), powerP = power,
            energyU = lum_rn8209cGetUData m1\<rparr>, m1)
   }"

text \<open>One pass of each of the two loops over five measurements.\<close>

definition cali_add :: "meature_energy_data \<Rightarrow> meature_energy_data \<Rightarrow> meature_energy_data" where
  "cali_add s x = s\<lparr>urms := urms s + urms x, irms := irms s + irms x, powerP := powerP s + powerP x\<rparr>"

primrec cali_loop :: "nat \<Rightarrow> meter_sdk \<Rightarrow> meature_energy_data \<Rightarrow> meter \<Rightarrow> (meature_energy_data \<times> meter) option" where
  "cali_loop 0 M s m = Some (s, m)"
| "cali_loop (Suc n) M s m = do {
     (x, m1) \<leftarrow> lum_rn8209cGetIVPData M m;
     cali_loop n M (cali_add s x) (mcall (Meter_sleep 100) m1)
   }"

definition lum_rn8209cGetIVPDataCali :: "meter_sdk \<Rightarrow> meter \<Rightarrow> (meature_energy_data \<times> meter) option" where
  "lum_rn8209cGetIVPDataCali M m = map_option
     (\<lambda>(s, m1). (s\<lparr>urms := urms s div MAX_CALIBRATE_READ_COUNT, irms := irms s div MAX_CALIBRATE_READ_COUNT,
        powerP := powerP s div MAX_CALIBRATE_READ_COUNT\<rparr>, m1))
     (cali_loop MAX_CALIBRATE_READ_COUNT M \<lparr>urms = 0, irms = 0, powerP = 0, energyU = 0\<rparr> m)"

primrec kdata_loop :: "nat \<Rightarrow> meter_sdk \<Rightarrow> measure_data_info \<Rightarrow> measure_data_info \<Rightarrow> meter \<Rightarrow>
    (measure_data_info \<times> meter) option" where
  "kdata_loop 0 M tmp s m = Some (s, m)"
| "kdata_loop (Suc n) M tmp s m = do {
     (x, m1) \<leftarrow> lum_rn8209cReadIVPData M tmp m;
     i \<leftarrow> s32 (reco_irms s + reco_irms x);
     u \<leftarrow> s32 (reco_urms s + reco_urms x);
     p \<leftarrow> s32 (reco_powerp s + reco_powerp x);
     kdata_loop n M x \<lparr>reco_irms = i, reco_urms = u, reco_powerp = p\<rparr> (mcall (Meter_sleep 100) m1)
   }"

definition lum_rn8209cCalcCaliKdata :: "meter_sdk \<Rightarrow> meature_energy_data \<Rightarrow> meter \<Rightarrow> meter option" where
  "lum_rn8209cCalcCaliKdata M pMeatureData m = do {
     (s, m1) \<leftarrow> kdata_loop MAX_CALIBRATE_READ_COUNT M (uninitialised_info M m)
                  \<lparr>reco_irms = 0, reco_urms = 0, reco_powerp = 0\<rparr> m;
     i5 \<leftarrow> quot (reco_irms s) MAX_CALIBRATE_READ_COUNT;
     u5 \<leftarrow> quot (reco_urms s) MAX_CALIBRATE_READ_COUNT;
     p5 \<leftarrow> quot (reco_powerp s) MAX_CALIBRATE_READ_COUNT;
     ki \<leftarrow> quot i5 (uint (irms pMeatureData));
     kv \<leftarrow> quot u5 (uint (urms pMeatureData));
     p10 \<leftarrow> s32 (p5 * 10);
     if powerP pMeatureData = 0 then None
     else let kp = ucast ((of_int p10 :: u32) div powerP pMeatureData) :: u16 in do {
       hf \<leftarrow> quot (RN8209C_HF_COST_KPEC * uint kp) RN8209C_DEFAULT_EC;
       Some (m1\<lparr>g_rn8209cCaliData := \<lparr>rn8209cHFCost = of_int hf, rn8209cKP = kp, rn8209cKI = of_int ki,
          rn8209cKV = of_int kv\<rparr>\<rparr>)
     }
   }"

definition lum_saveKData :: "meter \<Rightarrow> meter" where
  "lum_saveKData m = lum_rn8209cSaveCaliData (lum_rn8209cClearEnergyData True m)"

section \<open>Energy messages\<close>

definition lum_startReportEnergyUdataTimer :: "nat \<Rightarrow> meter \<Rightarrow> meter" where
  "lum_startReportEnergyUdataTimer timerGap m =
     mcall (Report_timer_period timerGap)
       (if \<not> reportEnergyTimer m
        then (mcall (Report_timer_create timerGap) m)\<lparr>reportEnergyTimer := True\<rparr> else m)"

definition lum_EnergyDataTimerCallback :: "sdk \<Rightarrow> device \<times> meter \<Rightarrow> (device \<times> meter) option" where
  "lum_EnergyDataTimerCallback E s = map_option
     (\<lambda>(_, d). (d, lum_startReportEnergyUdataTimer RESEND_ENERGY_DATA_TIMER_GAP (snd s)))
     (insertLocalMsgToList E MSG_LOCAL_EVENT None 0 MSG_CMD_REPORT_ENERGY_DATA (fst s))"

text \<open>\<open>bcdData\<close> is a U16.\<close>

definition lum_coverBcdfFormat :: "u32 \<Rightarrow> u32" where
  "lum_coverBcdfFormat dat =
     ucast (fst (fold (\<lambda>i (bcdData :: u16, tmpData).
       (bcdData + ucast (push_bit (4 * i) (tmpData mod 10)), tmpData div 10)) [0..<8] (0, dat)))"

definition lum_fillEnergyData :: "meter_sdk \<Rightarrow> meter \<Rightarrow> (u8 list \<times> meter) option" where
  "lum_fillEnergyData M m = do {
     (e, m1) \<leftarrow> lum_rn8209cGetIVPData M m;
     let energyI = (ucast (lum_coverBcdfFormat (ucast (irms e))) :: u16);
     let energyV = (ucast (lum_coverBcdfFormat (ucast (urms e))) :: u16);
     let energyP = lum_coverBcdfFormat (powerP e);
     let energyUdata = lum_coverBcdfFormat (energyU e);
     Some (le16 (htons energyV) @ le16 (htons energyI) @ le32 (htonl energyP) @ le32 (htonl energyUdata), m1)
   }"

definition lum_queryEnergyData ::
    "sdk \<Rightarrow> meter_sdk \<Rightarrow> msg_node_body \<Rightarrow> device \<times> meter \<Rightarrow> (device \<times> meter) option" where
  "lum_queryEnergyData E M pNode s = do {
     (bytes, m) \<leftarrow> lum_fillEnergyData M (snd s);
     d \<leftarrow> reply E (ucast (cmdData pNode) # bytes) pNode (fst s);
     Some (d, m)
   }"

definition lum_localReportEnergyUdata ::
    "sdk \<Rightarrow> msg_node_body \<Rightarrow> device \<times> meter \<Rightarrow> (device \<times> meter) option" where
  "lum_localReportEnergyUdata E pNode s = do {
     let energyUdata = lum_coverBcdfFormat (lum_rn8209cGetUData (snd s));
     d \<leftarrow> request E (MSG_CMD_REPORT_ENERGY_DATA # le32 (htonl energyUdata))
            (pNode\<lparr>msgOrigin := MSG_FROM_TCP\<rparr>) (fst s);
     Some (d, lum_startReportEnergyUdataTimer RESEND_ENERGY_DATA_TIMER_GAP (snd s))
   }"

definition lum_replyEnergyUdata :: "msg_node_body \<Rightarrow> device \<times> meter \<Rightarrow> (device \<times> meter) option" where
  "lum_replyEnergyUdata pNode s = do {
     ret \<leftarrow> body_byte pNode 1;
     Some (if ret = REBACK_SUCCESS_MESSAGE
       then (fst s, lum_startReportEnergyUdataTimer REPORT_ENERGY_DATA_TIMER_GAP (snd s)) else s)
   }"

text \<open>The meter's part of the switch in \<open>deviceMessageThread\<close>.\<close>

definition meter_dispatch ::
    "sdk \<Rightarrow> meter_sdk \<Rightarrow> msg_node_body \<Rightarrow> device \<times> meter \<Rightarrow> (device \<times> meter) option" where
  "meter_dispatch E M b s =
     (if cmdData b = MSG_CMD_QUERY_ENERGY_DATA then lum_queryEnergyData E M b s
      else if cmdData b = MSG_CMD_REPORT_ENERGY_DATA
        then if msgOrigin b = MSG_LOCAL_EVENT then lum_localReportEnergyUdata E b s
             else lum_replyEnergyUdata b s
      else Some s)"

section \<open>The energy counter in flash\<close>

text \<open>
  The page holds the flag and the saved totals \<open>es\<close>, the rest is erased; the variables agree.
\<close>

definition energy_page :: "(nat \<Rightarrow> u8) \<Rightarrow> flash_call list \<Rightarrow> u32 list \<Rightarrow> bool" where
  "energy_page z tr es \<longleftrightarrow> length es < 1024 \<and> 0xFFFFFFFF \<notin> set es \<and>
     (\<forall>k < 1024. flash_bytes z tr (ENERGY_DATA_OFFSET + 4 * k) 4
        = (if k \<le> length es then le32 ((ENERGY_DATA_FLAG # es) ! k) else replicate 4 0xFF))"

definition last_total :: "u32 list \<Rightarrow> u32" where
  "last_total es = (if es = [] then 0 else last es)"

definition energy_log :: "(nat \<Rightarrow> u8) \<Rightarrow> meter \<Rightarrow> u32 list \<Rightarrow> bool" where
  "energy_log z m es \<longleftrightarrow> energy_page z (flash_calls (meterTrace m)) es
     \<and> energyOffset (g_energyData m) = of_nat (4 * Suc (length es))
     \<and> energyData (g_energyData m) = last_total es
     \<and> energyCurData (g_energyData m) < ENERGY_SAVE_DATA_GAP"

definition pulses :: "meter \<Rightarrow> nat" where
  "pulses m = unat (energyData (g_energyData m)) + unat (energyCurData (g_energyData m))"

lemma energy_page_word:
  assumes "energy_page z tr es" "k < 1024"
  shows "of_le32 (flash_bytes z tr (ENERGY_DATA_OFFSET + 4 * k) 4)
    = (if k \<le> length es then (ENERGY_DATA_FLAG # es) ! k else 0xFFFFFFFF)"
  using assms by (simp add: energy_page_def of_le32_ones)

lemma energy_page_used:
  assumes "energy_page z tr es" "k < 1024"
  shows "of_le32 (flash_bytes z tr (ENERGY_DATA_OFFSET + 4 * k) 4) = 0xFFFFFFFF \<longleftrightarrow> length es < k"
proof -
  have "(ENERGY_DATA_FLAG # es) ! k \<noteq> 0xFFFFFFFF" if "k \<le> length es"
  proof (cases k)
    case (Suc i)
    then have "es ! i \<in> set es" using that by simp
    then show ?thesis using assms(1) Suc by (auto simp: energy_page_def)
  qed simp
  then show ?thesis using energy_page_word [OF assms] by auto
qed

text \<open>Block \<open>j\<close> as the search sees it.\<close>

lemma energy_block:
  assumes "flash_works z (hfuflash_read M)" "energy_page z tr es" "j < 32"
  defines "got \<equiv> take 128 (hfuflash_read M tr (ENERGY_DATA_OFFSET + 128 * j) 128)"
  shows "got \<noteq> []" "length got = 128"
    "\<And>i. i < 32 \<Longrightarrow> word_at (overlay got (replicate 128 0)) i = 0xFFFFFFFF \<longleftrightarrow> length es < 32 * j + i"
proof -
  have got: "got = flash_bytes z tr (ENERGY_DATA_OFFSET + 128 * j) 128"
    using assms(1) by (simp add: got_def flash_works_def)
  then show "length got = 128" by simp
  then show "got \<noteq> []" by auto
  fix i :: nat assume i: "i < 32"
  have "word_at (overlay got (replicate 128 0)) i = word_at got i"
    using got by (simp add: overlay_def)
  also have "word_at got i = of_le32 (flash_bytes z tr (ENERGY_DATA_OFFSET + 4 * (32 * j + i)) 4)"
    using i by (simp add: got word_at_flash algebra_simps)
  finally show "word_at (overlay got (replicate 128 0)) i = 0xFFFFFFFF \<longleftrightarrow> length es < 32 * j + i"
    using energy_page_used [OF assms(2), of "32 * j + i"] assms(3) i by simp
qed

lemma find_first:
  assumes "\<And>i. i < n \<Longrightarrow> P i \<longleftrightarrow> k \<le> i" "k < n"
  shows "find P [0..<n] = Some k"
  using assms by (auto simp: find_Some_iff intro!: exI [of _ k])

lemma energy_scan_finds:
  assumes E: "flash_works z (hfuflash_read M)" and p: "energy_page z tr es" and n: "length es < 1023"
  shows "j \<le> Suc (length es) div 32 \<Longrightarrow> energy_scan M tr (128 * j) g
    = g\<lparr>energyOffset := of_nat (4 * Suc (length es)), energyData := last_total es\<rparr>"
proof (induction "Suc (length es) div 32 - j" arbitrary: j)
  case 0
  then have j: "j = Suc (length es) div 32" "j < 32" using n by auto
  note b = energy_block [OF E p j(2)]
  define i where "i = Suc (length es) mod 32"
  have at: "32 * j + i = Suc (length es)" by (simp add: j(1) i_def)
  have full: "word_at (overlay (take 128 (hfuflash_read M tr (ENERGY_DATA_OFFSET + 128 * j) 128)) (replicate 128 0)) 31
      = 0xFFFFFFFF"
    using b(3) [of 31] at i_def by simp
  have i: "find (\<lambda>i. word_at (overlay (take 128 (hfuflash_read M tr (ENERGY_DATA_OFFSET + 128 * j) 128))
      (replicate 128 0)) i = 0xFFFFFFFF) [0..<32] = Some i"
    by (rule find_first) (use b(3) at i_def in auto)
  have off: "128 * j + 4 * i = 4 * Suc (length es)" using at by simp
  have last: "word_at (overlay (hfuflash_read M tr (4 * Suc (length es) + ENERGY_DATA_OFFSET - 4) 4) buf) 0 = last_total es"
    if "es \<noteq> []" "length buf = 128" for buf
  proof -
    have e: "4 * Suc (length es) + ENERGY_DATA_OFFSET - 4 = ENERGY_DATA_OFFSET + 4 * length es" by simp
    have "word_at (overlay (flash_bytes z tr (ENERGY_DATA_OFFSET + 4 * length es) 4) buf) 0
        = of_le32 (flash_bytes z tr (ENERGY_DATA_OFFSET + 4 * length es) 4)"
      using that(2) by (simp add: word_at_def overlay_def)
    also have "\<dots> = last es"
      using energy_page_word [OF p, of "length es"] that(1) n by (simp add: last_conv_nth nth_Cons')
    finally show ?thesis using E that(1) by (simp add: e flash_works_def last_total_def)
  qed
  have inside: "\<not> ENERGY_DATA_TOTAL_SIZE \<le> 128 * j" using j(2) by simp
  have first: "(4 * Suc (length es) = 4) = (es = [])" by simp
  have len: "length (overlay (take 128 (hfuflash_read M tr (ENERGY_DATA_OFFSET + 128 * j) 128)) (replicate 128 0)) = 128"
    by (simp add: overlay_def)
  show ?case
    unfolding energy_scan.simps [of M tr "128 * j"] Let_def if_not_P [OF inside] if_not_P [OF b(1)] if_P [OF full] i
    using last [OF _ len] by (simp add: off first last_total_def del: mult_Suc_right)
next
  case (Suc x)
  have "Suc (length es) div 32 < 32" using n by (simp add: div_less_iff_less_mult)
  moreover have "Suc j \<le> Suc (length es) div 32" using Suc(2) by linarith
  ultimately have j: "j < 32" "Suc j \<le> Suc (length es) div 32" by linarith+
  note b = energy_block [OF E p j(1)]
  have "32 * Suc j \<le> Suc (length es)"
    using mult_le_mono2 [OF j(2), of 32] times_div_less_eq_dividend [of 32 "Suc (length es)"] by (rule order_trans)
  then have busy: "word_at (overlay (take 128 (hfuflash_read M tr (ENERGY_DATA_OFFSET + 128 * j) 128)) (replicate 128 0)) 31
      \<noteq> 0xFFFFFFFF"
    using b(3) [of 31] by simp
  have inside: "\<not> ENERGY_DATA_TOTAL_SIZE \<le> 128 * j" using j(1) by simp
  have "energy_scan M tr (128 * j) g = energy_scan M tr (128 * j + 128) g"
    unfolding energy_scan.simps [of M tr "128 * j"] Let_def if_not_P [OF inside] if_not_P [OF b(1)] if_not_P [OF busy]
    by (simp only: b(2))
  also have "128 * j + 128 = 128 * Suc j" by simp
  finally show ?case using Suc(1) [of "Suc j"] Suc(2) j(2) by simp
qed

lemma energy_page_append:
  assumes "energy_page z tr es" "length es < 1023" "e \<noteq> 0xFFFFFFFF"
  shows "energy_page z (Flash_write (ENERGY_DATA_OFFSET + 4 * Suc (length es)) (le32 e) # tr) (es @ [e])"
proof -
  let ?at = "ENERGY_DATA_OFFSET + 4 * Suc (length es)"
  have "flash_bytes z (Flash_write ?at (le32 e) # tr) (ENERGY_DATA_OFFSET + 4 * k) 4
      = (if k \<le> length (es @ [e]) then le32 ((ENERGY_DATA_FLAG # es @ [e]) ! k) else replicate 4 0xFF)"
    if k: "k < 1024" for k
  proof (cases "k = Suc (length es)")
    case True
    have "flash_bytes z tr ?at (length (le32 e)) = replicate (length (le32 e)) 0xFF"
      using assms(1,2) by (simp add: energy_page_def del: mult_Suc_right)
    then have "flash_bytes z (Flash_write ?at (le32 e) # tr) ?at (length (le32 e)) = le32 e"
      by (rule written_to_erased)
    moreover have "(ENERGY_DATA_FLAG # es @ [e]) ! k = e" by (simp add: True)
    ultimately show ?thesis by (simp add: True del: mult_Suc_right)
  next
    case False
    then have "flash_bytes z (Flash_write ?at (le32 e) # tr) (ENERGY_DATA_OFFSET + 4 * k) 4
        = flash_bytes z tr (ENERGY_DATA_OFFSET + 4 * k) 4"
      by (intro written_elsewhere) (simp only: length_le32, arith)
    also have "\<dots> = (if k \<le> length es then le32 ((ENERGY_DATA_FLAG # es) ! k) else replicate 4 0xFF)"
      using assms(1) k by (simp add: energy_page_def)
    also have "\<dots> = (if k \<le> length (es @ [e]) then le32 ((ENERGY_DATA_FLAG # es @ [e]) ! k) else replicate 4 0xFF)"
      using False by (auto simp: nth_append nth_Cons')
    finally show ?thesis .
  qed
  then show ?thesis using assms by (simp add: energy_page_def)
qed

lemma energy_page_clear:
  "energy_page z (Flash_write ENERGY_DATA_OFFSET (le32 ENERGY_DATA_FLAG) # Flash_erase ENERGY_DATA_OFFSET 1 # tr) []"
proof -
  let ?tr = "Flash_erase ENERGY_DATA_OFFSET 1 # tr"
  have e: "flash_bytes z ?tr (ENERGY_DATA_OFFSET + 4 * k) 4 = replicate 4 0xFF" if "k < 1024" for k
    by (rule erased) (use that in simp_all)
  have "flash_bytes z (Flash_write ENERGY_DATA_OFFSET (le32 ENERGY_DATA_FLAG) # ?tr) ENERGY_DATA_OFFSET
      (length (le32 ENERGY_DATA_FLAG)) = le32 ENERGY_DATA_FLAG"
    by (rule written_to_erased) (use e [of 0] in simp)
  moreover have "flash_bytes z (Flash_write ENERGY_DATA_OFFSET (le32 ENERGY_DATA_FLAG) # ?tr) (ENERGY_DATA_OFFSET + 4 * k) 4
      = replicate 4 0xFF" if "0 < k" "k < 1024" for k
    using written_elsewhere [of "ENERGY_DATA_OFFSET + 4 * k" 4 ENERGY_DATA_OFFSET "le32 ENERGY_DATA_FLAG" z ?tr]
      e [OF that(2)] that by simp
  ultimately show ?thesis by (auto simp: energy_page_def)
qed

lemma energy_clear:
  "energy_page z (flash_calls (meterTrace (lum_rn8209cClearEnergyData b m))) []"
  "energyOffset (g_energyData (lum_rn8209cClearEnergyData b m)) = 4"
  "energyData (g_energyData (lum_rn8209cClearEnergyData True m)) = energyData (g_energyData m)"
  "energyCurData (g_energyData (lum_rn8209cClearEnergyData True m)) = energyCurData (g_energyData m)"
  using energy_page_clear by (simp_all add: lum_rn8209cClearEnergyData_def mcall_def Let_def)

lemma energy_save:
  assumes "energy_page z (flash_calls (meterTrace m)) es"
    "energyOffset (g_energyData m) = of_nat (4 * Suc (length es))" "e \<noteq> 0xFFFFFFFF"
  defines "m' \<equiv> lum_rn8209cSaveEnergyData e m"
  shows "\<exists>es'. energy_page z (flash_calls (meterTrace m')) (es' @ [e])
      \<and> energyOffset (g_energyData m') = of_nat (4 * Suc (length (es' @ [e])))"
    "energyData (g_energyData m') = energyData (g_energyData m)"
    "energyCurData (g_energyData m') = energyCurData (g_energyData m)"
proof -
  have len: "length es < 1024" using assms(1) by (simp add: energy_page_def)
  have off: "unat (of_nat (4 * Suc (length es)) :: u32) = 4 * Suc (length es)"
    using len by (simp only: unat_of_nat) (simp add: take_bit_nat_eq_self_iff)
  have full: "energyOffset (g_energyData m) \<ge> ENERGY_DATA_TOTAL_SIZE \<longleftrightarrow> \<not> length es < 1023"
    unfolding assms(2) word_le_nat_alt off using len by (simp add: not_less)
  define m1 where "m1 = (if energyOffset (g_energyData m) \<ge> ENERGY_DATA_TOTAL_SIZE
    then lum_rn8209cClearEnergyData True m else m)"
  define es' where "es' = (if length es < 1023 then es else [])"
  have m1: "energy_page z (flash_calls (meterTrace m1)) es'"
    "energyOffset (g_energyData m1) = of_nat (4 * Suc (length es'))"
    using assms(1,2) full energy_clear(1,2) by (simp_all add: m1_def es'_def)
  have es': "length es' < 1023" by (simp add: es'_def)
  have off': "unat (of_nat (4 * Suc (length es')) :: u32) = 4 * Suc (length es')"
    using es' by (simp only: unat_of_nat) (simp add: take_bit_nat_eq_self_iff)
  have "energy_page z (Flash_write (ENERGY_DATA_OFFSET + 4 * Suc (length es')) (le32 e) # flash_calls (meterTrace m1)) (es' @ [e])"
    by (rule energy_page_append [OF m1(1) es' assms(3)])
  then have page: "energy_page z (flash_calls (meterTrace m')) (es' @ [e])"
    unfolding m'_def lum_rn8209cSaveEnergyData_def Let_def m1_def [symmetric] m1(2) off'
    by (simp add: mcall_def)
  have "energyOffset (g_energyData m') = of_nat (4 * Suc (length (es' @ [e])))"
    by (simp add: m'_def lum_rn8209cSaveEnergyData_def Let_def m1_def [symmetric] m1(2))
  with page show "\<exists>es'. energy_page z (flash_calls (meterTrace m')) (es' @ [e])
      \<and> energyOffset (g_energyData m') = of_nat (4 * Suc (length (es' @ [e])))" by blast
  show "energyData (g_energyData m') = energyData (g_energyData m)"
    "energyCurData (g_energyData m') = energyCurData (g_energyData m)"
    by (simp_all add: m'_def lum_rn8209cSaveEnergyData_def Let_def energy_clear(3,4))
qed

lemma energy_pulse:
  assumes log: "energy_log z m es" and small: "pulses m < 2 ^ 32 - 2"
  shows "\<exists>es'. energy_log z (lum_rn8209cCfIrq m) es'" "pulses (lum_rn8209cCfIrq m) = Suc (pulses m)"
proof -
  let ?g = "g_energyData m"
  have cur: "energyCurData ?g < 50" using log by (simp add: energy_log_def)
  then have c1: "unat (energyCurData ?g + 1) = Suc (unat (energyCurData ?g))"
    by (simp add: unat_word_ariths(1) word_less_nat_alt)
  have "(\<exists>es'. energy_log z (lum_rn8209cCfIrq m) es') \<and> pulses (lum_rn8209cCfIrq m) = Suc (pulses m)"
  proof (cases "energyCurData ?g + 1 \<ge> 50")
    case False
    then have "lum_rn8209cCfIrq m = m\<lparr>g_energyData := ?g\<lparr>energyCurData := energyCurData ?g + 1\<rparr>\<rparr>"
      by (simp add: lum_rn8209cCfIrq_def lum_rn8209cAddEnergyData_def Let_def)
    then show ?thesis using log False c1 by (auto simp: energy_log_def pulses_def not_le)
  next
    case True
    define e where "e = energyData ?g + (energyCurData ?g + 1)"
    define m1 where "m1 = m\<lparr>g_energyData := ?g\<lparr>energyData := e, energyCurData := 0\<rparr>\<rparr>"
    have run: "lum_rn8209cCfIrq m = lum_rn8209cSaveEnergyData e m1"
      using True by (simp add: lum_rn8209cCfIrq_def lum_rn8209cAddEnergyData_def Let_def e_def m1_def)
    have e: "unat e = Suc (pulses m)"
      using small c1 by (simp add: e_def pulses_def unat_word_ariths(1))
    have "e \<noteq> 0xFFFFFFFF" using e small by auto
    moreover have "energy_page z (flash_calls (meterTrace m1)) es"
      "energyOffset (g_energyData m1) = of_nat (4 * Suc (length es))"
      using log by (simp_all add: energy_log_def m1_def)
    ultimately have s: "\<exists>es'. energy_page z (flash_calls (meterTrace (lum_rn8209cCfIrq m))) (es' @ [e])
      \<and> energyOffset (g_energyData (lum_rn8209cCfIrq m)) = of_nat (4 * Suc (length (es' @ [e])))"
      "energyData (g_energyData (lum_rn8209cCfIrq m)) = e"
      "energyCurData (g_energyData (lum_rn8209cCfIrq m)) = 0"
      unfolding run using energy_save [of z m1 es e] by (simp_all add: m1_def)
    then obtain es'' where q: "energy_page z (flash_calls (meterTrace (lum_rn8209cCfIrq m))) (es'' @ [e])"
      "energyOffset (g_energyData (lum_rn8209cCfIrq m)) = of_nat (4 * Suc (length (es'' @ [e])))" by blast
    have "energy_log z (lum_rn8209cCfIrq m) (es'' @ [e])"
      unfolding energy_log_def by (intro conjI q) (simp_all add: s(2,3) last_total_def)
    moreover have "pulses (lum_rn8209cCfIrq m) = unat e" by (simp add: pulses_def s(2,3))
    ultimately show ?thesis using e by auto
  qed
  then show "\<exists>es'. energy_log z (lum_rn8209cCfIrq m) es'" "pulses (lum_rn8209cCfIrq m) = Suc (pulses m)" by auto
qed

lemma energy_pulses:
  "energy_log z m es \<Longrightarrow> pulses m + n < 2 ^ 32 - 1 \<Longrightarrow>
   (\<exists>es'. energy_log z ((lum_rn8209cCfIrq ^^ n) m) es') \<and> pulses ((lum_rn8209cCfIrq ^^ n) m) = pulses m + n"
proof (induction n)
  case (Suc n)
  then obtain es' where "energy_log z ((lum_rn8209cCfIrq ^^ n) m) es'"
    "pulses ((lum_rn8209cCfIrq ^^ n) m) = pulses m + n" by auto
  then show ?case using energy_pulse [of z "(lum_rn8209cCfIrq ^^ n) m" es'] Suc.prems(2) by simp
qed auto

lemma energy_scan_full:
  assumes E: "flash_works z (hfuflash_read M)" and p: "energy_page z tr es" and full: "length es = 1023"
  shows "j \<le> 32 \<Longrightarrow> energy_scan M tr (128 * j) g = g"
proof (induction "32 - j" arbitrary: j)
  case 0
  then have "j = 32" by simp
  then show ?case by (simp add: energy_scan.simps)
next
  case (Suc x)
  then have j: "j < 32" by simp
  note b = energy_block [OF E p j]
  have busy: "word_at (overlay (take 128 (hfuflash_read M tr (ENERGY_DATA_OFFSET + 128 * j) 128)) (replicate 128 0)) 31
      \<noteq> 0xFFFFFFFF"
    using b(3) [of 31] full j by simp
  have inside: "\<not> ENERGY_DATA_TOTAL_SIZE \<le> 128 * j" using j by simp
  have "energy_scan M tr (128 * j) g = energy_scan M tr (128 * j + 128) g"
    unfolding energy_scan.simps [of M tr "128 * j"] Let_def if_not_P [OF inside] if_not_P [OF b(1)] if_not_P [OF busy]
    by (simp only: b(2))
  also have "128 * j + 128 = 128 * Suc j" by simp
  finally show ?case using Suc(1) [of "Suc j"] Suc(2) j by simp
qed

lemma energy_restart:
  assumes E: "flash_works z (hfuflash_read M)" and log: "energy_log z m es"
  shows "length es < 1023 \<Longrightarrow> lum_rn8209cInitEnergyData M m = m\<lparr>g_energyData := (g_energyData m)\<lparr>energyCurData := 0\<rparr>\<rparr>"
    "length es = 1023 \<Longrightarrow> lum_rn8209cInitEnergyData M m =
      m\<lparr>g_energyData := \<lparr>energyOffset = 0, energyData = 0, energyCurData = 0\<rparr>\<rparr>"
proof -
  have p: "energy_page z (flash_calls (meterTrace m)) es" using log by (simp add: energy_log_def)
  have read: "hfuflash_read M (flash_calls (meterTrace m)) ENERGY_DATA_OFFSET 4 = le32 ENERGY_DATA_FLAG"
    using E p by (auto simp: flash_works_def energy_page_def dest: spec [of _ 0])
  have flag: "word_at (le32 w) 0 = w" for w by (simp add: word_at_def)
  show "length es = 1023 \<Longrightarrow> lum_rn8209cInitEnergyData M m =
      m\<lparr>g_energyData := \<lparr>energyOffset = 0, energyData = 0, energyCurData = 0\<rparr>\<rparr>"
    using energy_scan_full [OF E p _ , of 0] by (simp add: lum_rn8209cInitEnergyData_def Let_def read flag)
  show "length es < 1023 \<Longrightarrow> lum_rn8209cInitEnergyData M m = m\<lparr>g_energyData := (g_energyData m)\<lparr>energyCurData := 0\<rparr>\<rparr>"
    using energy_scan_finds [OF E p, of 0] log
    by (simp add: lum_rn8209cInitEnergyData_def Let_def read flag energy_log_def)
qed

text \<open>
  Property C25: the energy counter survives a restart.  From any state whose flash page agrees with
  the variables, any number of pulses is counted one by one; a restart afterwards finds the total
  again up to the at most 49 pulses that were not saved yet.  There is one exception: when the page
  is exactly full, the search for its end fails and the restarted meter counts from zero.
\<close>

theorem energy_survives_restart:
  "flash_works z (hfuflash_read M) \<Longrightarrow> energy_log z m es \<Longrightarrow> pulses m + n < 2 ^ 32 - 1 \<Longrightarrow>
   m' = (lum_rn8209cCfIrq ^^ n) m \<Longrightarrow>
   pulses m' = pulses m + n
   \<and> (if energyOffset (g_energyData m') < ENERGY_DATA_TOTAL_SIZE
      then pulses (lum_rn8209cInitEnergyData M m') \<le> pulses m'
         \<and> pulses m' < pulses (lum_rn8209cInitEnergyData M m') + ENERGY_SAVE_DATA_GAP
      else pulses (lum_rn8209cInitEnergyData M m') = 0)"
proof -
  assume E: "flash_works z (hfuflash_read M)" and log: "energy_log z m es"
    and n: "pulses m + n < 2 ^ 32 - 1" and m': "m' = (lum_rn8209cCfIrq ^^ n) m"
  obtain es' where l: "energy_log z m' es'" "pulses m' = pulses m + n"
    using energy_pulses [OF log n] m' by auto
  have len: "length es' < 1024" using l(1) by (simp add: energy_log_def energy_page_def)
  have off: "unat (of_nat (4 * Suc (length es')) :: u32) = 4 * Suc (length es')"
    using len by (simp only: unat_of_nat) (simp add: take_bit_nat_eq_self_iff)
  have at: "energyOffset (g_energyData m') = of_nat (4 * Suc (length es'))"
    using l(1) by (simp add: energy_log_def)
  have room: "energyOffset (g_energyData m') < ENERGY_DATA_TOTAL_SIZE \<longleftrightarrow> length es' < 1023"
    unfolding at word_less_nat_alt off by simp
  have "unat (energyCurData (g_energyData m')) < 50"
    using l(1) by (simp add: energy_log_def word_less_nat_alt)
  then show ?thesis
    using energy_restart [OF E l(1)] l(2) len room by (auto simp: pulses_def)
qed

text \<open>A meter with an erased flash and a silent chip, just started.\<close>

definition erased_meter_sdk :: meter_sdk where
  "erased_meter_sdk = \<lparr>hfuflash_read = flash_bytes (\<lambda>_. 0xFF), hfuart_recv = \<lambda>_ _. None,
     hfat_uart_cmd = \<lambda>_. [], uninitialised_word = \<lambda>_. 0, uninitialised_int = \<lambda>_. 0\<rparr>"

definition new_meter :: meter where
  "new_meter = \<lparr>g_energyData = \<lparr>energyOffset = 0, energyData = 0, energyCurData = 0\<rparr>,
     g_rn8209cCaliData = \<lparr>rn8209cHFCost = 0, rn8209cKP = 0, rn8209cKI = 0, rn8209cKV = 0\<rparr>,
     reportEnergyTimer = False, meterTrace = []\<rparr>"

lemma first_start_of_meter:
  "energy_log (\<lambda>_. 0xFF) (lum_rn8209cInitEnergyData erased_meter_sdk new_meter) []"
  "pulses (lum_rn8209cInitEnergyData erased_meter_sdk new_meter) = 0"
proof -
  have read: "flash_bytes (\<lambda>_. 0xFF) [] ENERGY_DATA_OFFSET 4 = le32 0xFFFFFFFF"
    by (simp add: flash_bytes_def le32_def map_replicate_const replicate_4 del: upt_Suc)
  have flag: "word_at (le32 w) 0 = w" for w by (simp add: word_at_def)
  have init: "lum_rn8209cInitEnergyData erased_meter_sdk new_meter = lum_rn8209cClearEnergyData False new_meter"
    by (simp add: lum_rn8209cInitEnergyData_def Let_def erased_meter_sdk_def new_meter_def read flag)
  show "energy_log (\<lambda>_. 0xFF) (lum_rn8209cInitEnergyData erased_meter_sdk new_meter) []"
    using energy_clear(1,2) [where b = False and m = new_meter]
    by (simp add: init energy_log_def) (simp add: lum_rn8209cClearEnergyData_def Let_def mcall_def new_meter_def last_total_def)
  show "pulses (lum_rn8209cInitEnergyData erased_meter_sdk new_meter) = 0"
    unfolding init by (simp add: pulses_def lum_rn8209cClearEnergyData_def Let_def mcall_def)
qed

theorem energy_survives_restart_witness:
  "pulses ((lum_rn8209cCfIrq ^^ 60) (lum_rn8209cInitEnergyData erased_meter_sdk new_meter)) = 60"
proof -
  have "flash_works (\<lambda>_. 0xFF) (hfuflash_read erased_meter_sdk)"
    by (simp add: flash_works_def erased_meter_sdk_def)
  then show ?thesis
    using energy_survives_restart [OF _ first_start_of_meter(1) _ refl, of erased_meter_sdk 60]
    by (simp add: first_start_of_meter(2))
qed

section \<open>Measuring\<close>

text \<open>The UART delivers the pieces \<open>cs\<close> when \<open>want\<close> bytes are waited for.\<close>

fun uart_delivers :: "meter_sdk \<Rightarrow> meter_call list \<Rightarrow> nat \<Rightarrow> u8 list list \<Rightarrow> bool" where
  "uart_delivers M tr want [] = (want = 0)"
| "uart_delivers M tr want (c # cs) = (0 < want \<and> length c \<le> want \<and> hfuart_recv M tr want = Some c
     \<and> uart_delivers M (Uart_recv want # tr) (want - length c) cs)"

text \<open>The calls made while the pieces arrive, and the question before.\<close>

fun uart_waits :: "nat \<Rightarrow> u8 list list \<Rightarrow> meter_call list \<Rightarrow> meter_call list" where
  "uart_waits want [] tr = tr"
| "uart_waits want (c # cs) tr = uart_waits (want - length c) cs (Uart_recv want # tr)"

definition asked :: "u8 \<Rightarrow> meter_call list \<Rightarrow> meter_call list" where
  "asked addr tr = Uart_send [addr AND 0x7F] # Uart_recv 100 # tr"

text \<open>The chip answers the question for a register with the bytes \<open>bs\<close>, most significant first.\<close>

definition chip_answers :: "meter_sdk \<Rightarrow> u8 \<Rightarrow> meter_call list \<Rightarrow> u8 list \<Rightarrow> u8 list list \<Rightarrow> bool" where
  "chip_answers M addr tr bs cs \<longleftrightarrow> uart_delivers M (asked addr tr) (length bs + 1) cs
     \<and> length cs \<le> 9 \<and> concat cs = bs @ [rn8209cGetChecksun addr bs]"

lemma frame_loop_delivers:
  "uart_delivers M (meterTrace m) (want - length got) cs \<Longrightarrow> length cs \<le> n \<Longrightarrow> length got \<le> want \<Longrightarrow>
   frame_loop n M want got m = (n - length cs, got @ concat cs,
     m\<lparr>meterTrace := uart_waits (want - length got) cs (meterTrace m)\<rparr>)"
proof (induction cs arbitrary: n got m)
  case Nil
  then show ?case by (cases n) simp_all
next
  case (Cons c cs)
  then obtain k where n: "n = Suc k" by (cases n) auto
  have take: "take (want - length got) c = c" using Cons.prems by simp
  have rest: "want - length (got @ c) = want - length got - length c" by simp
  have "length (got @ c) \<le> want" using Cons.prems by auto
  then show ?case
    using Cons.prems Cons.IH [of "mcall (Uart_recv (want - length got)) m" "got @ c" k]
    by (simp add: n take rest mcall_def Let_def)
qed

lemma chip_answers_frame:
  assumes "chip_answers M addr (meterTrace m) bs cs" "length bs \<le> 4" "length buf = 4"
  shows "rn8209cReadFrame M addr buf (length bs) m =
    Some ((True, rev bs @ drop (length bs) buf), m\<lparr>meterTrace := uart_waits (length bs + 1) cs (asked addr (meterTrace m))\<rparr>)"
proof -
  have c: "uart_delivers M (asked addr (meterTrace m)) (length bs + 1) cs" "length cs \<le> 9"
    "concat cs = bs @ [rn8209cGetChecksun addr bs]"
    using assms(1) by (simp_all add: chip_answers_def)
  define m1 where "m1 = mcall (Uart_send [addr AND 0x7F]) (mcall (Uart_recv 100) m)"
  have m1: "meterTrace m1 = asked addr (meterTrace m)" "m1\<lparr>meterTrace := t\<rparr> = m\<lparr>meterTrace := t\<rparr>" for t
    by (simp_all add: m1_def mcall_def asked_def)
  have loop: "frame_loop 10 M (length bs + 1) [] m1 = (10 - length cs, concat cs,
      m\<lparr>meterTrace := uart_waits (length bs + 1) cs (asked addr (meterTrace m))\<rparr>)"
    using frame_loop_delivers [of M m1 "length bs + 1" "[]" cs 10] c(1,2) by (simp add: m1)
  obtain b where b: "wrs (replicate 100 0) 0 (concat cs) = Some b" "take (length bs) b = bs"
    "rd b (length bs) = Some (rn8209cGetChecksun addr bs)"
    using assms(2) by (simp add: wrs_def c(3) rd_def nth_append)
  have buf: "wrs buf 0 (rev bs) = Some (rev bs @ drop (length bs) buf)"
    using assms(2,3) by (simp add: wrs_def)
  show ?thesis
    unfolding rn8209cReadFrame_def Let_def m1_def [symmetric] loop
    using c(2) by (simp add: b buf)
qed

lemma frame_loop_silent:
  "\<forall>tr k. hfuart_recv M tr k = None \<Longrightarrow> length got < want \<Longrightarrow>
   \<exists>m'. frame_loop n M want got m = (0, got, m') \<and> g_rn8209cCaliData m' = g_rn8209cCaliData m"
proof (induction n arbitrary: m)
  case (Suc n)
  then show ?case using Suc.IH [of "mcall (Uart_recv (want - length got)) m"]
    by (simp add: Let_def mcall_def)
qed simp

lemma silent_frame:
  assumes "\<forall>tr k. hfuart_recv M tr k = None"
  shows "\<exists>m'. rn8209cReadFrame M addr buf n m = Some ((False, buf), m') \<and> g_rn8209cCaliData m' = g_rn8209cCaliData m"
proof -
  define m1 where "m1 = mcall (Uart_send [addr AND 0x7F]) (mcall (Uart_recv 100) m)"
  obtain m' where "frame_loop 10 M (n + 1) [] m1 = (0, [], m')" "g_rn8209cCaliData m' = g_rn8209cCaliData m1"
    using frame_loop_silent [OF assms, of "[]" "n + 1" 10 m1] by auto
  then show ?thesis
    by (simp add: rn8209cReadFrame_def m1_def [symmetric]) (simp add: m1_def mcall_def)
qed

text \<open>
  When the chip does not answer, a measurement divides by zero: the failure of \<open>rn8209cReadFrame\<close> is ignored, the voltage stays 0, and the current is
  computed from it as a quotient.
\<close>

theorem silent_meter_faults:
  "\<forall>tr k. hfuart_recv M tr k = None \<Longrightarrow> lum_rn8209cGetIVPData M m = None"
proof -
  assume silent: "\<forall>tr k. hfuart_recv M tr k = None"
  obtain m1 where f1: "rn8209cReadFrame M RN8209C_URMS (replicate 4 0) 3 m = Some ((False, replicate 4 0), m1)"
    using silent_frame [OF silent] by blast
  obtain m2 where f2: "rn8209cReadFrame M RN8209C_PowerPA (replicate 4 0) 4 m1 = Some ((False, replicate 4 0), m2)"
    using silent_frame [OF silent] by blast
  have zero: "of_le32 (replicate 4 0) = 0"
    using of_le32_le32 [of 0] by (simp add: le32_def replicate_4)
  have "lum_rn8209cReadIVPData M info m = Some (info\<lparr>reco_urms := 0, reco_powerp := 0\<rparr>, m2)" for info
    by (simp add: lum_rn8209cReadIVPData_def f1 f2 zero)
  then show ?thesis by (simp add: lum_rn8209cGetIVPData_def quot_def Let_def split: bind_splits)
qed

theorem silent_meter_faults_witness:
  "lum_rn8209cGetIVPData erased_meter_sdk (lum_rn8209cInitCaliData new_meter) = None"
  by (rule silent_meter_faults) (simp add: erased_meter_sdk_def)

lemma le32_24: "U < 0x1000000 \<Longrightarrow> le32 U = [ucast U, ucast (drop_bit 8 U), ucast (drop_bit 16 U), 0]"
proof -
  assume "U < 0x1000000"
  then have "drop_bit 24 U = 0"
    by (simp add: drop_bit_eq_div word_less_nat_alt flip: unat_eq_zero) (simp add: unat_div)
  then show ?thesis by (simp add: le32_def)
qed

lemma top_bits:
  "U < 0x800000 \<Longrightarrow> (U :: u32) AND 0x800000 = 0" "P < 0x80000000 \<Longrightarrow> (P :: u32) AND 0x80000000 = 0"
proof -
  have high: "\<not> bit w n" if "w < 2 ^ n" "n < 32" for w :: u32 and n
    using that by (simp add: bit_iff_odd div_word_less)
  show "U < 0x800000 \<Longrightarrow> U AND 0x800000 = 0"
    using high [of U 23] and_exp_eq_0_iff_not_bit [of U 23] by simp
  show "P < 0x80000000 \<Longrightarrow> P AND 0x80000000 = 0"
    using high [of P 31] and_exp_eq_0_iff_not_bit [of P 31] by simp
qed

text \<open>
  Property C26: what a measurement returns when the chip answers, in pieces of any size, its voltage
  register \<open>U\<close> and power register \<open>P\<close>: both divided by their calibration constants, the current
  as their quotient, without any wrap-around for constants at least 128 and 5.  A voltage below one
  unit, as on a disconnected mains, makes the device divide by zero.
\<close>

theorem meter_measures:
  "chip_answers M RN8209C_URMS (meterTrace m) (drop 1 (rev (le32 U))) cs \<Longrightarrow>
   chip_answers M RN8209C_PowerPA (uart_waits 4 cs (asked RN8209C_URMS (meterTrace m))) (rev (le32 P)) ds \<Longrightarrow>
   U < 0x800000 \<Longrightarrow> P < 214748364 \<Longrightarrow>
   128 \<le> rn8209cKV (g_rn8209cCaliData m) \<Longrightarrow> 5 \<le> rn8209cKP (g_rn8209cCaliData m) \<Longrightarrow>
   v = uint U div uint (rn8209cKV (g_rn8209cCaliData m)) \<Longrightarrow>
   p = uint P * 10 div uint (rn8209cKP (g_rn8209cCaliData m)) \<Longrightarrow>
   (case lum_rn8209cGetIVPData M m of
      None \<Rightarrow> v = 0
    | Some (e, m') \<Rightarrow> v \<noteq> 0 \<and> uint (urms e) = v \<and> uint (powerP e) = p \<and> irms e = of_int (p * 10 div v)
        \<and> energyU e = lum_rn8209cGetUData m \<and> g_energyData m' = g_energyData m)"
proof -
  let ?kv = "rn8209cKV (g_rn8209cCaliData m)" and ?kp = "rn8209cKP (g_rn8209cCaliData m)"
  assume a1: "chip_answers M RN8209C_URMS (meterTrace m) (drop 1 (rev (le32 U))) cs"
    and a2: "chip_answers M RN8209C_PowerPA (uart_waits 4 cs (asked RN8209C_URMS (meterTrace m))) (rev (le32 P)) ds"
    and U: "U < 0x800000" and P: "P < 214748364" and kv: "128 \<le> ?kv" and kp: "5 \<le> ?kp"
    and v: "v = uint U div uint ?kv" and p: "p = uint P * 10 div uint ?kp"
  have U24: "U < 0x1000000" using U by (rule less_trans) simp
  have P31: "P < 0x80000000" using P by (rule less_trans) simp
  have f1: "rn8209cReadFrame M RN8209C_URMS (replicate 4 0) 3 m
      = Some ((True, le32 U), m\<lparr>meterTrace := uart_waits 4 cs (asked RN8209C_URMS (meterTrace m))\<rparr>)"
  proof -
    have l: "length (drop 1 (rev (le32 U))) = 3" by simp
    have "rev (drop 1 (rev (le32 U))) @ drop 3 (replicate 4 0) = le32 U"
      using le32_24 [OF U24] by (simp add: replicate_4)
    then show ?thesis using chip_answers_frame [OF a1, of "replicate 4 0", unfolded l] by simp
  qed
  have f2: "rn8209cReadFrame M RN8209C_PowerPA (replicate 4 0) 4 (m\<lparr>meterTrace := tr\<rparr>)
      = Some ((True, le32 P), m\<lparr>meterTrace := uart_waits 5 ds (asked RN8209C_PowerPA tr)\<rparr>)"
    if "tr = uart_waits 4 cs (asked RN8209C_URMS (meterTrace m))" for tr
    using chip_answers_frame [of M RN8209C_PowerPA "m\<lparr>meterTrace := tr\<rparr>" "rev (le32 P)" ds "replicate 4 0"] a2 that
    by simp
  obtain m' where ivp: "lum_rn8209cReadIVPData M info m = Some (info\<lparr>reco_urms := uint U, reco_powerp := uint P\<rparr>, m')"
    and m': "g_rn8209cCaliData m' = g_rn8209cCaliData m" "g_energyData m' = g_energyData m" for info
    using top_bits(1) [OF U] top_bits(2) [OF P31] by (auto simp: lum_rn8209cReadIVPData_def f1 f2)
  have nz: "uint ?kv \<ge> 128" "uint ?kp \<ge> 5" using kv kp by (simp_all add: word_le_def)
  have uU: "uint U < 2 ^ 23" "uint P * 10 < 2 ^ 31" using U P by (simp_all add: word_less_def)
  have vr: "0 \<le> v" "v < 2 ^ 16"
    using nz(1) uU(1) zdiv_mono2 [of "uint U" 128 "uint ?kv"] by (simp_all add: v pos_imp_zdiv_nonneg_iff)
  have pr: "0 \<le> p" "p * 10 < 2 ^ 32"
    using nz(2) uU(2) zdiv_mono2 [of "uint P * 10" 5 "uint ?kp"] by (simp_all add: p pos_imp_zdiv_nonneg_iff)
  have q: "quot (uint U) (uint ?kv) = Some v" "quot (uint P * 10) (uint ?kp) = Some p"
    using nz by (auto simp: quot_def v p sgn_if)
  have s: "s32 (uint P * 10) = Some (uint P * 10)" 
    using uU(2) uint_ge_0 [of P] unfolding s32_def by (intro if_P conjI) linarith+
  have uv: "uint (of_int v :: u16) = v" "uint (of_int p :: u32) = p"
    using vr pr by (simp_all add: unsigned_of_int take_bit_int_eq_self)
  have cur: "(ucast ((of_int p :: u32) * 10 div ucast (of_int v :: u16)) :: u16) = of_int (p * 10 div v)"
  proof -
    have "(of_int p :: u32) * 10 = of_int (p * 10)" by simp
    then have "uint ((of_int p :: u32) * 10) = p * 10"
      using pr by (simp only: unsigned_of_int) (simp add: take_bit_int_eq_self)
    then have "uint ((of_int p :: u32) * 10 div ucast (of_int v :: u16)) = p * 10 div v"
      using uv(1) vr by (simp add: uint_div unsigned_ucast_eq take_bit_int_eq_self)
    then show ?thesis by (simp only: ucast_eq)
  qed
  have z: "(of_int v :: u16) = 0 \<longleftrightarrow> v = 0" using uv(1) by (metis of_int_0 uint_0_eq)
  show ?thesis
    using m' by (simp add: lum_rn8209cGetIVPData_def ivp q s Let_def z uv cur lum_rn8209cGetUData_def)
qed

text \<open>A chip with 230 units of voltage and 100 of power, whose answers arrive in pieces.\<close>

definition mains_sdk :: meter_sdk where
  "mains_sdk = erased_meter_sdk\<lparr>hfuart_recv := (\<lambda>tr n.
     if Uart_send [RN8209C_PowerPA] \<in> set tr
     then Some (if n = 5 then [0, 1, 0xAC, 0xFC] else [0x30])
     else Some (if n = 4 then [0x10, 0x2D] else [0xE2, 0xBC]))\<rparr>"

theorem meter_measures_witness:
  "\<exists>e m'. lum_rn8209cGetIVPData mains_sdk (lum_rn8209cInitCaliData new_meter) = Some (e, m')
     \<and> uint (urms e) = 230 \<and> uint (powerP e) = 100 \<and> irms e = 4"
proof -
  let ?m = "lum_rn8209cInitCaliData new_meter"
  have c: "rn8209cKV (g_rn8209cCaliData ?m) = 4610" "rn8209cKP (g_rn8209cCaliData ?m) = 10982"
    "Uart_send [x] \<notin> set (meterTrace ?m)" for x
    by (simp_all add: lum_rn8209cInitCaliData_def lum_rn8209cSaveCaliData_def mcall_def new_meter_def Let_def)
  have U: "drop 1 (rev (le32 0x102DE2)) = [0x10, 0x2D, 0xE2]" and P: "rev (le32 0x1ACFC) = [0, 1, 0xAC, 0xFC]"
    by (simp_all add: le32_def)
  have a1: "chip_answers mains_sdk RN8209C_URMS (meterTrace ?m) (drop 1 (rev (le32 0x102DE2))) [[0x10, 0x2D], [0xE2, 0xBC]]"
    unfolding U using c(3) by (simp add: chip_answers_def mains_sdk_def asked_def rn8209cGetChecksun_def)
  have a2: "chip_answers mains_sdk RN8209C_PowerPA (uart_waits 4 [[0x10, 0x2D], [0xE2, 0xBC]]
      (asked RN8209C_URMS (meterTrace ?m))) (rev (le32 0x1ACFC)) [[0, 1, 0xAC, 0xFC], [0x30]]"
    unfolding P using c(3) by (simp add: chip_answers_def mains_sdk_def asked_def rn8209cGetChecksun_def)
  show ?thesis using meter_measures [OF a1 a2 _ _ _ _ refl refl] by (auto simp: c split: option.splits)
qed

section \<open>What the energy messages say\<close>

text \<open>Binary coded decimal.\<close>

fun bcd :: "nat \<Rightarrow> nat" where
  "bcd n = (if n < 10 then n else 16 * bcd (n div 10) + n mod 10)"

declare bcd.simps [simp del]

lemma bcd_fold: "bcd n = 16 * bcd (n div 10) + n mod 10"
  by (cases "n < 10") (simp_all add: bcd.simps [of n] bcd.simps [of 0])

lemma bcd_mod: "bcd (n mod (10 * m)) = 16 * bcd (n div 10 mod m) + n mod 10"
  by (subst bcd_fold) (simp add: mod_mult2_eq)

lemma bcd_4:
  "bcd (n mod 10000) = n mod 10 + 16 * (n div 10 mod 10) + 256 * (n div 10 div 10 mod 10)
     + 4096 * (n div 10 div 10 div 10 mod 10)"
  using bcd_mod [of n 1000] bcd_mod [of "n div 10" 100] bcd_mod [of "n div 10 div 10" 10]
  by (simp add: bcd.simps [of "n div 1000 mod 10"] div_mult2_eq [symmetric])

lemma bcd_digit:
  assumes "i < 8"
  shows "(ucast (push_bit (4 * i) ((t :: u32) mod 10)) :: u16) = of_nat (unat t mod 10 * 2 ^ (4 * i))"
proof -
  have "t mod 10 = of_nat (unat (t mod 10))" by simp
  then have "t mod 10 = of_nat (unat t mod 10)" by (simp only: unat_mod) simp
  then have "push_bit (4 * i) (t mod 10) = of_nat (unat t mod 10 * 2 ^ (4 * i))"
    by (simp add: push_bit_eq_mult)
  moreover have "unat t mod 10 * 2 ^ (4 * i) < 10 * 2 ^ 28"
    using power_increasing [of "4 * i" 28 "2 :: nat"] assms by (intro mult_less_le_imp_less) simp_all
  then have "take_bit 32 (unat t mod 10 * 2 ^ (4 * i)) = unat t mod 10 * 2 ^ (4 * i)"
    by (simp add: take_bit_nat_eq_self_iff)
  ultimately show ?thesis by (simp only: unsigned_of_nat) simp
qed

lemmas bcd_digits = bcd_digit [of 0, simplified] bcd_digit [of 1, simplified] bcd_digit [of 2, simplified]
  bcd_digit [of 3, simplified] bcd_digit [of 4, simplified] bcd_digit [of 5, simplified]
  bcd_digit [of 6, simplified] bcd_digit [of 7, simplified]

text \<open>
  The digits of a reported quantity are collected in a U16, so the report carries only
  the last four decimal digits of power and energy: their value modulo 10000 in binary coded
  decimal, although the message has room for eight digits.
\<close>

theorem energy_report_keeps_four_digits:
  "lum_coverBcdfFormat n = of_nat (bcd (unat n mod 10000))"
proof -
  define k where "k = unat n"
  have upt: "[0..<8] = [0, 1, 2, 3, 4, 5, 6, 7 :: nat]" by (simp add: upt_rec)
  have high: "(65536 :: u16) = 0" "(1048576 :: u16) = 0" "(16777216 :: u16) = 0" "(268435456 :: u16) = 0" by simp_all
  have digits: "fst (fold (\<lambda>i (b :: u16, t). (b + ucast (push_bit (4 * i) (t mod 10)), t div 10)) [0..<8] (0, n))
      = of_nat (bcd (k mod 10000))"
    unfolding upt by (simp add: bcd_digits unat_div bcd_4 k_def high)
  have d: "x mod 10 < 10" for x :: nat by simp
  have "bcd (k mod 10000) < 65536"
    unfolding bcd_4 using d [of k] d [of "k div 10"] d [of "k div 10 div 10"] d [of "k div 10 div 10 div 10"]
    by linarith
  then have "take_bit 16 (bcd (k mod 10000)) = bcd (k mod 10000)" by (intro take_bit_nat_eq_self) simp
  then show ?thesis
    unfolding lum_coverBcdfFormat_def digits k_def [symmetric]
    by (simp add: unsigned_of_nat)
qed

end
