(* ===== verification/Factory_Test.thy ===== *)
theory Factory_Test
  imports Rn8209c Message_Properties
begin

text \<open>
  The test of a metering socket at the end of its production line (\<open>lumFactoryTest.c\<close>, with its
  messages in \<open>messageDispose.c\<close> and the latching relay of \<open>deviceGpio.c\<close>; product \<open>P2_Config.h\<close>
  with \<open>LUM_FACTORY_TEST_SUPPORT\<close>).  The test is passed when the socket has joined the network,
  its key was pressed four times, and its meter was calibrated: a reference instrument is asked
  for its readings, first without load, then with a lamp, then with another lamp.
\<close>

abbreviation (input) "FACTORY_TEST_DATA_OFFSET \<equiv> 0"
abbreviation (input) "FACTORY_TEST_DATA_TOTAL_SIZE \<equiv> 4096"
abbreviation (input) "FACTORY_TEST_FLAG \<equiv> 0x1234ABCD"
abbreviation (input) "MAX_KEY_PRESS_TIMES \<equiv> 4"
abbreviation (input) "RN8209C_CALI_GET_BASE_DATA_GAP \<equiv> 500"
abbreviation (input) "RN8209C_CALI_TIMER_PROTECT \<equiv> 7000"

section \<open>State\<close>

datatype rn6209_cali_status = CALI_CLOSED | CALI_FIRST | CALI_CHECK | CALI_SUCC

datatype relay_coil = HFGPIO_F_RELAY_1 | HFGPIO_F_RELAY_2

datatype factory_call =
    Coil relay_coil bool | Relay_led bool
  | Relay_timer_create nat | Relay_timer_period nat
  | Cali_timer_create nat | Cali_timer_period nat | Cali_timer_stop
  | Auto_upgrade | Test_sleep nat

text \<open>\<open>FACORY_TEST_DATA\<close>, the variables of the calibration and the timers.\<close>

record factory =
  bInFactoryTest :: bool
  wifiConnect :: bool
  keyPressTimes :: u8
  calibrate_succ :: bool
  g_calibrateData :: meature_energy_data
  g_caliPower :: u32
  g_checkPower :: u32
  g_calibrateStatus :: rn6209_cali_status
  g_rn8209CaliTimer :: bool
  specialRelayTimer :: bool
  factoryTrace :: "factory_call list"

definition zero_readings :: meature_energy_data where
  "zero_readings = \<lparr>urms = 0, irms = 0, powerP = 0, energyU = 0\<rparr>"

definition factory_power_on :: factory where
  "factory_power_on = \<lparr>bInFactoryTest = False, wifiConnect = False, keyPressTimes = 0, calibrate_succ = False,
     g_calibrateData = zero_readings, g_caliPower = 0, g_checkPower = 0, g_calibrateStatus = CALI_SUCC,
     g_rn8209CaliTimer = False, specialRelayTimer = False, factoryTrace = []\<rparr>"

record factory_sdk =
  coil_is_high :: "factory_call list \<Rightarrow> relay_coil \<Rightarrow> bool"
  auto_upgrade_result :: "factory_call list \<Rightarrow> int"

type_synonym product = "device \<times> meter \<times> factory"

definition fcall :: "factory_call \<Rightarrow> factory \<Rightarrow> factory" where
  "fcall c f = f\<lparr>factoryTrace := c # factoryTrace f\<rparr>"

section \<open>The latching relay\<close>

text \<open>A coil is driven for 200 ms; the timer then switches off whichever coil is driven.\<close>

definition specialRelayTimerCallback :: "factory_sdk \<Rightarrow> factory \<Rightarrow> factory" where
  "specialRelayTimerCallback T f =
     (let f1 = (if coil_is_high T (factoryTrace f) HFGPIO_F_RELAY_2 then fcall (Coil HFGPIO_F_RELAY_2 False) f else f)
      in if coil_is_high T (factoryTrace f1) HFGPIO_F_RELAY_1 then fcall (Coil HFGPIO_F_RELAY_1 False) f1 else f1)"

definition startSpecialRelayTimer :: "factory \<Rightarrow> factory" where
  "startSpecialRelayTimer f = fcall (Relay_timer_period 200)
     (if \<not> specialRelayTimer f then (fcall (Relay_timer_create 200) f)\<lparr>specialRelayTimer := True\<rparr> else f)"

text \<open>\<open>setSwitchStatus\<close> and \<open>changeSwitchStatus\<close> of this product.\<close>

definition set_latching_switch ::
    "sdk \<Rightarrow> switch_status \<Rightarrow> switch_pin_flag \<Rightarrow> device \<times> factory \<Rightarrow> (device \<times> factory) option" where
  "set_latching_switch E action switchFlag s =
     (let (switchStatus, d1) = getSwitchStatus E switchFlag (fst s);
          fid = lum_getSwitchFlag switchFlag;
          d2 = (if action = SWITCH_OPEN then call (Pin_high fid) d1 else call (Pin_low fid) d1);
          f1 = fcall (Coil HFGPIO_F_RELAY_1 (action \<noteq> SWITCH_OPEN))
                 (fcall (Coil HFGPIO_F_RELAY_2 (action = SWITCH_OPEN)) (snd s));
          f2 = fcall (Relay_led (action \<noteq> SWITCH_OPEN)) (startSpecialRelayTimer f1)
      in if action \<noteq> switchStatus \<and> \<not> bInFactoryTest f2
         then do {
           (_, d3) \<leftarrow> insertLocalMsgToList E MSG_LOCAL_EVENT
             (Some (gpio_change_report action switchFlag)) 8 MSG_CMD_REPORT_GPIO_CHANGE d2;
           Some (d3, f2)
         } else Some (d2, f2))"

definition change_latching_switch :: "sdk \<Rightarrow> switch_pin_flag \<Rightarrow> device \<times> factory \<Rightarrow> (device \<times> factory) option" where
  "change_latching_switch E switchFlag s =
     (let (st, d1) = getSwitchStatus E switchFlag (fst s)
      in set_latching_switch E (if st = SWITCH_OPEN then SWITCH_CLOSE else SWITCH_OPEN) switchFlag (d1, snd s))"

definition set_relay :: "sdk \<Rightarrow> switch_status \<Rightarrow> product \<Rightarrow> product option" where
  "set_relay E action s = (case s of (d, m, f) \<Rightarrow>
     map_option (\<lambda>(d', f'). (d', m, f')) (set_latching_switch E action SWITCH_PIN_1 (d, f)))"

section \<open>The mark of a tested device\<close>

text \<open>The first page of the user flash, which the meter's pages follow.\<close>

definition lum_getFactoryTestFlag :: "meter_sdk \<Rightarrow> meter \<Rightarrow> bool" where
  "lum_getFactoryTestFlag M m =
     (let flag = word_at (overlay (hfuflash_read M (flash_calls (meterTrace m)) FACTORY_TEST_DATA_OFFSET 4)
                   (le32 (uninitialised_word M (meterTrace m)))) 0
      in flag \<noteq> FACTORY_TEST_FLAG)"

definition lum_setFactoryTestFlag :: "bool \<Rightarrow> meter \<Rightarrow> meter" where
  "lum_setFactoryTestFlag bClear m =
     (let flag = (if bClear then 0 else FACTORY_TEST_FLAG);
          m1 = mcall (Flash (Flash_erase FACTORY_TEST_DATA_OFFSET (FACTORY_TEST_DATA_TOTAL_SIZE div HFFLASH_PAGE_SIZE))) m;
          m2 = mcall (Flash (Flash_write FACTORY_TEST_DATA_OFFSET (le32 flag))) m1
      in if bClear then mcall Meter_sys_reset (mcall (Meter_sleep 200) m2) else m2)"

section \<open>Floating point\<close>

text \<open>
  The product of a \<open>U32\<close> with a constant of type \<open>double\<close>, converted to \<open>U32\<close>.  The constant is
  \<open>k / 2 ^ e\<close> with a significand \<open>k\<close> of 53 bits; the product is rounded to 53 bits, ties to even, and
  truncated.  A product that does not fit has no defined conversion.
\<close>

definition round_even :: "nat \<Rightarrow> nat \<Rightarrow> nat" where
  "round_even x s = (let q = x div 2 ^ s; r = x mod 2 ^ s
     in if 2 * r < 2 ^ s \<or> 2 * r = 2 ^ s \<and> even q then q else q + 1)"

definition excess_bits :: "nat \<Rightarrow> nat" where
  "excess_bits x = length (takeWhile (\<lambda>s. 2 ^ (53 + s) \<le> x) [0..<33])"

definition times_double :: "nat \<Rightarrow> nat \<Rightarrow> u32 \<Rightarrow> u32 option" where
  "times_double k e p =
     (let x = k * unat p; s = excess_bits x; v = round_even x s * 2 ^ s div 2 ^ e
      in if v < 2 ^ 32 then Some (of_nat v) else None)"

abbreviation (input) "times_1_02 \<equiv> times_double 0x1051EB851EB852 52"
abbreviation (input) "times_0_98 \<equiv> times_double 0x1F5C28F5C28F5C 53"
abbreviation (input) "times_0_7 \<equiv> times_double 0x16666666666666 53"
abbreviation (input) "times_1_5 \<equiv> times_double 0x18000000000000 52"
abbreviation (input) "times_0_96 \<equiv> times_double 0x1EB851EB851EB8 53"
abbreviation (input) "times_1_04 \<equiv> times_double 0x10A3D70A3D70A4 52"

text \<open>Within the limits of two readings that show a stable power, the second the reference.\<close>

definition stable_power :: "u32 \<Rightarrow> u32 \<Rightarrow> bool option" where
  "stable_power old p = do { hi \<leftarrow> times_1_02 p; lo \<leftarrow> times_0_98 p; Some (old \<le> hi \<and> old \<ge> lo) }"

definition lamp_changed :: "u32 \<Rightarrow> u32 \<Rightarrow> bool option" where
  "lamp_changed old p = do {
     lo \<leftarrow> times_0_7 p;
     if old \<le> lo then Some True else do { hi \<leftarrow> times_1_5 p; Some (old \<ge> hi) }
   }"

definition power_agrees :: "u32 \<Rightarrow> u32 \<Rightarrow> bool option" where
  "power_agrees measured p = do { lo \<leftarrow> times_0_96 p; hi \<leftarrow> times_1_04 p; Some (measured \<ge> lo \<and> measured \<le> hi) }"

section \<open>The calibration\<close>

definition lum_startRn8209CaliTimer :: "nat \<Rightarrow> factory \<Rightarrow> factory" where
  "lum_startRn8209CaliTimer timerGap f = fcall (Cali_timer_period timerGap)
     (if \<not> g_rn8209CaliTimer f then (fcall (Cali_timer_create timerGap) f)\<lparr>g_rn8209CaliTimer := True\<rparr> else f)"

definition lum_stopRn8209CaliTimer :: "factory \<Rightarrow> factory" where
  "lum_stopRn8209CaliTimer f = fcall Cali_timer_stop f"

definition lum_sendCaliCmd :: "sdk \<Rightarrow> device \<times> factory \<Rightarrow> (device \<times> factory) option" where
  "lum_sendCaliCmd E s = do {
     (_, d) \<leftarrow> insertLocalMsgToList E MSG_LOCAL_EVENT None 0 MSG_CMD_GET_CALIBRATE_DATA (fst s);
     Some (d, lum_startRn8209CaliTimer RN8209C_CALI_TIMER_PROTECT (snd s))
   }"

definition lum_rn8209CaliTimerCallback :: "sdk \<Rightarrow> device \<times> factory \<Rightarrow> (device \<times> factory) option" where
  "lum_rn8209CaliTimerCallback E s = lum_sendCaliCmd E s"

definition lum_rn8209CaliInit :: "factory \<Rightarrow> factory" where
  "lum_rn8209CaliInit f = f\<lparr>g_calibrateData := zero_readings, g_calibrateStatus := CALI_CLOSED\<rparr>"

definition lum_getKeyEnableStatus :: "factory \<Rightarrow> bool" where
  "lum_getKeyEnableStatus f = (\<not> (g_calibrateStatus f = CALI_CLOSED \<or> g_calibrateStatus f = CALI_FIRST))"

definition lum_subBasePower :: "meature_energy_data \<Rightarrow> meature_energy_data \<Rightarrow> meature_energy_data" where
  "lum_subBasePower e base =
     e\<lparr>powerP := (if powerP e > powerP base then powerP e - powerP base else 0),
       irms := (if irms e > irms base then irms e - irms base else 0)\<rparr>"

text \<open>
  One reading of the reference instrument.  In the three states: the reading without load is kept
  and the relay switched on; two equal readings of a lamp give the calibration; two equal readings
  of another lamp are compared with the meter's own measurement.
\<close>

definition first_reading :: "sdk \<Rightarrow> meature_energy_data \<Rightarrow> product \<Rightarrow> product option" where
  "first_reading E e s = (case s of (d, m, f) \<Rightarrow> do {
     (d1, m1, f1) \<leftarrow> set_relay E SWITCH_OPEN (d, m, f\<lparr>g_calibrateData := e, g_calibrateStatus := CALI_FIRST\<rparr>);
     Some (d1, m1, f1\<lparr>g_caliPower := 0\<rparr>)
   })"

definition calibrate_reading :: "sdk \<Rightarrow> meter_sdk \<Rightarrow> meature_energy_data \<Rightarrow> product \<Rightarrow> product option" where
  "calibrate_reading E M e s = (case s of (d, m, f) \<Rightarrow>
     if powerP e > 200 then do {
       same \<leftarrow> stable_power (g_caliPower f) (powerP e);
       if same then do {
         m1 \<leftarrow> lum_rn8209cCalcCaliKdata M e m;
         set_relay E SWITCH_CLOSE (d, m1, f\<lparr>g_calibrateStatus := CALI_CHECK, g_checkPower := 0\<rparr>)
       } else Some (d, m, f\<lparr>g_caliPower := powerP e\<rparr>)
     } else Some s)"

definition check_reading :: "sdk \<Rightarrow> meter_sdk \<Rightarrow> meature_energy_data \<Rightarrow> product \<Rightarrow> product option" where
  "check_reading E M e s = (case s of (d, m, f) \<Rightarrow>
     if powerP e > 200 then do {
       other \<leftarrow> lamp_changed (g_caliPower f) (powerP e);
       if other then do {
         same \<leftarrow> stable_power (g_checkPower f) (powerP e);
         if same then do {
           (tmpCaliData, m1) \<leftarrow> lum_rn8209cGetIVPData M m;
           good \<leftarrow> power_agrees (powerP tmpCaliData) (powerP e);
           if good then set_relay E SWITCH_CLOSE
             (d, lum_saveKData m1, f\<lparr>g_calibrateStatus := CALI_SUCC, calibrate_succ := True\<rparr>)
           else Some (d, m1, f)
         } else Some (d, m, f\<lparr>g_checkPower := powerP e\<rparr>)
       } else Some s
     } else Some s)"

definition lum_checkCaliData :: "sdk \<Rightarrow> meter_sdk \<Rightarrow> meature_energy_data \<Rightarrow> product \<Rightarrow> product option" where
  "lum_checkCaliData E M caliData s = (case s of (d, m, f0) \<Rightarrow> do {
     let f = lum_stopRn8209CaliTimer f0;
     let e = (if g_calibrateStatus f \<noteq> CALI_CLOSED then lum_subBasePower caliData (g_calibrateData f) else caliData);
     (d1, m1, f1) \<leftarrow> (case g_calibrateStatus f of
          CALI_CLOSED \<Rightarrow> first_reading E e (d, m, f)
        | CALI_FIRST \<Rightarrow> calibrate_reading E M e (d, m, f)
        | CALI_CHECK \<Rightarrow> check_reading E M e (d, m, f)
        | CALI_SUCC \<Rightarrow> Some (d, m, f));
     Some (d1, m1, if g_calibrateStatus f1 \<noteq> CALI_SUCC
                   then lum_startRn8209CaliTimer RN8209C_CALI_GET_BASE_DATA_GAP f1 else f1)
   })"

text \<open>The messages: the request to the instrument, and its answer.\<close>

definition readings_of :: "u8 list \<Rightarrow> meature_energy_data" where
  "readings_of bs = \<lparr>urms = of_le16 (take 2 bs), irms = of_le16 (take 2 (drop 2 bs)),
     powerP = of_le32 (take 4 (drop 4 bs)), energyU = of_le32 (take 4 (drop 8 bs))\<rparr>"

definition lum_getCalibrateData :: "sdk \<Rightarrow> msg_node_body \<Rightarrow> device \<Rightarrow> device option" where
  "lum_getCalibrateData E pNode d = request E [ucast (cmdData pNode)]
     (pNode\<lparr>msgOrigin := MSG_FROM_UDP, socketIp := getBroadcastAddr d\<rparr>) d"

definition lum_setCalibrateData :: "sdk \<Rightarrow> meter_sdk \<Rightarrow> msg_node_body \<Rightarrow> product \<Rightarrow> product option" where
  "lum_setCalibrateData E M pNode s = do {
     bs \<leftarrow> body_bytes pNode 1 12;
     lum_checkCaliData E M (readings_of bs) s
   }"

definition calibrate_dispatch :: "sdk \<Rightarrow> meter_sdk \<Rightarrow> msg_node_body \<Rightarrow> product \<Rightarrow> product option" where
  "calibrate_dispatch E M b s =
     (if cmdData b \<noteq> MSG_CMD_GET_CALIBRATE_DATA then Some s
      else if msgOrigin b = MSG_LOCAL_EVENT
      then map_option (\<lambda>d. (d, snd s)) (lum_getCalibrateData E b (fst s))
      else lum_setCalibrateData E M b s)"

section \<open>The test\<close>

text \<open>The WiFi LED of this product shows the stages of the test.\<close>

definition lum_showFactoryTestSucc :: "sdk \<Rightarrow> device \<Rightarrow> device" where
  "lum_showFactoryTestSucc E d = setWifiLedStatus E WIFI_LED_SMARTLINK d"

definition lum_showEnterFactoryTest :: "sdk \<Rightarrow> device \<Rightarrow> device" where
  "lum_showEnterFactoryTest E d = setWifiLedStatus E WIFI_LED_AP_DISCONNECT d"

definition lum_showFactoryTestApConnect :: "sdk \<Rightarrow> device \<Rightarrow> device" where
  "lum_showFactoryTestApConnect E d = setWifiLedStatus E WIFILED_CLOSE d"

declare lum_showFactoryTestSucc_def [simp] lum_showEnterFactoryTest_def [simp] lum_showFactoryTestApConnect_def [simp]

text \<open>At the first start the device is told the network of the factory.\<close>

definition lum_setDefaultApData :: "sdk \<Rightarrow> device \<Rightarrow> device" where
  "lum_setDefaultApData E d =
     (let (rsp, d1) = at_command E (ascii ''AT+WSSSID=moduletest'' @ crlf) d
      in if rsp_ok rsp
         then let (rsp2, d2) = at_command E (ascii ''AT+WSKEY=WPA2PSK,AES,test1234'' @ crlf) d1
              in if rsp_ok rsp2 then call Sys_reset d2 else d2
         else d1)"

definition factory_config_init :: "sdk \<Rightarrow> device \<Rightarrow> device" where
  "factory_config_init E d =
     (if lumitekFlag (hffile_userbin_read E (trace d)) \<noteq> LUMITEK_SW_FLAG
      then lum_setDefaultApData E (call (Msleep 100) (globalConfigDataInit E False d))
      else globalConfigDataInit E False d)"

definition lum_factoryTestDhcpSucc :: "sdk \<Rightarrow> device \<times> factory \<Rightarrow> device \<times> factory" where
  "lum_factoryTestDhcpSucc E s = (lum_showFactoryTestApConnect E (fst s),
     lum_startRn8209CaliTimer RN8209C_CALI_GET_BASE_DATA_GAP ((snd s)\<lparr>wifiConnect := True\<rparr>))"

definition lum_checkTestSucc :: "factory \<Rightarrow> bool" where
  "lum_checkTestSucc f \<longleftrightarrow> bInFactoryTest f \<and> wifiConnect f \<and> keyPressTimes f \<ge> MAX_KEY_PRESS_TIMES \<and> calibrate_succ f"

definition lum_enterFactoryTestThread_start :: "sdk \<Rightarrow> product \<Rightarrow> product option" where
  "lum_enterFactoryTestThread_start E s = (case s of (d, m, f) \<Rightarrow> do {
     (d1, m1, f1) \<leftarrow> set_relay E SWITCH_CLOSE
       (lum_showEnterFactoryTest E d, m, f\<lparr>bInFactoryTest := True\<rparr>);
     Some (d1, m1, lum_rn8209CaliInit f1)
   })"

text \<open>One pass of the loop; the thread sleeps forever once the test is passed.\<close>

definition lum_enterFactoryTestThread_step :: "sdk \<Rightarrow> product \<Rightarrow> bool \<times> product" where
  "lum_enterFactoryTestThread_step E s = (case s of (d, m, f) \<Rightarrow>
     if lum_checkTestSucc f
     then (True, lum_setFactorySmartlink True (lum_showFactoryTestSucc E d),
             lum_setFactoryTestFlag False m, f)
     else (False, d, m, fcall (Test_sleep 100) f))"

definition lum_addFactoryKeyPressTimes :: "bool \<Rightarrow> factory \<Rightarrow> factory" where
  "lum_addFactoryKeyPressTimes key f =
     (if \<not> bInFactoryTest f \<or> \<not> key then f
      else let n = keyPressTimes f + 1 in f\<lparr>keyPressTimes := (if n \<ge> 200 then MAX_KEY_PRESS_TIMES else n)\<rparr>)"

text \<open>What the debounced release of the key does in this product.\<close>

definition key_released :: "sdk \<Rightarrow> device \<times> factory \<Rightarrow> (device \<times> factory) option" where
  "key_released E s =
     (if lum_getKeyEnableStatus (snd s)
      then map_option (\<lambda>(d, f). (d, lum_addFactoryKeyPressTimes True f)) (change_latching_switch E SWITCH_PIN_1 s)
      else Some s)"

definition lum_checkNeedFactoryTest :: "factory_sdk \<Rightarrow> meter_sdk \<Rightarrow> meter \<times> factory \<Rightarrow> bool \<times> factory" where
  "lum_checkNeedFactoryTest T M s =
     (let up_result = auto_upgrade_result T (factoryTrace (snd s));
          f = fcall Auto_upgrade (snd s)
      in if up_result \<ge> 0 then (False, f)
         else (lum_getFactoryTestFlag M (fst s),
               f\<lparr>bInFactoryTest := False, wifiConnect := False, keyPressTimes := 0, calibrate_succ := False\<rparr>))"

section \<open>The rounded products\<close>

lemma excess_bits_low: "excess_bits x = 0 \<or> 2 ^ (52 + excess_bits x) \<le> x"
proof (cases "excess_bits x")
  case (Suc i)
  let ?w = "takeWhile (\<lambda>s. 2 ^ (53 + s) \<le> x) [0..<33]"
  have i: "i < length ?w" using Suc by (simp add: excess_bits_def)
  then have "?w ! i \<in> set ?w" by (rule nth_mem)
  moreover have "?w ! i = i" using i length_takeWhile_le [of _ "[0..<33]"] takeWhile_nth [OF i]
    by (metis diff_zero length_upt less_le_trans nth_upt plus_nat.add_0)
  ultimately have "2 ^ (53 + i) \<le> x" by (auto dest: set_takeWhileD)
  then show ?thesis using Suc by simp
qed simp

lemma excess_bitsI:
  assumes "s = 0 \<or> 2 ^ (52 + s) \<le> x" "x < 2 ^ (53 + s)" "s \<le> 32"
  shows "excess_bits x = s"
proof -
  have "2 ^ (53 + i) \<le> x" if "i < s" for i
  proof -
    have "(2 :: nat) ^ (53 + i) \<le> 2 ^ (52 + s)" using that by (intro power_increasing) auto
    also have "\<dots> \<le> x" using assms(1) that by auto
    finally show ?thesis .
  qed
  then have "takeWhile (\<lambda>s. 2 ^ (53 + s) \<le> x) [0..<33] = take s [0..<33]"
    using assms(2,3) by (intro takeWhile_eq_take_P_nth) auto
  then show ?thesis using assms(3) by (simp add: excess_bits_def)
qed

lemma round_even_near:
  "2 * x \<le> 2 * (round_even x s * 2 ^ s) + 2 ^ s" "2 * (round_even x s * 2 ^ s) \<le> 2 * x + 2 ^ s"
proof -
  define q r T where "q = x div 2 ^ s" and "r = x mod 2 ^ s" and "T = (2 :: nat) ^ s"
  have x: "x = q * T + r" "r < T" unfolding q_def r_def T_def by (simp_all only: div_mult_mod_eq mod_less_divisor zero_less_power zero_less_numeral)
  have "round_even x s * T = q * T \<and> 2 * r \<le> T \<or> round_even x s * T = q * T + T \<and> T \<le> 2 * r"
  proof (cases "2 * r < T \<or> 2 * r = T \<and> even q")
    case True
    then have "round_even x s = q" by (simp add: round_even_def q_def r_def T_def Let_def)
    then show ?thesis using True by auto
  next
    case False
    then have "round_even x s = q + 1" by (simp add: round_even_def q_def r_def T_def Let_def)
    then show ?thesis using False by auto
  qed
  then show "2 * x \<le> 2 * (round_even x s * 2 ^ s) + 2 ^ s" "2 * (round_even x s * 2 ^ s) \<le> 2 * x + 2 ^ s"
    unfolding T_def [symmetric] using x by linarith+
qed

lemma rounded_product:
  fixes k p :: nat
  assumes "k < 2 ^ 53"
  defines "R \<equiv> round_even (k * p) (excess_bits (k * p)) * 2 ^ excess_bits (k * p)"
  shows "R \<le> k * p + p" "k * p \<le> R + p"
proof -
  define s where "s = excess_bits (k * p)"
  have bit: "2 ^ s \<le> 2 * p" if "s \<noteq> 0"
  proof -
    have "2 ^ 52 * 2 ^ s \<le> k * p" using excess_bits_low [of "k * p"] that by (simp add: s_def power_add)
    also have "\<dots> \<le> 2 ^ 53 * p" using assms(1) by (intro mult_right_mono) auto
    finally show ?thesis by simp
  qed
  note near = round_even_near [of "k * p" s, folded s_def]
  have "R \<le> k * p + p \<and> k * p \<le> R + p"
  proof (cases "s = 0")
    case True
    then have "R = k * p" by (simp add: R_def round_even_def flip: s_def)
    then show ?thesis by simp
  next
    case False
    then show ?thesis using near bit by (simp add: R_def flip: s_def)
  qed
  then show "R \<le> k * p + p" "k * p \<le> R + p" by simp_all
qed

text \<open>For a constant that is \<open>n\<close> percent up to rounding, the product is \<open>n\<close> percent, rounded down, or one less.\<close>

lemma times_double_percent:
  assumes r: "times_double k e p = Some r" and k: "k < 2 ^ 53" "52 \<le> e"
    and n: "100 * k \<le> n * 2 ^ e + 100" "n * 2 ^ e \<le> 100 * k + 100"
  shows "100 * unat r \<le> n * unat p" "n * unat p \<le> 100 * unat r + 100"
proof -
  define P R where "P = unat p" and "R = round_even (k * P) (excess_bits (k * P)) * 2 ^ excess_bits (k * P)"
  have v: "R div 2 ^ e < 2 ^ 32" "r = of_nat (R div 2 ^ e)"
    using r by (auto simp: times_double_def Let_def R_def P_def split: if_splits)
  then have q: "unat r = R div 2 ^ e" by (simp add: unsigned_of_nat take_bit_nat_eq_self)
  have P: "P < 2 ^ 32" unfolding P_def using unsigned_less [of p] by simp
  have R: "R \<le> k * P + P" "k * P \<le> R + P" unfolding R_def by (rule rounded_product [OF k(1)])+
  have n': "100 * k * P \<le> n * 2 ^ e * P + 100 * P" "n * 2 ^ e * P \<le> 100 * k * P + 100 * P"
    using mult_right_mono [OF n(1), of P] mult_right_mono [OF n(2), of P] by (simp_all add: add_mult_distrib)
  define T where "T = (2 :: nat) ^ e"
  have "(2 :: nat) ^ 52 \<le> 2 ^ e" using k(2) by (rule power_increasing) simp
  then have T: "200 * P < T" using P by (simp add: T_def)
  define d where "d = R div T"
  have d: "d * T \<le> R" "R < d * T + T"
    using T div_mult_mod_eq [of R T] mod_less_divisor [of T R] unfolding d_def by linarith+
  have up: "100 * R \<le> n * P * T + 200 * P" "n * P * T \<le> 100 * R + 200 * P"
    using R n' by (simp_all add: T_def algebra_simps)
  have "100 * d * T < (n * P + 1) * T" using d(1) up(1) T by (simp add: algebra_simps)
  then have one: "100 * d < n * P + 1" by (simp only: mult_less_cancel2)
  have "n * P * T < (100 * d + 101) * T" using d(2) up(2) T by (simp add: algebra_simps)
  then have "n * P < 100 * d + 101" by (simp only: mult_less_cancel2)
  with one show "100 * unat r \<le> n * unat p" "n * unat p \<le> 100 * unat r + 100"
    by (simp_all add: q d_def P_def T_def)
qed

lemma stable_power_percent:
  "stable_power old p = Some True \<Longrightarrow> 98 * unat p \<le> 100 * unat old + 100 \<and> 100 * unat old \<le> 102 * unat p"
  using times_double_percent [of "0x1051EB851EB852" 52 p _ 102] times_double_percent [of "0x1F5C28F5C28F5C" 53 p _ 98]
  by (fastforce simp: stable_power_def word_le_nat_alt split: bind_splits)

lemma lamp_changed_percent:
  "lamp_changed old p = Some True \<Longrightarrow> 100 * unat old \<le> 70 * unat p \<or> 150 * unat p \<le> 100 * unat old + 100"
  using times_double_percent [of "0x16666666666666" 53 p _ 70] times_double_percent [of "0x18000000000000" 52 p _ 150]
  by (fastforce simp: lamp_changed_def word_le_nat_alt split: bind_splits if_splits)

lemma power_agrees_percent:
  "power_agrees x p = Some True \<Longrightarrow> 96 * unat p \<le> 100 * unat x + 100 \<and> 100 * unat x \<le> 104 * unat p"
  using times_double_percent [of "0x1EB851EB851EB8" 53 p _ 96] times_double_percent [of "0x10A3D70A3D70A4" 52 p _ 104]
  by (fastforce simp: power_agrees_def word_le_nat_alt split: bind_splits)

section \<open>What a reading changes\<close>

lemma set_relay_frame:
  "set_relay E a (d, m, f) = Some (d', m', f') \<Longrightarrow> m' = m \<and> (\<exists>tr b. f' = f\<lparr>factoryTrace := tr, specialRelayTimer := b\<rparr>)"
proof -
  assume run: "set_relay E a (d, m, f) = Some (d', m', f')"
  define f1 where "f1 = fcall (Relay_led (a \<noteq> SWITCH_OPEN)) (startSpecialRelayTimer
    (fcall (Coil HFGPIO_F_RELAY_1 (a \<noteq> SWITCH_OPEN)) (fcall (Coil HFGPIO_F_RELAY_2 (a = SWITCH_OPEN)) f)))"
  have "m' = m \<and> f' = f1"
    using run by (auto simp: set_relay_def set_latching_switch_def Let_def f1_def split: prod.splits if_splits bind_splits)
  moreover have "f1 = f\<lparr>factoryTrace := factoryTrace f1, specialRelayTimer := specialRelayTimer f1\<rparr>"
    by (simp add: f1_def startSpecialRelayTimer_def fcall_def)
  ultimately show ?thesis by blast
qed

lemma check_reading_success:
  assumes run: "check_reading E M e (d, m, f) = Some (d', m', f')" "\<not> calibrate_succ f" "calibrate_succ f'"
  obtains tmp m1 where "200 < powerP e" "lamp_changed (g_caliPower f) (powerP e) = Some True"
    "stable_power (g_checkPower f) (powerP e) = Some True" "lum_rn8209cGetIVPData M m = Some (tmp, m1)"
    "power_agrees (powerP tmp) (powerP e) = Some True" "m' = lum_saveKData m1"
  using run by (auto simp: check_reading_def split: bind_splits if_splits dest!: set_relay_frame intro!: that)

text \<open>
  Property C29: the meter is taken as calibrated only after an accurate measurement: the third kind
  of reading, of more than 20 W above the base load, equal to the one before within two percent
  and different from that of the first lamp, for which the meter's own measurement with the new
  constants is right within four percent (all up to one unit of 0.1 W, whatever the rounding of
  the floating point products).  Then the constants are saved.
\<close>

theorem calibration_ends_with_accurate_meter:
  "lum_checkCaliData E M c (d, m, f) = Some (d', m', f') \<Longrightarrow> \<not> calibrate_succ f \<Longrightarrow> calibrate_succ f' \<Longrightarrow>
   p = unat (powerP (lum_subBasePower c (g_calibrateData f))) \<Longrightarrow>
   g_calibrateStatus f = CALI_CHECK \<and> g_calibrateStatus f' = CALI_SUCC \<and> 200 < p
   \<and> 98 * p \<le> 100 * unat (g_checkPower f) + 100 \<and> 100 * unat (g_checkPower f) \<le> 102 * p
   \<and> (100 * unat (g_caliPower f) \<le> 70 * p \<or> 150 * p \<le> 100 * unat (g_caliPower f) + 100)
   \<and> (\<exists>tmp m1. lum_rn8209cGetIVPData M m = Some (tmp, m1) \<and> m' = lum_saveKData m1
        \<and> 96 * p \<le> 100 * unat (powerP tmp) + 100 \<and> 100 * unat (powerP tmp) \<le> 104 * p)"
proof -
  assume run: "lum_checkCaliData E M c (d, m, f) = Some (d', m', f')" and fresh: "\<not> calibrate_succ f"
    and acc: "calibrate_succ f'" and p: "p = unat (powerP (lum_subBasePower c (g_calibrateData f)))"
  define f0 where "f0 = lum_stopRn8209CaliTimer f"
  have f0: "g_calibrateStatus f0 = g_calibrateStatus f" "\<not> calibrate_succ f0" "g_calibrateData f0 = g_calibrateData f"
    "g_caliPower f0 = g_caliPower f" "g_checkPower f0 = g_checkPower f"
    using fresh by (simp_all add: f0_def lum_stopRn8209CaliTimer_def fcall_def)
  let ?e = "lum_subBasePower c (g_calibrateData f)"
  have status: "g_calibrateStatus f = CALI_CHECK"
  proof (cases "g_calibrateStatus f")
    case CALI_CLOSED
    then show ?thesis using run acc f0
      by (auto simp: lum_checkCaliData_def first_reading_def Let_def lum_startRn8209CaliTimer_def fcall_def
        split: bind_splits if_splits dest!: set_relay_frame simp flip: f0_def)
  next
    case CALI_FIRST
    then show ?thesis using run acc f0
      by (auto simp: lum_checkCaliData_def calibrate_reading_def Let_def lum_startRn8209CaliTimer_def fcall_def
        split: bind_splits if_splits dest!: set_relay_frame simp flip: f0_def)
  next
    case CALI_SUCC
    then show ?thesis using run acc f0
      by (auto simp: lum_checkCaliData_def Let_def split: bind_splits simp flip: f0_def)
  qed
  obtain d1 m1 f1 where check: "check_reading E M ?e (d, m, f0) = Some (d1, m1, f1)" "m' = m1"
    "calibrate_succ f1" "g_calibrateStatus f' = g_calibrateStatus f1"
    using run acc status f0
    by (auto simp: lum_checkCaliData_def Let_def lum_startRn8209CaliTimer_def fcall_def
      split: bind_splits if_splits simp flip: f0_def)
  obtain tmp m2 where c: "200 < powerP ?e" "lamp_changed (g_caliPower f0) (powerP ?e) = Some True"
    "stable_power (g_checkPower f0) (powerP ?e) = Some True" "lum_rn8209cGetIVPData M m = Some (tmp, m2)"
    "power_agrees (powerP tmp) (powerP ?e) = Some True" "m1 = lum_saveKData m2"
    by (rule check_reading_success [OF check(1) f0(2) check(3)])
  have "g_calibrateStatus f1 = CALI_SUCC"
    using check(1) c by (auto simp: check_reading_def dest!: set_relay_frame)
  then show ?thesis
    using c status check stable_power_percent [OF c(3)] lamp_changed_percent [OF c(2)] power_agrees_percent [OF c(5)]
    by (auto simp: p f0 word_less_nat_alt)
qed

section \<open>What measuring leaves alone\<close>

definition meter_core :: "meter \<Rightarrow> flash_call list \<times> energy_data_info" where
  "meter_core m = (flash_calls (meterTrace m), g_energyData m)"

lemma meter_core_calls [simp]:
  "meter_core (mcall (Uart_recv n) m) = meter_core m" "meter_core (mcall (Uart_send bs) m) = meter_core m"
  "meter_core (mcall (Meter_sleep n) m) = meter_core m" "meter_core (mcall (Cali_saved c) m) = meter_core m"
  "meter_core (mcall (Report_timer_create n) m) = meter_core m"
  "meter_core (mcall (Report_timer_period n) m) = meter_core m"
  "meter_core (m\<lparr>g_rn8209cCaliData := c\<rparr>) = meter_core m" "meter_core (m\<lparr>reportEnergyTimer := b\<rparr>) = meter_core m"
  by (simp_all add: meter_core_def mcall_def)

lemma core_frame_loop: "frame_loop n M k got m = (left, bs, m') \<Longrightarrow> meter_core m' = meter_core m"
  by (induction n arbitrary: got m) (auto simp: Let_def split: if_splits)

lemma core_read_frame: "rn8209cReadFrame M a buf n m = Some (r, m') \<Longrightarrow> meter_core m' = meter_core m"
  by (auto simp: rn8209cReadFrame_def Let_def split: prod.splits if_splits bind_splits dest!: core_frame_loop)

lemma core_read_ivp: "lum_rn8209cReadIVPData M info m = Some (x, m') \<Longrightarrow> meter_core m' = meter_core m"
  by (auto simp: lum_rn8209cReadIVPData_def Let_def split: bind_splits dest!: core_read_frame)

lemma core_get_ivp: "lum_rn8209cGetIVPData M m = Some (x, m') \<Longrightarrow> meter_core m' = meter_core m"
  by (auto simp: lum_rn8209cGetIVPData_def Let_def split: bind_splits if_splits dest!: core_read_ivp)

lemma core_kdata_loop: "kdata_loop n M tmp s m = Some (x, m') \<Longrightarrow> meter_core m' = meter_core m"
  by (induction n arbitrary: tmp s m) (auto split: bind_splits dest!: core_read_ivp)

lemma core_calc: "lum_rn8209cCalcCaliKdata M e m = Some m' \<Longrightarrow> meter_core m' = meter_core m"
  by (auto simp: lum_rn8209cCalcCaliKdata_def Let_def split: bind_splits if_splits dest!: core_kdata_loop)

lemma core_dispatch: "meter_dispatch E M b (d, m) = Some (d', m') \<Longrightarrow> meter_core m' = meter_core m"
  by (auto simp: meter_dispatch_def lum_queryEnergyData_def lum_localReportEnergyUdata_def lum_replyEnergyUdata_def
    lum_fillEnergyData_def lum_startReportEnergyUdataTimer_def Let_def split: bind_splits if_splits dest!: core_get_ivp)

text \<open>The word that marks a tested device, below the page of the energy counter.\<close>

definition test_mark :: "(nat \<Rightarrow> u8) \<Rightarrow> meter \<Rightarrow> u32" where
  "test_mark z m = of_le32 (flash_bytes z (flash_calls (meterTrace m)) FACTORY_TEST_DATA_OFFSET 4)"

lemma test_mark_core: "meter_core m' = meter_core m \<Longrightarrow> test_mark z m' = test_mark z m"
  by (simp add: meter_core_def test_mark_def)

lemma test_mark_above:
  "4 \<le> off \<Longrightarrow> test_mark z (mcall (Flash (Flash_write off bs)) m) = test_mark z m"
  "4 \<le> off \<Longrightarrow> test_mark z (mcall (Flash (Flash_erase off k)) m) = test_mark z m"
proof -
  show "4 \<le> off \<Longrightarrow> test_mark z (mcall (Flash (Flash_write off bs)) m) = test_mark z m"
    by (simp add: test_mark_def mcall_def written_elsewhere)
  assume "4 \<le> off"
  then have "flash_bytes z (Flash_erase off k # tr) 0 4 = flash_bytes z tr 0 4" for tr
    by (intro flash_bytes_eqI) auto
  then show "test_mark z (mcall (Flash (Flash_erase off k)) m) = test_mark z m"
    by (simp add: test_mark_def mcall_def)
qed

lemma test_mark_energy [simp]: "test_mark z (m\<lparr>g_energyData := g\<rparr>) = test_mark z m"
  by (simp add: test_mark_def)

lemma test_mark_operations:
  "test_mark z (lum_rn8209cClearEnergyData b m) = test_mark z m"
  "test_mark z (lum_rn8209cCfIrq m) = test_mark z m"
  "test_mark z (lum_saveKData m) = test_mark z m"
proof -
  show c: "test_mark z (lum_rn8209cClearEnergyData b m) = test_mark z m" for b m
    by (simp add: lum_rn8209cClearEnergyData_def Let_def test_mark_above)
  show "test_mark z (lum_rn8209cCfIrq m) = test_mark z m"
    by (simp add: lum_rn8209cCfIrq_def lum_rn8209cAddEnergyData_def lum_rn8209cSaveEnergyData_def Let_def test_mark_above c)
  show "test_mark z (lum_saveKData m) = test_mark z m"
    using test_mark_core [of "lum_rn8209cSaveCaliData m" m for m]
    by (simp add: lum_saveKData_def lum_rn8209cSaveCaliData_def c)
qed

lemma test_mark_read:
  assumes "flash_works z (hfuflash_read M)"
  shows "lum_getFactoryTestFlag M m \<longleftrightarrow> test_mark z m \<noteq> FACTORY_TEST_FLAG"
  using assms by (simp add: lum_getFactoryTestFlag_def test_mark_def flash_works_def word_at_def Let_def)

lemma test_mark_set: "test_mark z (lum_setFactoryTestFlag b m) = (if b then 0 else FACTORY_TEST_FLAG)"
proof -
  have w: "flash_bytes z (Flash_write 0 (le32 w) # Flash_erase 0 1 # tr) 0 4 = le32 w" for w tr
    using written_to_erased [of z "Flash_erase 0 1 # tr" 0 "le32 w"] erased [of 0 0 4 1 z tr] by simp
  show ?thesis by (simp add: lum_setFactoryTestFlag_def Let_def test_mark_def mcall_def w del: One_nat_def)
qed

section \<open>The device under test\<close>

text \<open>
  What happens while the test runs: messages, timers, the network, the key, pulses of the meter,
  passes of the thread, and anything else in the part of the device that is common to all products.
\<close>

inductive factory_step :: "sdk \<Rightarrow> meter_sdk \<Rightarrow> factory_sdk \<Rightarrow> product \<Rightarrow> product \<Rightarrow> bool" for E M T where
  readings: "calibrate_dispatch E M b s = Some s' \<Longrightarrow> factory_step E M T s s'"
| meter_message: "meter_dispatch E M b (d, m) = Some (d', m') \<Longrightarrow> factory_step E M T (d, m, f) (d', m', f)"
| readings_timer: "lum_rn8209CaliTimerCallback E (d, f) = Some (d', f') \<Longrightarrow> factory_step E M T (d, m, f) (d', m, f')"
| relay_timer: "factory_step E M T (d, m, f) (d, m, specialRelayTimerCallback T f)"
| joined: "lum_factoryTestDhcpSucc E (d, f) = (d', f') \<Longrightarrow> factory_step E M T (d, m, f) (d', m, f')"
| key: "key_released E (d, f) = Some (d', f') \<Longrightarrow> factory_step E M T (d, m, f) (d', m, f')"
| pulse: "factory_step E M T (d, m, f) (d, lum_rn8209cCfIrq m, f)"
| thread: "factory_step E M T s (snd (lum_enterFactoryTestThread_step E s))"
| device: "factory_step E M T (d, m, f) (d', m, f)"

text \<open>What only grows, and the order of calibration and key presses.\<close>

definition test_grows :: "factory \<Rightarrow> factory \<Rightarrow> bool" where
  "test_grows f f' \<longleftrightarrow> (bInFactoryTest f \<longrightarrow> bInFactoryTest f') \<and> (wifiConnect f \<longrightarrow> wifiConnect f')
     \<and> (calibrate_succ f \<longrightarrow> calibrate_succ f') \<and> (MAX_KEY_PRESS_TIMES \<le> keyPressTimes f \<longrightarrow> MAX_KEY_PRESS_TIMES \<le> keyPressTimes f')"

definition test_order :: "factory \<Rightarrow> bool" where
  "test_order f \<longleftrightarrow> bInFactoryTest f \<and> keyPressTimes f < 200
     \<and> (calibrate_succ f \<longrightarrow> g_calibrateStatus f = CALI_SUCC)
     \<and> (g_calibrateStatus f \<in> {CALI_CLOSED, CALI_FIRST} \<longrightarrow> keyPressTimes f = 0)"

definition test_core :: "factory \<Rightarrow> bool \<times> bool \<times> u8 \<times> bool \<times> rn6209_cali_status" where
  "test_core f = (bInFactoryTest f, wifiConnect f, keyPressTimes f, calibrate_succ f, g_calibrateStatus f)"

lemma test_core_same: "test_core f' = test_core f \<Longrightarrow> test_grows f f' \<and> (test_order f' \<longleftrightarrow> test_order f)"
  by (auto simp: test_core_def test_grows_def test_order_def)

lemma test_core_calls [simp]:
  "test_core (fcall c f) = test_core f" "test_core (f\<lparr>specialRelayTimer := b\<rparr>) = test_core f"
  "test_core (f\<lparr>factoryTrace := tr\<rparr>) = test_core f"
  "test_core (f\<lparr>g_rn8209CaliTimer := b\<rparr>) = test_core f" "test_core (f\<lparr>g_caliPower := p\<rparr>) = test_core f"
  "test_core (f\<lparr>g_checkPower := p\<rparr>) = test_core f" "test_core (f\<lparr>g_calibrateData := e\<rparr>) = test_core f"
  "test_core (lum_startRn8209CaliTimer n f) = test_core f" "test_core (lum_stopRn8209CaliTimer f) = test_core f"
  "test_core (specialRelayTimerCallback T f) = test_core f"
  by (simp_all add: test_core_def fcall_def lum_startRn8209CaliTimer_def lum_stopRn8209CaliTimer_def
    specialRelayTimerCallback_def Let_def)

lemma test_core_set_relay: "set_relay E a (d, m, f) = Some (d', m', f') \<Longrightarrow> m' = m \<and> test_core f' = test_core f"
  by (auto dest!: set_relay_frame)

lemma reading_step:
  assumes "lum_checkCaliData E M c (d, m, f) = Some (d', m', f')"
  shows "test_mark z m' = test_mark z m" "test_grows f f'" "test_order f \<Longrightarrow> test_order f'"
proof -
  define f0 where "f0 = lum_stopRn8209CaliTimer f"
  have f0: "test_core f0 = test_core f" "g_calibrateStatus f0 = g_calibrateStatus f" "calibrate_succ f0 = calibrate_succ f"
    by (simp_all add: f0_def lum_stopRn8209CaliTimer_def fcall_def test_core_def)
  let ?e = "if g_calibrateStatus f \<noteq> CALI_CLOSED then lum_subBasePower c (g_calibrateData f0) else c"
  obtain f1 where run: "(case g_calibrateStatus f of
        CALI_CLOSED \<Rightarrow> first_reading E ?e (d, m, f0)
      | CALI_FIRST \<Rightarrow> calibrate_reading E M ?e (d, m, f0)
      | CALI_CHECK \<Rightarrow> check_reading E M ?e (d, m, f0)
      | CALI_SUCC \<Rightarrow> Some (d, m, f0)) = Some (d', m', f1)" and fin: "test_core f' = test_core f1"
    using assms unfolding lum_checkCaliData_def prod.case Let_def f0_def [symmetric] f0(2)
    by (auto split: bind_splits)
  have both: "(test_core f1 = test_core f
      \<or> test_core f1 = (bInFactoryTest f, wifiConnect f, keyPressTimes f, calibrate_succ f, CALI_FIRST) \<and> g_calibrateStatus f = CALI_CLOSED
      \<or> test_core f1 = (bInFactoryTest f, wifiConnect f, keyPressTimes f, calibrate_succ f, CALI_CHECK) \<and> g_calibrateStatus f = CALI_FIRST
      \<or> test_core f1 = (bInFactoryTest f, wifiConnect f, keyPressTimes f, True, CALI_SUCC) \<and> g_calibrateStatus f = CALI_CHECK)
      \<and> test_mark z m' = test_mark z m"
  proof (cases "g_calibrateStatus f")
    case CALI_CLOSED
    then show ?thesis using run f0(1)
      by (auto simp: first_reading_def split: bind_splits dest!: test_core_set_relay) (auto simp: test_core_def)
  next
    case CALI_FIRST
    then show ?thesis using run f0(1)
      by (auto simp: calibrate_reading_def split: bind_splits if_splits
        dest!: test_core_set_relay core_calc [THEN test_mark_core [where z = z]]) (auto simp: test_core_def)
  next
    case CALI_CHECK
    then show ?thesis using run f0(1)
      by (auto simp: check_reading_def test_mark_operations split: bind_splits if_splits
        dest!: test_core_set_relay core_get_ivp [THEN test_mark_core [where z = z]]) (auto simp: test_core_def)
  qed (use run f0(1) in auto)
  show "test_mark z m' = test_mark z m" using both by simp
  consider "test_core f' = test_core f" | st where "calibrate_succ f \<longrightarrow> g_calibrateStatus f \<noteq> CALI_SUCC"
      "test_core f' = (bInFactoryTest f, wifiConnect f, keyPressTimes f, calibrate_succ f, st)"
      "st = CALI_FIRST \<and> g_calibrateStatus f = CALI_CLOSED \<or> st = CALI_CHECK \<and> g_calibrateStatus f = CALI_FIRST"
    | "test_core f' = (bInFactoryTest f, wifiConnect f, keyPressTimes f, True, CALI_SUCC)"
    using both fin by (elim conjE disjE) simp_all
  then have "test_grows f f' \<and> (test_order f \<longrightarrow> test_order f')"
  proof cases
    case 1
    from test_core_same [OF this] show ?thesis by simp
  qed (auto simp: test_core_def test_grows_def test_order_def)
  then show "test_grows f f'" "test_order f \<Longrightarrow> test_order f'" by simp_all
qed

lemma key_step:
  assumes "key_released E (d, f) = Some (d', f')" "test_order f"
  shows "test_grows f f'" "test_order f'"
proof -
  have "test_grows f f' \<and> test_order f'"
  proof (cases "lum_getKeyEnableStatus f")
    case True
    then obtain d1 d2 f1 a where r: "set_latching_switch E a SWITCH_PIN_1 (d1, f) = Some (d2, f1)"
      "f' = lum_addFactoryKeyPressTimes True f1"
      using assms(1) by (auto simp: key_released_def change_latching_switch_def Let_def split: prod.splits)
    have "set_relay E a (d1, undefined, f) = Some (d2, undefined, f1)" by (simp add: set_relay_def r(1))
    then have c: "test_core f1 = test_core f" by (auto dest!: test_core_set_relay)
    define n where "n = unat (keyPressTimes f)"
    have n: "n < 200" "unat (keyPressTimes f + 1) = n + 1"
      using assms(2) by (auto simp: n_def test_order_def word_less_nat_alt unat_word_ariths)
    show ?thesis using True assms(2) c n
      by (auto simp: r(2) lum_addFactoryKeyPressTimes_def lum_getKeyEnableStatus_def Let_def test_core_def
        test_grows_def test_order_def word_le_nat_alt word_less_nat_alt simp flip: n_def)
  qed (use assms in \<open>simp add: key_released_def test_grows_def\<close>)
  then show "test_grows f f'" "test_order f'" by simp_all
qed

text \<open>The invariant: the order of the test, and a mark only on a device that has passed.\<close>

definition test_sound :: "(nat \<Rightarrow> u8) \<Rightarrow> product \<Rightarrow> bool" where
  "test_sound z = (\<lambda>(d, m, f). test_order f \<and> (test_mark z m = FACTORY_TEST_FLAG \<longrightarrow> lum_checkTestSucc f))"

lemma test_sound_keeps:
  "test_sound z (d, m, f) \<Longrightarrow> test_mark z m' = test_mark z m \<Longrightarrow> test_grows f f' \<Longrightarrow> test_order f' \<Longrightarrow>
   test_sound z (d', m', f')"
  by (auto simp: test_sound_def test_grows_def lum_checkTestSucc_def)

lemma test_sound_step:
  assumes "factory_step E M T s s'" "test_sound z s"
  shows "test_sound z s'"
  using assms(1)
proof cases
  case (readings b)
  obtain d m f d' m' f' where s: "s = (d, m, f)" "s' = (d', m', f')" by (cases s; cases s')
  then consider "m' = m" "f' = f" | c where "lum_checkCaliData E M c (d, m, f) = Some (d', m', f')"
    using readings by (auto simp: calibrate_dispatch_def lum_setCalibrateData_def split: if_splits bind_splits)
  then show ?thesis
  proof cases
    case 2
    then show ?thesis using test_sound_keeps [OF assms(2) [unfolded s]] reading_step [OF 2] assms(2)
      by (simp add: s test_sound_def)
  qed (use assms(2) s in \<open>simp add: test_sound_def\<close>)
next
  case (meter_message b d m d' m' f)
  then show ?thesis using assms(2) test_mark_core [OF core_dispatch] by (auto simp: test_sound_def)
next
  case (readings_timer d f d' f' m)
  then have "test_core f' = test_core f"
    by (auto simp: lum_rn8209CaliTimerCallback_def lum_sendCaliCmd_def split: bind_splits)
  from test_core_same [OF this] show ?thesis
    using test_sound_keeps assms(2) readings_timer by (auto simp: test_sound_def)
next
  case (relay_timer d m f)
  have "test_core (specialRelayTimerCallback T f) = test_core f" by simp
  from test_core_same [OF this] show ?thesis
    using test_sound_keeps assms(2) relay_timer by (auto simp: test_sound_def)
next
  case (joined d f d' f' m)
  have "test_core f' = test_core (f\<lparr>wifiConnect := True\<rparr>)" using joined by (auto simp: lum_factoryTestDhcpSucc_def)
  then have "test_grows f f' \<and> (test_order f \<longrightarrow> test_order f')"
    by (auto simp: test_core_def test_grows_def test_order_def)
  then show ?thesis using test_sound_keeps assms(2) joined by (auto simp: test_sound_def)
next
  case (key d f d' f' m)
  then show ?thesis using test_sound_keeps [of z d m f m f' d'] assms(2) key_step [OF key(3)] by (simp add: test_sound_def)
next
  case (pulse d m f)
  then show ?thesis using assms(2) by (simp add: test_sound_def test_mark_operations)
next
  case thread
  obtain d m f where s: "s = (d, m, f)" by (cases s)
  have "test_core (fcall (Test_sleep 100) f) = test_core f" by simp
  from test_core_same [OF this] show ?thesis
    using assms(2) thread test_sound_keeps
    by (auto simp: s lum_enterFactoryTestThread_step_def test_sound_def test_mark_set)
next
  case (device d m f d')
  then show ?thesis using assms(2) by (simp add: test_sound_def)
qed

lemma test_sound_start:
  assumes "lum_enterFactoryTestThread_start E (d, m, factory_power_on) = Some s" "test_mark z m \<noteq> FACTORY_TEST_FLAG"
  shows "test_sound z s"
proof -
  obtain d1 m1 f1 where r: "set_relay E SWITCH_CLOSE (setWifiLedStatus E WIFI_LED_AP_DISCONNECT d, m,
      factory_power_on\<lparr>bInFactoryTest := True\<rparr>) = Some (d1, m1, f1)" "s = (d1, m1, lum_rn8209CaliInit f1)"
    using assms(1) by (auto simp: lum_enterFactoryTestThread_start_def split: bind_splits)
  from test_core_set_relay [OF r(1)] show ?thesis
    using assms(2) by (simp add: r(2) test_sound_def test_order_def test_core_def lum_rn8209CaliInit_def factory_power_on_def)
qed


section \<open>The coils of the relay\<close>

fun coil_level :: "factory_call list \<Rightarrow> relay_coil \<Rightarrow> bool" where
  "coil_level [] c = False"
| "coil_level (Coil c' b # tr) c = (if c' = c then b else coil_level tr c)"
| "coil_level (_ # tr) c = coil_level tr c"

lemma coil_level_fcall [simp]:
  "coil_level (factoryTrace (fcall c f)) k = coil_level (c # factoryTrace f) k"
  "coil_level (factoryTrace (startSpecialRelayTimer f)) k = coil_level (factoryTrace f) k"
  by (simp_all add: fcall_def startSpecialRelayTimer_def)

text \<open>
  Property C38: the latching relay.  Switching drives one coil, the one of the new position, and
  the timer ends the pulse of whichever coil is driven.  But the coil of the on position is
  switched before the other: when the socket is switched on while the pulse that switched it off
  still lasts, there is an instant at which both coils are driven.
\<close>

theorem relay_pulses:
  "set_latching_switch E a p (d, f) = Some (d', f') \<Longrightarrow> \<forall>tr c. coil_is_high T tr c = coil_level tr c \<Longrightarrow>
   coil_level (factoryTrace f') HFGPIO_F_RELAY_2 = (a = SWITCH_OPEN)
   \<and> coil_level (factoryTrace f') HFGPIO_F_RELAY_1 = (a \<noteq> SWITCH_OPEN)
   \<and> \<not> coil_level (factoryTrace (specialRelayTimerCallback T f')) c
   \<and> (a = SWITCH_OPEN \<and> coil_level (factoryTrace f) HFGPIO_F_RELAY_1 \<longrightarrow>
      (\<exists>later at. factoryTrace f' = later @ at \<and> coil_level at HFGPIO_F_RELAY_1 \<and> coil_level at HFGPIO_F_RELAY_2))"
proof -
  assume run: "set_latching_switch E a p (d, f) = Some (d', f')" and T: "\<forall>tr c. coil_is_high T tr c = coil_level tr c"
  define f1 where "f1 = fcall (Coil HFGPIO_F_RELAY_2 (a = SWITCH_OPEN)) f"
  define f2 where "f2 = fcall (Coil HFGPIO_F_RELAY_1 (a \<noteq> SWITCH_OPEN)) f1"
  have f': "f' = fcall (Relay_led (a \<noteq> SWITCH_OPEN)) (startSpecialRelayTimer f2)"
    using run by (auto simp: set_latching_switch_def Let_def f1_def f2_def split: prod.splits if_splits bind_splits)
  have "\<exists>later. factoryTrace f' = later @ factoryTrace f1"
    by (simp add: f' f2_def startSpecialRelayTimer_def fcall_def)
  then obtain later where "factoryTrace f' = later @ factoryTrace f1" by blast
  then have both: "\<exists>later at. factoryTrace f' = later @ at \<and> coil_level at HFGPIO_F_RELAY_1 \<and> coil_level at HFGPIO_F_RELAY_2"
    if "a = SWITCH_OPEN" "coil_level (factoryTrace f) HFGPIO_F_RELAY_1"
    using that by (intro exI [of _ later] exI [of _ "factoryTrace f1"]) (simp add: f1_def)
  have levels: "coil_level (factoryTrace f') HFGPIO_F_RELAY_2 = (a = SWITCH_OPEN)"
    "coil_level (factoryTrace f') HFGPIO_F_RELAY_1 = (a \<noteq> SWITCH_OPEN)"
    by (simp_all add: f' f2_def f1_def)
  have "\<not> coil_level (factoryTrace (specialRelayTimerCallback T f')) c"
    using levels T by (cases c) (auto simp: specialRelayTimerCallback_def Let_def)
  then show ?thesis using levels both by blast
qed

lemma latching_in_test:
  "bInFactoryTest f \<Longrightarrow> \<exists>d' f'. set_latching_switch E a p (d, f) = Some (d', f') \<and> test_core f' = test_core f"
  by (cases "getSwitchStatus E p d")
    (simp add: set_latching_switch_def Let_def startSpecialRelayTimer_def test_core_def fcall_def)

definition pins_sdk :: factory_sdk where
  "pins_sdk = \<lparr>coil_is_high = coil_level, auto_upgrade_result = (\<lambda>_. -1)\<rparr>"

theorem relay_pulses_witness:
  "\<exists>d' f'. set_latching_switch plain_sdk SWITCH_OPEN SWITCH_PIN_1
        (power_on, fcall (Coil HFGPIO_F_RELAY_1 True) (factory_power_on\<lparr>bInFactoryTest := True\<rparr>)) = Some (d', f')
     \<and> (\<exists>later at. factoryTrace f' = later @ at \<and> coil_level at HFGPIO_F_RELAY_1 \<and> coil_level at HFGPIO_F_RELAY_2)"
proof -
  let ?f = "fcall (Coil HFGPIO_F_RELAY_1 True) (factory_power_on\<lparr>bInFactoryTest := True\<rparr>)"
  have "bInFactoryTest ?f" by (simp add: fcall_def)
  from latching_in_test [OF this] obtain d' f'
    where run: "set_latching_switch plain_sdk SWITCH_OPEN SWITCH_PIN_1 (power_on, ?f) = Some (d', f')" by blast
  have "\<forall>tr c. coil_is_high pins_sdk tr c = coil_level tr c" by (simp add: pins_sdk_def)
  from relay_pulses [OF run this] run show ?thesis by simp
qed


section \<open>A calibration\<close>

text \<open>A chip that measures 230 V and 25 W, the lamp that a reference instrument reads at 25 W too.\<close>

definition lamp_sdk :: meter_sdk where
  "lamp_sdk = erased_meter_sdk\<lparr>hfuart_recv := (\<lambda>tr n.
     if Uart_send [RN8209C_PowerPA] \<in> set tr
     then Some [0, 4, 0x30, 0x76, 0x2F]
     else Some [0x10, 0x2D, 0xE2, 0xBC])\<rparr>"

lemma lamp_measured:
  "\<exists>e m'. lum_rn8209cGetIVPData lamp_sdk (lum_rn8209cInitCaliData new_meter) = Some (e, m') \<and> powerP e = 250"
proof -
  let ?m = "lum_rn8209cInitCaliData new_meter"
  have c: "rn8209cKV (g_rn8209cCaliData ?m) = 4610" "rn8209cKP (g_rn8209cCaliData ?m) = 10982"
    "Uart_send [x] \<notin> set (meterTrace ?m)" for x
    by (simp_all add: lum_rn8209cInitCaliData_def lum_rn8209cSaveCaliData_def mcall_def new_meter_def Let_def)
  have len: "length [0x10, 0x2D, 0xE2 :: u8] = 3" "length [0, 4, 0x30, 0x76 :: u8] = 4" by simp_all
  have a1: "chip_answers lamp_sdk RN8209C_URMS (meterTrace ?m) [0x10, 0x2D, 0xE2] [[0x10, 0x2D, 0xE2, 0xBC]]"
    using c(3) by (simp add: chip_answers_def lamp_sdk_def asked_def rn8209cGetChecksun_def)
  obtain m1 where r1: "rn8209cReadFrame lamp_sdk RN8209C_URMS (replicate 4 0) 3 ?m = Some ((True, [0xE2, 0x2D, 0x10, 0]), m1)"
    "g_rn8209cCaliData m1 = g_rn8209cCaliData ?m" "Uart_send [RN8209C_PowerPA] \<notin> set (meterTrace m1)"
    using chip_answers_frame [OF a1, of "replicate 4 0", unfolded len] c(3) by (simp add: asked_def replicate_4)
  have a2: "chip_answers lamp_sdk RN8209C_PowerPA (meterTrace m1) [0, 4, 0x30, 0x76] [[0, 4, 0x30, 0x76, 0x2F]]"
    using r1(3) by (simp add: chip_answers_def lamp_sdk_def asked_def rn8209cGetChecksun_def)
  obtain m2 where r2: "rn8209cReadFrame lamp_sdk RN8209C_PowerPA (replicate 4 0) 4 m1 = Some ((True, [0x76, 0x30, 4, 0]), m2)"
    "g_rn8209cCaliData m2 = g_rn8209cCaliData ?m"
    using chip_answers_frame [OF a2, of "replicate 4 0", unfolded len] r1(2) by simp
  have w: "of_le32 [0xE2, 0x2D, 0x10, 0] = 0x102DE2" "of_le32 [0x76, 0x30, 4, 0] = 0x43076"
    using of_le32_le32 [of "0x102DE2"] of_le32_le32 [of "0x43076"] by (simp_all add: le32_def)
  have "\<exists>info. lum_rn8209cReadIVPData lamp_sdk (uninitialised_info lamp_sdk ?m) ?m = Some (info, m2)
      \<and> reco_urms info = 0x102DE2 \<and> reco_powerp info = 0x43076"
    by (simp add: lum_rn8209cReadIVPData_def r1(1) r2(1) w)
  then show ?thesis
    by (auto simp: lum_rn8209cGetIVPData_def r2(2) c quot_def s32_def Let_def)
qed

definition second_lamp :: factory where
  "second_lamp = factory_power_on\<lparr>bInFactoryTest := True, g_calibrateStatus := CALI_CHECK, g_caliPower := 1000,
     g_checkPower := 250\<rparr>"

definition lamp_readings :: meature_energy_data where
  "lamp_readings = \<lparr>urms = 230, irms = 10, powerP = 250, energyU = 0\<rparr>"

lemma lamp_limits:
  "stable_power 250 250 = Some True" "lamp_changed 1000 250 = Some True" "power_agrees 250 250 = Some True"
proof -
  have bits: "excess_bits (0x1051EB851EB852 * 250) = 7" "excess_bits (0x1F5C28F5C28F5C * 250) = 8"
    "excess_bits (0x16666666666666 * 250) = 8" "excess_bits (0x18000000000000 * 250) = 8"
    "excess_bits (0x1EB851EB851EB8 * 250) = 8" "excess_bits (0x10A3D70A3D70A4 * 250) = 8"
    by (rule excess_bitsI, simp_all)+
  have "times_1_02 250 = Some 255" "times_0_98 250 = Some 245" "times_0_7 250 = Some 175" "times_1_5 250 = Some 375"
    "times_0_96 250 = Some 240" "times_1_04 250 = Some 260"
    unfolding times_double_def Let_def by (simp_all add: bits [simplified] round_even_def)
  then show "stable_power 250 250 = Some True" "lamp_changed 1000 250 = Some True" "power_agrees 250 250 = Some True"
    by (simp_all add: stable_power_def lamp_changed_def power_agrees_def)
qed

theorem calibration_ends_with_accurate_meter_witness:
  "\<exists>d' m' f'. lum_checkCaliData plain_sdk lamp_sdk lamp_readings (power_on, lum_rn8209cInitCaliData new_meter, second_lamp)
       = Some (d', m', f') \<and> g_calibrateStatus f' = CALI_SUCC
     \<and> (\<exists>(tmp :: meature_energy_data) m1. m' = lum_saveKData m1 \<and> 96 * 250 \<le> 100 * unat (powerP tmp) + 100 \<and> 100 * unat (powerP tmp) \<le> 104 * 250)"
proof -
  let ?m = "lum_rn8209cInitCaliData new_meter"
  define f0 where "f0 = lum_stopRn8209CaliTimer second_lamp"
  have f0: "g_calibrateStatus f0 = CALI_CHECK" "g_caliPower f0 = 1000" "g_checkPower f0 = 250" "bInFactoryTest f0"
    "g_calibrateData f0 = zero_readings" "\<not> calibrate_succ second_lamp"
    by (simp_all add: f0_def second_lamp_def lum_stopRn8209CaliTimer_def fcall_def factory_power_on_def)
  have e: "powerP (lum_subBasePower lamp_readings zero_readings) = 250"
    by (simp add: lum_subBasePower_def lamp_readings_def zero_readings_def)
  obtain tmp m1 where t: "lum_rn8209cGetIVPData lamp_sdk ?m = Some (tmp, m1)" "powerP tmp = 250"
    using lamp_measured by blast
  have "bInFactoryTest (f0\<lparr>g_calibrateStatus := CALI_SUCC, calibrate_succ := True\<rparr>)" using f0(4) by simp
  from latching_in_test [OF this] obtain d' f' where l: "set_latching_switch plain_sdk SWITCH_CLOSE SWITCH_PIN_1
      (power_on, f0\<lparr>g_calibrateStatus := CALI_SUCC, calibrate_succ := True\<rparr>) = Some (d', f')"
    "test_core f' = test_core (f0\<lparr>g_calibrateStatus := CALI_SUCC, calibrate_succ := True\<rparr>)" by blast
  have f': "g_calibrateStatus f' = CALI_SUCC" "calibrate_succ f'" using l(2) by (simp_all add: test_core_def)
  have run: "lum_checkCaliData plain_sdk lamp_sdk lamp_readings (power_on, ?m, second_lamp) = Some (d', lum_saveKData m1, f')"
    unfolding lum_checkCaliData_def prod.case Let_def f0_def [symmetric]
    by (simp add: f0 e check_reading_def lamp_limits t set_relay_def l(1) f'(1))
  have p: "250 = unat (powerP (lum_subBasePower lamp_readings (g_calibrateData second_lamp)))"
    using e by (simp add: second_lamp_def factory_power_on_def)
  from calibration_ends_with_accurate_meter [OF run f0(6) f'(2) p] run show ?thesis
    by (elim conjE exE) (intro exI conjI, assumption+)
qed

text \<open>
  During the calibration a lamp whose current reading is not above the base reading
  makes the device divide by zero: the power is checked before the constants are computed, the
  current, which is a divisor too, is not.
\<close>

theorem calibration_without_current_faults:
  "g_calibrateStatus f = CALI_FIRST \<Longrightarrow> irms c \<le> irms (g_calibrateData f) \<Longrightarrow>
   p = powerP (lum_subBasePower c (g_calibrateData f)) \<Longrightarrow> 200 < p \<Longrightarrow> stable_power (g_caliPower f) p = Some True \<Longrightarrow>
   lum_checkCaliData E M c (d, m, f) = None"
proof -
  assume f: "g_calibrateStatus f = CALI_FIRST" "irms c \<le> irms (g_calibrateData f)"
    "p = powerP (lum_subBasePower c (g_calibrateData f))" "200 < p" "stable_power (g_caliPower f) p = Some True"
  define f0 where "f0 = lum_stopRn8209CaliTimer f"
  have f0: "g_calibrateStatus f0 = CALI_FIRST" "g_calibrateData f0 = g_calibrateData f" "g_caliPower f0 = g_caliPower f"
    using f(1) by (simp_all add: f0_def lum_stopRn8209CaliTimer_def fcall_def)
  have zero: "irms (lum_subBasePower c (g_calibrateData f)) = 0" using f(2) by (simp add: lum_subBasePower_def not_less [symmetric])
  then have "lum_rn8209cCalcCaliKdata M (lum_subBasePower c (g_calibrateData f)) m = None"
    by (simp add: lum_rn8209cCalcCaliKdata_def quot_def split: bind_splits)
  then show ?thesis
    using f unfolding lum_checkCaliData_def prod.case Let_def f0_def [symmetric]
    by (simp add: f0 calibrate_reading_def)
qed

theorem calibration_without_current_faults_witness:
  "lum_checkCaliData plain_sdk lamp_sdk (lamp_readings\<lparr>irms := 0\<rparr>)
     (power_on, new_meter, second_lamp\<lparr>g_calibrateStatus := CALI_FIRST, g_caliPower := 250\<rparr>) = None"
  by (rule calibration_without_current_faults [OF _ _ refl])
    (simp_all add: second_lamp_def factory_power_on_def zero_readings_def lamp_readings_def lum_subBasePower_def lamp_limits(1))
end
