(* ===== verification/Instrument.thy ===== *)
theory Instrument
  imports Factory_Test
begin

text \<open>
  The other side of the calibration: the same firmware compiled as the reference instrument
  (\<open>RN8209_PRECISION_MACHINE\<close> in \<open>P2_Config.h\<close>).  It measures and answers the requests of the devices
  under test, and sends these answers under the MAC address of the factory tool.
\<close>

section \<open>The instrument\<close>

text \<open>
  \<open>createSendSocketData\<close> of this product has the address of the factory tool in the header of a
  reading; it reads the device's own address nowhere else, so the packet is the one of a device
  with that address.
\<close>

definition with_mac :: "u8 list \<Rightarrow> device \<Rightarrow> device" where
  "with_mac mac d = upd_global (\<lambda>g. g\<lparr>macAddr := mac\<rparr>) d"

definition instrument_sends ::
    "sdk \<Rightarrow> create_socket_data \<Rightarrow> msg_node_body \<Rightarrow> device \<Rightarrow> device option" where
  "instrument_sends E c pNode d = do {
     cmd \<leftarrow> rd (bodyData c) 0;
     if cmd = MSG_CMD_GET_CALIBRATE_DATA
     then map_option (with_mac (macAddr (globalData d))) (msgSendSocketData E c pNode (with_mac FACTORY_TOOL_MAC d))
     else msgSendSocketData E c pNode d
   }"

text \<open>The bytes of a \<open>MeatureEnergyData\<close> in memory.\<close>

definition reading_bytes :: "meature_energy_data \<Rightarrow> u8 list" where
  "reading_bytes e = le16 (urms e) @ le16 (irms e) @ le32 (powerP e) @ le32 (energyU e)"

definition lum_replyCalibrateData ::
    "sdk \<Rightarrow> meter_sdk \<Rightarrow> msg_node_body \<Rightarrow> device \<times> meter \<Rightarrow> (device \<times> meter) option" where
  "lum_replyCalibrateData E M pNode s = do {
     (e, m) \<leftarrow> lum_rn8209cGetIVPDataCali M (snd s);
     d \<leftarrow> instrument_sends E ((socket_data 1 (ucast (cmdData pNode) # reading_bytes e))\<lparr>bEncrypt := 0\<rparr>) pNode (fst s);
     Some (d, m)
   }"

text \<open>The check of a received packet does not look at the address in this product.\<close>

definition instrument_accepts :: "u8 list \<Rightarrow> bool option" where
  "instrument_accepts socketData = do {
     deviceType \<leftarrow> rd socketData 12;
     license \<leftarrow> rds socketData 14 2;
     Some (deviceType = SOCKET_HEADER_DEVICE_TYPE \<and> of_le16 license = SOCKET_HEADER_LICENSE_DATA)
   }"

section \<open>What the device under test receives\<close>

lemma readings_of_bytes: "readings_of (reading_bytes e @ t) = e"
  by (simp add: readings_of_def reading_bytes_def)

lemma with_mac_fields [simp]:
  "macAddr (globalData (with_mac mac d)) = mac" "keyData (globalData (with_mac mac d)) = keyData (globalData d)"
  "deviceConfigData (with_mac mac d) = deviceConfigData d" "sendList (with_mac mac d) = sendList d"
  "nextAddr (with_mac mac d) = nextAddr d" "sends (with_mac mac d) q = sends d q"
  by (simp_all add: with_mac_def upd_global_def sends_def)

lemma length_tool_mac [simp]: "length FACTORY_TOOL_MAC = 6"
  by (simp add: FACTORY_TOOL_MAC_def)

definition reading_reply :: "meature_energy_data \<Rightarrow> create_socket_data" where
  "reading_reply e = (socket_data 1 (0xFE # reading_bytes e))\<lparr>bEncrypt := 0\<rparr>"

lemma reading_reply_fields [simp]:
  "bEncrypt (reading_reply e) = 0" "createReback (reading_reply e) = 1" "bodyData (reading_reply e) = 0xFE # reading_bytes e"
  "unat (bodyLen (reading_reply e)) = 13" "sendable (reading_reply e)"
  by (simp_all add: reading_reply_def socket_data_def reading_bytes_def sendable_def)

text \<open>An unencrypted packet does not depend on the keys, which the two devices need not share.\<close>

lemma open_wire_keys:
  assumes "keyType c = AES_KEY_OPEN"
  shows "wire c (upd_global (\<lambda>g. g\<lparr>keyData := k\<rparr>) d) = wire c d"
  using assms by (simp add: wire_def packet_def packet_header_def cipher_text_def upd_global_def)

lemma rejected_packet:
  assumes d: "keys_ok d" "sendable c" and c: "hd (bodyData c) = 0xFE" and mac: "macAddr (globalData d) = FACTORY_TOOL_MAC"
    "macAddr (globalData dr) \<noteq> FACTORY_TOOL_MAC"
  shows "lum_checkSocketAfterAES (packet c d @ t) dr = Some False"
proof -
  obtain bs where b: "take (unat (bodyLen c)) (bodyData c) = 0xFE # bs"
    using d(2) c by (cases "bodyData c"; cases "unat (bodyLen c)") (auto simp: sendable_def)
  have "rds (packet c d @ t) 2 6 = Some FACTORY_TOOL_MAC"
    "rd (packet c d @ t) 16 = Some 0xFE" "rd (packet c d @ t) 12 = Some 0xDF"
    "rds (packet c d @ t) 14 2 = Some [0x21, 0xB4]"
    by (simp_all add: packet_def packet_header_bytes mac(1) b rds_def rd_def nth_append le16_def)
  then show ?thesis using mac(2) by (simp add: lum_checkSocketAfterAES_def)
qed

lemma reply_of_instrument:
  assumes q: "sends d q" and ok: "device_ok d" and m: "memory_left E" and p: "msgOrigin p = MSG_FROM_UDP" "cmdData p = 0xFE"
    and e: "lum_rn8209cGetIVPDataCali M m0 = Some (e, m1)"
  obtains d' n where "lum_replyCalibrateData E M p (d, m0) = Some (d', m1)" "sends d' (q @ [(nextAddr d, n)])"
    "payload n = wire (addressed (reading_reply e) (snIndex p) p (with_mac FACTORY_TOOL_MAC d)) (with_mac FACTORY_TOOL_MAC d)"
proof -
  let ?d = "with_mac FACTORY_TOOL_MAC d"
  have k: "keys_ok ?d" "\<not> lum_getUdpLogFlag ?d" "sends ?d q"
    using ok q by (simp_all add: device_ok_def keys_ok_def lum_getUdpLogFlag_def)
  obtain d2 n where s: "msgSendSocketData E (reading_reply e) p ?d = Some d2" "sends d2 (q @ [(nextAddr ?d, n)])"
      "queues_packet (reading_reply e) (snIndex p) p ?d n"
  proof -
    obtain sn d2 where "msgSendSocketData E (reading_reply e) p ?d = Some d2"
        "sn = (if createReback (reading_reply e) = 1 then snIndex p else fst (getSocketSn True ?d))"
        "sends d2 q \<and> (msgOrigin p = MSG_LOCAL_EVENT \<or> (\<exists>tr n. \<not> hfmem_malloc E tr n))
         \<or> (\<exists>n. sends d2 (q @ [(nextAddr ?d, n)]) \<and> queues_packet (reading_reply e) sn p ?d n)"
      by (rule msgSendSocketData_queues [OF k(3,1,2) reading_reply_fields(5)])
    then show ?thesis using m p(1) that by (auto simp: memory_left_def)
  qed
  have "instrument_sends E (reading_reply e) p d = Some (with_mac (macAddr (globalData d)) d2)"
    using s(1) by (simp add: instrument_sends_def rd_def)
  then have "lum_replyCalibrateData E M p (d, m0) = Some (with_mac (macAddr (globalData d)) d2, m1)"
    using e p(2) by (simp add: lum_replyCalibrateData_def reading_reply_def)
  then show ?thesis using s(2,3) that by (auto simp: queues_packet_def)
qed

text \<open>
  Property C40: the answer of the instrument has the right contents but the wrong address.  The
  packet that a device compiled as instrument puts into its send list carries its measurement: a
  device that accepts it checks its calibration with exactly that reading.  But only a device whose
  own address is the one of the factory tool accepts it.  Every other device drops it and stays as
  it was, since its check lets the address of the tool pass for one other command only.
\<close>

theorem instrument_answer_is_dropped:
  "sends d q \<Longrightarrow> device_ok d \<Longrightarrow> memory_left E \<Longrightarrow> msgOrigin p = MSG_FROM_UDP \<Longrightarrow> cmdData p = 0xFE \<Longrightarrow>
   lum_rn8209cGetIVPDataCali M m0 = Some (e, m1) \<Longrightarrow> device_ok dr \<Longrightarrow> memory_left E' \<Longrightarrow> msgs dr mq \<Longrightarrow> length mq < 256 \<Longrightarrow>
   \<exists>d' n ok dr'. lum_replyCalibrateData E M p (d, m0) = Some (d', m1) \<and> sends d' (q @ [(nextAddr d, n)])
     \<and> insertSocketMsgToList E' MSG_FROM_UDP (payload n) (of_nat (length (payload n))) ip dr = Some (ok, dr')
     \<and> (if macAddr (globalData dr) = FACTORY_TOOL_MAC
        then ok \<and> (\<exists>b. msgs dr' (mq @ [(nextAddr dr, b)])
                \<and> (\<forall>M' s. lum_setCalibrateData E' M' b s = lum_checkCaliData E' M' e s))
        else \<not> ok \<and> quiet dr dr')"
proof -
  assume q: "sends d q" "device_ok d" "memory_left E" and p: "msgOrigin p = MSG_FROM_UDP" "cmdData p = 0xFE"
    and e: "lum_rn8209cGetIVPDataCali M m0 = Some (e, m1)"
    and dr: "device_ok dr" "memory_left E'" "msgs dr mq" "length mq < 256"
  let ?d = "with_mac FACTORY_TOOL_MAC d"
  obtain d' n where r: "lum_replyCalibrateData E M p (d, m0) = Some (d', m1)" "sends d' (q @ [(nextAddr d, n)])"
      "payload n = wire (addressed (reading_reply e) (snIndex p) p ?d) ?d"
    using reply_of_instrument [OF q p e] .
  define c where "c = addressed (reading_reply e) (snIndex p) p ?d"
  define da where "da = upd_global (\<lambda>g. g\<lparr>keyData := keyData (globalData dr)\<rparr>) ?d"
  have kt: "keyType c = AES_KEY_OPEN" "bEncrypt c = 0" "bodyData c = 0xFE # reading_bytes e" "unat (bodyLen c) = 13" "sendable c"
    by (simp_all add: c_def addressed_def getSocketAesKeyType_def)
      (simp add: sendable_def, simp add: reading_bytes_def)
  have pay: "payload n = wire c da"
    using r(3) open_wire_keys [OF kt(1)] by (simp add: c_def da_def)
  have da: "keys_ok da" "keyData (globalData dr) = keyData (globalData da)" "macAddr (globalData da) = FACTORY_TOOL_MAC"
    using dr(1) by (simp_all add: da_def device_ok_def keys_ok_def upd_global_def with_mac_def)
  have open_key: "keyType c = getSocketAesKeyType MSG_FROM_UDP (bEncrypt c AND 1) da"
    by (simp add: kt getSocketAesKeyType_def)
  show ?thesis
  proof (cases "macAddr (globalData dr) = FACTORY_TOOL_MAC")
    case True
    then have mac: "macAddr (globalData dr) = macAddr (globalData da)" using da(3) by simp
    obtain dr' b where i: "insertSocketMsgToList E' MSG_FROM_UDP (payload n) (of_nat (length (payload n))) ip dr = Some (True, dr')"
        "msgs dr' (mq @ [(nextAddr dr, b)])" "carries b (take (unat (bodyLen c)) (bodyData c))"
      by (rule insertSocketMsgToList_wire [OF dr(1) da(1,2) mac kt(5) open_key _ dr(3,4,2), of "[]" ip, unfolded append_Nil2 pay [symmetric]])
        simp_all
    have "carries b (0xFE # reading_bytes e)" using i(3) kt(3,4) by (simp add: reading_bytes_def)
    from carries_bytes [OF this, of 1 12] have "body_bytes b 1 12 = Some (reading_bytes e)" by (simp add: reading_bytes_def)
    then have "lum_setCalibrateData E' M' b s = lum_checkCaliData E' M' e s" for M' s
      using readings_of_bytes [of e "[]"] by (simp add: lum_setCalibrateData_def)
    then show ?thesis using r(1,2) i(1,2) True by metis
  next
    case False
    have krd: "keys_ok dr" using dr(1) by (simp add: device_ok_def)
    obtain x dr1 where x: "encryptRecvSocketData E' MSG_FROM_UDP (payload n) (of_nat (length (payload n))) dr = Some (x, dr1)"
        "x = None \<or> (\<exists>rest. x = Some (packet (c\<lparr>createSn := htons (createSn c)\<rparr>) da @ rest, of_nat (16 + unat (bodyLen c))))"
      using encryptRecvSocketData_wire [OF da(1) krd kt(5) da(2) open_key, of E' "[]"] unfolding append_Nil2 pay [symmetric] by auto
    note f = encryptRecvSocketData_frame [OF x(1)]
    have acc: "lum_checkSocketBeforeAES (of_nat (length (payload n))) (payload n) = Some True"
      using wire_accepted [OF da(1) kt(5), of "[]"] by (simp add: pay)
    have sc: "sendable (c\<lparr>createSn := htons (createSn c)\<rparr>)" using kt(5) by (simp add: sendable_def)
    have mac1: "macAddr (globalData dr1) \<noteq> FACTORY_TOOL_MAC" 
      using False f quietD(4) [of dr dr1] by (simp add: alloc_frame_def)
    have rej: "lum_checkSocketAfterAES (packet (c\<lparr>createSn := htons (createSn c)\<rparr>) da @ rest) dr1 = Some False" for rest
      by (rule rejected_packet [OF da(1) sc _ da(3) mac1]) (simp add: kt(3))
    have "\<exists>dr'. insertSocketMsgToList E' MSG_FROM_UDP (payload n) (of_nat (length (payload n))) ip dr = Some (False, dr')
        \<and> alloc_frame dr dr'"
      using x acc rej f free_alloc_frame [OF f] by (auto simp: insertSocketMsgToList_def)
    then show ?thesis using r(1,2) False unfolding alloc_frame_def by metis
  qed
qed

section \<open>An instrument that measures\<close>

text \<open>A chip that answers each question for voltage or power with 230 V and 25 W.\<close>

definition steady_sdk :: meter_sdk where
  "steady_sdk = erased_meter_sdk\<lparr>hfuart_recv := (\<lambda>tr n. case tr of
       Uart_send [a] # _ \<Rightarrow> Some (if a = RN8209C_PowerPA then [0, 4, 0x30, 0x76, 0x2F] else [0x10, 0x2D, 0xE2, 0xBC])
     | _ \<Rightarrow> None)\<rparr>"

lemma steady_measures:
  assumes cal: "rn8209cKV (g_rn8209cCaliData m) = 4610" "rn8209cKP (g_rn8209cCaliData m) = 10982"
  shows "\<exists>e m'. lum_rn8209cGetIVPData steady_sdk m = Some (e, m') \<and> g_rn8209cCaliData m' = g_rn8209cCaliData m"
proof -
  have len: "length [0x10, 0x2D, 0xE2 :: u8] = 3" "length [0, 4, 0x30, 0x76 :: u8] = 4" by simp_all
  have a1: "chip_answers steady_sdk RN8209C_URMS tr [0x10, 0x2D, 0xE2] [[0x10, 0x2D, 0xE2, 0xBC]]" for tr
    by (simp add: chip_answers_def steady_sdk_def asked_def rn8209cGetChecksun_def)
  obtain m1 where r1: "rn8209cReadFrame steady_sdk RN8209C_URMS (replicate 4 0) 3 m = Some ((True, [0xE2, 0x2D, 0x10, 0]), m1)"
    "g_rn8209cCaliData m1 = g_rn8209cCaliData m"
    using chip_answers_frame [OF a1, of "replicate 4 0", unfolded len] by (simp add: asked_def replicate_4)
  have a2: "chip_answers steady_sdk RN8209C_PowerPA tr [0, 4, 0x30, 0x76] [[0, 4, 0x30, 0x76, 0x2F]]" for tr
    by (simp add: chip_answers_def steady_sdk_def asked_def rn8209cGetChecksun_def)
  obtain m2 where r2: "rn8209cReadFrame steady_sdk RN8209C_PowerPA (replicate 4 0) 4 m1 = Some ((True, [0x76, 0x30, 4, 0]), m2)"
    "g_rn8209cCaliData m2 = g_rn8209cCaliData m"
    using chip_answers_frame [OF a2, of "replicate 4 0", unfolded len] r1(2) by simp
  have w: "of_le32 [0xE2, 0x2D, 0x10, 0] = 0x102DE2" "of_le32 [0x76, 0x30, 4, 0] = 0x43076"
    using of_le32_le32 [of "0x102DE2"] of_le32_le32 [of "0x43076"] by (simp_all add: le32_def)
  have "\<exists>info. lum_rn8209cReadIVPData steady_sdk (uninitialised_info steady_sdk m) m = Some (info, m2)
      \<and> reco_urms info = 0x102DE2 \<and> reco_powerp info = 0x43076"
    by (simp add: lum_rn8209cReadIVPData_def r1(1) r2(1) w)
  then show ?thesis
    by (auto simp: lum_rn8209cGetIVPData_def r2(2) cal quot_def s32_def Let_def)
qed

lemma steady_loop:
  "rn8209cKV (g_rn8209cCaliData m) = 4610 \<Longrightarrow> rn8209cKP (g_rn8209cCaliData m) = 10982 \<Longrightarrow>
   \<exists>s' m'. cali_loop n steady_sdk s m = Some (s', m')"
proof (induction n arbitrary: s m)
  case (Suc n)
  obtain e m1 where e: "lum_rn8209cGetIVPData steady_sdk m = Some (e, m1)" "g_rn8209cCaliData m1 = g_rn8209cCaliData m"
    using steady_measures [OF Suc.prems] by blast
  then show ?case using Suc.IH [of "mcall (Meter_sleep 100) m1" "cali_add s e"] Suc.prems by (simp add: mcall_def)
qed simp

theorem instrument_answer_is_dropped_witness:
  "\<exists>d' n m1 dr'. lum_replyCalibrateData plain_sdk steady_sdk (udp_message [0xFE]) (power_on, lum_rn8209cInitCaliData new_meter)
       = Some (d', m1) \<and> sends d' [(nextAddr power_on, n)]
     \<and> insertSocketMsgToList plain_sdk MSG_FROM_UDP (payload n) (of_nat (length (payload n))) 1 power_on = Some (False, dr')"
proof -
  let ?m = "lum_rn8209cInitCaliData new_meter"
  have c: "rn8209cKV (g_rn8209cCaliData ?m) = 4610" "rn8209cKP (g_rn8209cCaliData ?m) = 10982"
    by (simp_all add: lum_rn8209cInitCaliData_def lum_rn8209cSaveCaliData_def mcall_def new_meter_def Let_def)
  obtain e m1 where e: "lum_rn8209cGetIVPDataCali steady_sdk ?m = Some (e, m1)"
    using steady_loop [OF c] by (fastforce simp: lum_rn8209cGetIVPDataCali_def)
  have p: "msgOrigin (udp_message [0xFE]) = MSG_FROM_UDP" "cmdData (udp_message [0xFE]) = 0xFE" by (simp_all add: udp_message_def)
  have mac: "macAddr (globalData power_on) \<noteq> FACTORY_TOOL_MAC"
  proof
    assume "macAddr (globalData power_on) = FACTORY_TOOL_MAC"
    then have "hd (replicate 6 (0 :: u8)) = hd FACTORY_TOOL_MAC" by (simp add: power_on_def zero_global_def)
    then show False by (simp add: FACTORY_TOOL_MAC_def ascii_def)
  qed
  have few: "length ([] :: (nat \<times> msg_node_body) list) < 256" by simp
  obtain d' n ok dr' where r:
      "lum_replyCalibrateData plain_sdk steady_sdk (udp_message [0xFE]) (power_on, ?m) = Some (d', m1)"
      "sends d' ([] @ [(nextAddr power_on, n)])"
      "insertSocketMsgToList plain_sdk MSG_FROM_UDP (payload n) (of_nat (length (payload n))) 1 power_on = Some (ok, dr')"
      "\<not> ok"
    using instrument_answer_is_dropped [OF sends_power_on device_ok_power_on memory_left_plain p e device_ok_power_on
        memory_left_plain msgs_power_on few, of 1] mac by (auto simp only: if_False)
  then show ?thesis by (simp only: append_Nil) blast
qed
end
