(* ===== verification/Flash_Log.thy ===== *)
theory Flash_Log
  imports Udp_Log Ito_Common Flash
begin

text \<open>
  The log in flash (\<open>lumLog.c\<close>, compiled with \<open>SAVE_LOG_TO_FLASH\<close>).  The user flash holds two
  areas of equal size, the log and its backup, and a page with a flag and the length of the backup.
  The log is appended to; when an entry does not fit any more, the log is copied to the backup and
  started again.  At the start of the device the length of the log is found by searching for the
  first byte that is still erased.
\<close>

abbreviation (input) "PER_READ_SIZE \<equiv> 256"
abbreviation (input) "MAX_FLASH_SIZE \<equiv> 122880"
abbreviation (input) "FLASH_LOG_OFFSET \<equiv> 0"
abbreviation (input) "FLASH_LOG_SIZE \<equiv> 61440"
abbreviation (input) "FLASH_BAK_LOG_OFFSET \<equiv> 61440"
abbreviation (input) "FLASH_LOG_INFO_OFFSET \<equiv> 122880"
abbreviation (input) "FLASH_LOG_INFO_SIZE \<equiv> 8"
abbreviation (input) "FLASH_LOG_FLAG \<equiv> 0xEDCBA987"

section \<open>State\<close>

datatype log_call =
    Log_flash flash_call
  | Log_mutex_new | Log_lock | Log_unlock | Log_sleep nat | Log_thread_create | Log_thread_destroy

record flash_log =
  g_flashLogLen :: u32
  logTrace :: "log_call list"

text \<open>
  What a read returns (no byte for an error), the result of a write, and what a buffer on the stack
  holds before it is written.
\<close>

record flash_log_sdk =
  log_read :: "flash_call list \<Rightarrow> nat \<Rightarrow> nat \<Rightarrow> u8 list"
  log_written :: "log_call list \<Rightarrow> nat \<Rightarrow> u8 list \<Rightarrow> int"
  log_stack :: "log_call list \<Rightarrow> u8 list"

fun log_flash_calls :: "log_call list \<Rightarrow> flash_call list" where
  "log_flash_calls [] = []"
| "log_flash_calls (Log_flash c # tr) = c # log_flash_calls tr"
| "log_flash_calls (_ # tr) = log_flash_calls tr"

definition lcall :: "log_call \<Rightarrow> flash_log \<Rightarrow> flash_log" where
  "lcall c l = l\<lparr>logTrace := c # logTrace l\<rparr>"

definition log_bytes :: "flash_log_sdk \<Rightarrow> flash_log \<Rightarrow> nat \<Rightarrow> nat \<Rightarrow> u8 list" where
  "log_bytes L l off n = take n (log_read L (log_flash_calls (logTrace l)) off n)"

section \<open>The operations\<close>

definition writeFlashLogFlag :: "flash_log \<Rightarrow> flash_log" where
  "writeFlashLogFlag l =
     (let info = le32 FLASH_LOG_FLAG @ le32 (g_flashLogLen l);
          l1 = lcall Log_unlock (lcall (Log_flash (Flash_write FLASH_LOG_INFO_OFFSET info))
                 (lcall (Log_flash (Flash_erase FLASH_LOG_INFO_OFFSET 1)) (lcall Log_lock l)))
      in l1\<lparr>g_flashLogLen := 0\<rparr>)"

text \<open>The flag and the length of the backup.\<close>

definition readFlashFlag :: "flash_log_sdk \<Rightarrow> flash_log \<Rightarrow> u32 \<times> u32" where
  "readFlashFlag L l =
     (let info = overlay (log_bytes L l FLASH_LOG_INFO_OFFSET FLASH_LOG_INFO_SIZE) (replicate FLASH_LOG_INFO_SIZE 0)
      in (word_at info 0, word_at info 1))"

primrec copy_blocks :: "nat \<Rightarrow> flash_log_sdk \<Rightarrow> nat \<Rightarrow> u8 list \<Rightarrow> flash_log \<Rightarrow> flash_log" where
  "copy_blocks 0 L offset tmpBuf l = l"
| "copy_blocks (Suc n) L offset tmpBuf l =
     (let buf = overlay (log_bytes L l (FLASH_LOG_OFFSET + offset) PER_READ_SIZE) tmpBuf
      in copy_blocks n L (offset + PER_READ_SIZE) buf
           (lcall (Log_flash (Flash_write (FLASH_BAK_LOG_OFFSET + offset) (take PER_READ_SIZE buf))) l))"

definition copyLogToBakFlash :: "flash_log_sdk \<Rightarrow> flash_log \<Rightarrow> flash_log" where
  "copyLogToBakFlash L l =
     (let pages = FLASH_LOG_SIZE div HFFLASH_PAGE_SIZE;
          l1 = lcall (Log_flash (Flash_erase FLASH_BAK_LOG_OFFSET pages)) (lcall Log_lock l);
          l2 = copy_blocks (FLASH_LOG_SIZE div PER_READ_SIZE) L 0 (log_stack L (logTrace l)) l1
      in writeFlashLogFlag (lcall Log_unlock (lcall (Log_flash (Flash_erase FLASH_LOG_OFFSET pages)) l2)))"

definition clearAllFlashLog :: "flash_log \<Rightarrow> flash_log" where
  "clearAllFlashLog l = writeFlashLogFlag (lcall Log_unlock
     (lcall (Log_flash (Flash_erase FLASH_LOG_OFFSET (MAX_FLASH_SIZE div HFFLASH_PAGE_SIZE))) (lcall Log_lock l)))"

text \<open>The search for the end of the log, block by block; the result is \<open>readOffset\<close> after the loop.\<close>

function log_scan :: "flash_log_sdk \<Rightarrow> flash_log \<Rightarrow> nat \<Rightarrow> nat" where
  "log_scan L l readOffset =
     (if readOffset \<ge> FLASH_LOG_SIZE then readOffset
      else let readBuf = log_bytes L l readOffset PER_READ_SIZE
      in if readBuf = [] then readOffset
      else if last readBuf = 0xFF then readOffset + length (takeWhile (\<lambda>b. b \<noteq> 0xFF) readBuf)
      else log_scan L l (readOffset + length readBuf))"
  by pat_completeness auto
termination
  by (relation "measure (\<lambda>(L, l, off). FLASH_LOG_SIZE - off)") (auto simp flip: length_greater_0_conv)

declare log_scan.simps [simp del]

definition getFlashSavedLogLen :: "flash_log_sdk \<Rightarrow> flash_log \<Rightarrow> flash_log" where
  "getFlashSavedLogLen L l =
     (if fst (readFlashFlag L l) \<noteq> FLASH_LOG_FLAG then clearAllFlashLog l
      else let l1 = lcall Log_lock l;
               readOffset = log_scan L l1 0;
               l2 = lcall Log_unlock l1
      in if readOffset \<ge> FLASH_LOG_SIZE then copyLogToBakFlash L l2
         else l2\<lparr>g_flashLogLen := of_nat readOffset\<rparr>)"

definition saveFlashLog :: "flash_log_sdk \<Rightarrow> u8 list \<Rightarrow> flash_log \<Rightarrow> flash_log" where
  "saveFlashLog L saveData l =
     (let l1 = (if FLASH_LOG_SIZE \<le> of_nat (length saveData) + g_flashLogLen l then copyLogToBakFlash L l else l);
          l2 = lcall Log_lock l1;
          writeLen = log_written L (logTrace l2) (unat (g_flashLogLen l2)) saveData;
          l3 = lcall (Log_flash (Flash_write (unat (g_flashLogLen l2)) saveData)) l2;
          l4 = (if writeLen > 0 then l3\<lparr>g_flashLogLen := g_flashLogLen l3 + of_int writeLen\<rparr> else l3)
      in lcall Log_unlock l4)"

definition initFlashLog :: "flash_log_sdk \<Rightarrow> flash_log \<Rightarrow> flash_log" where
  "initFlashLog L l = getFlashSavedLogLen L (lcall Log_mutex_new l)"

text \<open>Showing the log: it is sent over UDP, a block at a time.\<close>

partial_function (option) show_blocks ::
    "sdk \<Rightarrow> flash_log_sdk \<Rightarrow> u32 \<Rightarrow> u32 \<Rightarrow> u32 \<Rightarrow> device \<times> flash_log \<Rightarrow> (device \<times> flash_log) option" where
  "show_blocks E L readOffset readLen maxReadOffset s =
     (if \<not> readOffset < maxReadOffset then Some s
      else let len = (if readOffset + PER_READ_SIZE > maxReadOffset then maxReadOffset - readOffset else readLen);
               got = log_bytes L (snd s) (unat readOffset) (unat len)
      in if got = [] then Some s
      else do {
        (_, d) \<leftarrow> lum_sendUdpLog E (got @ replicate (PER_READ_SIZE + 2 - length got) 0) (length got) (fst s);
        show_blocks E L (readOffset + of_nat (length got)) len maxReadOffset (d, lcall (Log_sleep 50) (snd s))
      })"

definition showFlashLog ::
    "sdk \<Rightarrow> flash_log_sdk \<Rightarrow> u32 \<Rightarrow> u32 \<Rightarrow> device \<times> flash_log \<Rightarrow> (device \<times> flash_log) option" where
  "showFlashLog E L offset lenth s = show_blocks E L offset PER_READ_SIZE (offset + lenth) s"

definition readFlashLogThread ::
    "sdk \<Rightarrow> flash_log_sdk \<Rightarrow> device \<times> flash_log \<Rightarrow> (device \<times> flash_log) option" where
  "readFlashLogThread E L s = do {
     let bakLogLen = snd (readFlashFlag L (snd s));
     s1 \<leftarrow> (if bakLogLen \<noteq> 0 then showFlashLog E L FLASH_BAK_LOG_OFFSET bakLogLen s else Some s);
     s2 \<leftarrow> showFlashLog E L FLASH_LOG_OFFSET (g_flashLogLen (snd s1)) s1;
     Some (fst s2, lcall Log_thread_destroy (snd s2))
   }"

definition readFlashLog :: "flash_log \<Rightarrow> flash_log" where
  "readFlashLog l = lcall Log_thread_create l"

section \<open>What the log contains\<close>

text \<open>
  The flash returns what was written and erased, a write writes all its bytes, the buffer on the
  stack has its size.
\<close>

definition flash_log_works :: "(nat \<Rightarrow> u8) \<Rightarrow> flash_log_sdk \<Rightarrow> bool" where
  "flash_log_works z L \<longleftrightarrow> flash_works z (log_read L)
     \<and> (\<forall>tr off bs. log_written L tr off bs = int (length bs))
     \<and> (\<forall>tr. length (log_stack L tr) = PER_READ_SIZE + 2)"

text \<open>The text of the log, \<open>cur\<close>, and of its backup, \<open>bak\<close>.\<close>

definition log_holds :: "(nat \<Rightarrow> u8) \<Rightarrow> flash_log \<Rightarrow> u8 list \<times> u8 list \<Rightarrow> bool" where
  "log_holds z l = (\<lambda>(cur, bak). 0xFF \<notin> set cur \<and> length cur < FLASH_LOG_SIZE \<and> length bak < FLASH_LOG_SIZE
     \<and> g_flashLogLen l = of_nat (length cur)
     \<and> (\<forall>a < FLASH_LOG_SIZE. stored z (log_flash_calls (logTrace l)) a = (if a < length cur then cur ! a else 0xFF))
     \<and> (\<forall>a < length bak. stored z (log_flash_calls (logTrace l)) (FLASH_BAK_LOG_OFFSET + a) = bak ! a)
     \<and> flash_bytes z (log_flash_calls (logTrace l)) FLASH_LOG_INFO_OFFSET 8
         = le32 FLASH_LOG_FLAG @ le32 (of_nat (length bak)))"

text \<open>The abstract log: an entry is appended, or starts a new log with the old one as its backup.\<close>

definition log_append :: "u8 list \<Rightarrow> u8 list \<times> u8 list \<Rightarrow> u8 list \<times> u8 list" where
  "log_append bs = (\<lambda>(cur, bak). if FLASH_LOG_SIZE \<le> length bs + length cur then (bs, cur) else (cur @ bs, bak))"

definition log_entry :: "u8 list \<Rightarrow> bool" where
  "log_entry bs \<longleftrightarrow> length bs < FLASH_LOG_SIZE \<and> 0xFF \<notin> set bs"

lemma log_append_recent:
  "\<exists>old. old @ snd (fold log_append es (cur, bak)) @ fst (fold log_append es (cur, bak)) = bak @ cur @ concat es"
proof (induction es arbitrary: cur bak)
  case (Cons bs es)
  have step: "fold log_append (bs # es) (cur, bak) = fold log_append es (log_append bs (cur, bak))" by simp
  show ?case
  proof (cases "FLASH_LOG_SIZE \<le> length bs + length cur")
    case True
    then have at: "log_append bs (cur, bak) = (bs, cur)" by (simp add: log_append_def)
    obtain old where "old @ snd (fold log_append es (bs, cur)) @ fst (fold log_append es (bs, cur)) = cur @ bs @ concat es"
      using Cons.IH [of bs cur] by auto
    then show ?thesis unfolding step at by (intro exI [of _ "bak @ old"]) simp
  next
    case False
    then have at: "log_append bs (cur, bak) = (cur @ bs, bak)" by (simp add: log_append_def)
    show ?thesis unfolding step at using Cons.IH [of "cur @ bs" bak] by simp
  qed
qed simp

lemma lcall_simps [simp]:
  "logTrace (lcall c l) = c # logTrace l" "g_flashLogLen (lcall c l) = g_flashLogLen l"
  by (simp_all add: lcall_def)

lemma log_bytes_works: "flash_log_works z L \<Longrightarrow> log_bytes L l off n = flash_bytes z (log_flash_calls (logTrace l)) off n"
  by (simp add: flash_log_works_def flash_works_def log_bytes_def)

lemma log_holds_len: "log_holds z l (cur, bak) \<Longrightarrow> unat (g_flashLogLen l) = length cur"
  by (simp add: log_holds_def unsigned_of_nat take_bit_nat_eq_self)

lemma log_holds_congr:
  "log_holds z l s \<Longrightarrow> log_flash_calls (logTrace l') = log_flash_calls (logTrace l) \<Longrightarrow>
   g_flashLogLen l' = g_flashLogLen l \<Longrightarrow> log_holds z l' s"
  by (simp add: log_holds_def)

section \<open>Starting a new log\<close>

lemma copy_blocks_stores:
  assumes L: "flash_log_works z L"
  shows "off + 256 * n \<le> FLASH_LOG_SIZE \<Longrightarrow> length buf = 258 \<Longrightarrow>
    g_flashLogLen (copy_blocks n L off buf l) = g_flashLogLen l
    \<and> stored z (log_flash_calls (logTrace (copy_blocks n L off buf l))) a
      = (if FLASH_BAK_LOG_OFFSET + off \<le> a \<and> a < FLASH_BAK_LOG_OFFSET + off + 256 * n
         then stored z (log_flash_calls (logTrace l)) a AND stored z (log_flash_calls (logTrace l)) (a - FLASH_BAK_LOG_OFFSET)
         else stored z (log_flash_calls (logTrace l)) a)"
proof (induction n arbitrary: off buf l)
  case (Suc n)
  let ?tr = "log_flash_calls (logTrace l)"
  define buf' where "buf' = overlay (flash_bytes z ?tr off 256) buf"
  have b: "length buf' = 258" "take 256 buf' = flash_bytes z ?tr off 256"
    using Suc.prems(2) by (simp_all add: buf'_def overlay_def)
  define l1 where "l1 = lcall (Log_flash (Flash_write (FLASH_BAK_LOG_OFFSET + off) (flash_bytes z ?tr off 256))) l"
  have step: "copy_blocks (Suc n) L off buf l = copy_blocks n L (off + 256) buf' l1"
    by (simp add: Let_def log_bytes_works [OF L] b l1_def flip: buf'_def)
  have block: "stored z (log_flash_calls (logTrace l1)) x
      = (if FLASH_BAK_LOG_OFFSET + off \<le> x \<and> x < FLASH_BAK_LOG_OFFSET + off + 256
         then stored z ?tr x AND stored z ?tr (x - FLASH_BAK_LOG_OFFSET) else stored z ?tr x)" for x
    using Suc.prems(1) by (auto simp: l1_def)
  have "off + 256 + 256 * n \<le> FLASH_LOG_SIZE" using Suc.prems(1) by simp
  from Suc.IH [OF this b(1), of l1] show ?case
    unfolding step block using Suc.prems(1) by (auto simp: l1_def)
qed auto

definition log_info :: "u32 \<Rightarrow> u8 list" where
  "log_info n = le32 FLASH_LOG_FLAG @ le32 n"

lemma flag_stores:
  "g_flashLogLen (writeFlashLogFlag l) = 0"
  "stored z (log_flash_calls (logTrace (writeFlashLogFlag l))) a
   = (if FLASH_LOG_INFO_OFFSET \<le> a \<and> a < FLASH_LOG_INFO_OFFSET + 8 then log_info (g_flashLogLen l) ! (a - FLASH_LOG_INFO_OFFSET)
      else if FLASH_LOG_INFO_OFFSET \<le> a \<and> a < FLASH_LOG_INFO_OFFSET + 4096 then 0xFF
      else stored z (log_flash_calls (logTrace l)) a)"
  by (auto simp: writeFlashLogFlag_def Let_def log_info_def)

lemma copy_stores:
  assumes L: "flash_log_works z L" and a: "a < FLASH_LOG_INFO_OFFSET + 8"
  shows "stored z (log_flash_calls (logTrace (copyLogToBakFlash L l))) a
    = (if a < FLASH_LOG_SIZE then 0xFF
       else if a < FLASH_LOG_INFO_OFFSET then stored z (log_flash_calls (logTrace l)) (a - FLASH_BAK_LOG_OFFSET)
       else log_info (g_flashLogLen l) ! (a - FLASH_LOG_INFO_OFFSET))"
proof -
  define l1 where "l1 = lcall (Log_flash (Flash_erase FLASH_BAK_LOG_OFFSET 15)) (lcall Log_lock l)"
  define l2 where "l2 = copy_blocks 240 L 0 (log_stack L (logTrace l)) l1"
  have c: "copyLogToBakFlash L l = writeFlashLogFlag (lcall Log_unlock (lcall (Log_flash (Flash_erase FLASH_LOG_OFFSET 15)) l2))"
    by (simp add: copyLogToBakFlash_def Let_def l1_def l2_def)
  have s: "length (log_stack L (logTrace l)) = 258" using L by (simp add: flash_log_works_def)
  have l2: "g_flashLogLen l2 = g_flashLogLen l"
    "stored z (log_flash_calls (logTrace l2)) a = (if FLASH_BAK_LOG_OFFSET \<le> a \<and> a < FLASH_BAK_LOG_OFFSET + FLASH_LOG_SIZE
       then stored z (log_flash_calls (logTrace l1)) a AND stored z (log_flash_calls (logTrace l1)) (a - FLASH_BAK_LOG_OFFSET)
       else stored z (log_flash_calls (logTrace l1)) a)"
    using copy_blocks_stores [OF L _ s, of 0 240 l1] by (simp_all add: l1_def l2_def)
  show ?thesis unfolding c flag_stores using a by (auto simp: l2 l1_def)
qed

lemma copy_holds:
  assumes L: "flash_log_works z L" and l: "log_holds z l (cur, bak)"
  shows "log_holds z (copyLogToBakFlash L l) ([], cur)"
proof -
  have info: "flash_bytes z (log_flash_calls (logTrace (copyLogToBakFlash L l))) FLASH_LOG_INFO_OFFSET 8
      = log_info (g_flashLogLen l)"
    by (rule flash_bytes_eqI) (simp_all add: log_info_def copy_stores [OF L])
  have len: "g_flashLogLen (copyLogToBakFlash L l) = 0" by (simp add: copyLogToBakFlash_def Let_def flag_stores)
  show ?thesis using l by (simp add: log_holds_def info len copy_stores [OF L] log_info_def)
qed

section \<open>Appending and restarting\<close>

lemma save_holds:
  assumes L: "flash_log_works z L" and l: "log_holds z l (cur, bak)" and bs: "log_entry bs"
  shows "log_holds z (saveFlashLog L bs l) (log_append bs (cur, bak))"
proof -
  define full where "full \<longleftrightarrow> FLASH_LOG_SIZE \<le> length bs + length cur"
  define l1 where "l1 = (if full then copyLogToBakFlash L l else l)"
  define cur1 bak1 where "cur1 = (if full then [] else cur)" and "bak1 = (if full then cur else bak)"
  have l1: "log_holds z l1 (cur1, bak1)" using l copy_holds [OF L l] by (simp add: l1_def cur1_def bak1_def)
  have len: "unat (g_flashLogLen l) = length cur" "unat (g_flashLogLen l1) = length cur1"
    using log_holds_len [OF l] log_holds_len [OF l1] by simp_all
  have room: "length cur1 + length bs < FLASH_LOG_SIZE" "length cur < FLASH_LOG_SIZE" "length bs < FLASH_LOG_SIZE"
    using l bs by (auto simp: cur1_def full_def log_entry_def log_holds_def)
  have cur: "g_flashLogLen l = of_nat (length cur)" "g_flashLogLen l1 = of_nat (length cur1)"
    using l l1 by (simp_all add: log_holds_def)
  have test: "FLASH_LOG_SIZE \<le> of_nat (length bs) + g_flashLogLen l \<longleftrightarrow> full"
    using room by (simp add: cur word_le_nat_alt full_def unsigned_of_nat take_bit_nat_eq_self flip: of_nat_add)
  define l4 where "l4 = saveFlashLog L bs l"
  have l4: "l4 = lcall Log_unlock (if 0 < log_written L (Log_lock # logTrace l1) (length cur1) bs
      then (lcall (Log_flash (Flash_write (length cur1) bs)) (lcall Log_lock l1))
        \<lparr>g_flashLogLen := g_flashLogLen l1 + of_int (log_written L (Log_lock # logTrace l1) (length cur1) bs)\<rparr>
      else lcall (Log_flash (Flash_write (length cur1) bs)) (lcall Log_lock l1))"
    unfolding l4_def saveFlashLog_def test l1_def [symmetric] Let_def by (simp add: len)
  have g4: "g_flashLogLen l4 = of_nat (length (cur1 @ bs))"
    using L by (simp add: l4 flash_log_works_def cur(2))
  have tr4: "log_flash_calls (logTrace l4) = Flash_write (length cur1) bs # log_flash_calls (logTrace l1)"
    by (simp add: l4)
  have s4: "log_append bs (cur, bak) = (cur1 @ bs, bak1)"
    by (simp add: log_append_def cur1_def bak1_def full_def)
  have info: "flash_bytes z (log_flash_calls (logTrace l4)) FLASH_LOG_INFO_OFFSET 8
      = flash_bytes z (log_flash_calls (logTrace l1)) FLASH_LOG_INFO_OFFSET 8"
    unfolding tr4 using room by (intro written_elsewhere) simp
  show ?thesis
    using l1 bs room unfolding s4 l4_def [symmetric] log_holds_def prod.case info
    by (auto simp: g4 tr4 log_entry_def nth_append)
qed

lemma saves_hold:
  "flash_log_works z L \<Longrightarrow> log_holds z l s \<Longrightarrow> \<forall>bs \<in> set es. log_entry bs \<Longrightarrow>
   log_holds z (fold (saveFlashLog L) es l) (fold log_append es s)"
proof (induction es arbitrary: l s)
  case (Cons bs es)
  have "log_holds z (saveFlashLog L bs l) (log_append bs s)"
    using save_holds [OF Cons.prems(1), of l "fst s" "snd s" bs] Cons.prems by simp
  then show ?case using Cons.IH [OF Cons.prems(1)] Cons.prems(3) by simp
qed simp

lemma flag_reads:
  assumes "flash_log_works z L" "log_holds z l (cur, bak)"
  shows "readFlashFlag L l = (FLASH_LOG_FLAG, of_nat (length bak))"
proof -
  have "word_at (le32 a @ le32 b) 0 = a" "word_at (le32 a @ le32 b) 1 = b" for a b by (simp_all add: word_at_def)
  then show ?thesis using assms(2) by (simp add: readFlashFlag_def log_bytes_works [OF assms(1)] log_holds_def)
qed

lemma scan_finds:
  assumes L: "flash_log_works z L" and l: "log_holds z l (cur, bak)"
  shows "256 * j \<le> length cur \<Longrightarrow> log_scan L l (256 * j) = length cur"
proof (induction "length cur - 256 * j" arbitrary: j rule: less_induct)
  case less
  have size: "length cur < FLASH_LOG_SIZE" using l by (simp add: log_holds_def)
  define got where "got = flash_bytes z (log_flash_calls (logTrace l)) (256 * j) 256"
  have j: "256 * j + 256 \<le> FLASH_LOG_SIZE" using less.prems size by presburger
  have got: "length got = 256" "got \<noteq> []" by (auto simp: got_def simp flip: length_greater_0_conv)
  have at: "got ! i = 0xFF \<longleftrightarrow> length cur \<le> 256 * j + i" if "i < 256" for i
    using l that j by (auto simp: got_def log_holds_def all_set_conv_all_nth) (metis nth_mem)
  have last: "last got = 0xFF \<longleftrightarrow> length cur \<le> 256 * j + 255" using at [of 255] got by (simp add: last_conv_nth)
  have scan: "log_scan L l (256 * j) = (if last got = 0xFF then 256 * j + length (takeWhile (\<lambda>b. b \<noteq> 0xFF) got)
      else log_scan L l (256 * Suc j))"
    using j got by (subst log_scan.simps) (simp add: log_bytes_works [OF L] add.commute flip: got_def)
  show ?case
  proof (cases "length cur \<le> 256 * j + 255")
    case True
    have "takeWhile (\<lambda>b. b \<noteq> 0xFF) got = take (length cur - 256 * j) got"
      using True less.prems at got(1) by (intro takeWhile_eq_take_P_nth) (auto dest: at)
    then show ?thesis using True less.prems got(1) by (simp add: scan last)
  next
    case False
    then show ?thesis using less.hyps [of "Suc j"] by (simp add: scan last)
  qed
qed

lemma log_scan_cong: "log_bytes L l' = log_bytes L l \<Longrightarrow> log_scan L l' off = log_scan L l off"
proof (induction L l off rule: log_scan.induct)
  case (1 L l off)
  then show ?case by (subst log_scan.simps, subst (2) log_scan.simps) (simp add: Let_def)
qed

lemma init_holds:
  assumes L: "flash_log_works z L" and l: "log_holds z l s"
  shows "log_holds z (initFlashLog L (l\<lparr>g_flashLogLen := n\<rparr>)) s"
proof -
  obtain cur bak where s: "s = (cur, bak)" by (cases s)
  define l1 where "l1 = lcall Log_mutex_new (l\<lparr>g_flashLogLen := n\<rparr>)"
  have eq: "log_bytes L l1 = log_bytes L l" "log_bytes L (lcall Log_lock l1) = log_bytes L l"
    by (simp_all add: l1_def log_bytes_def fun_eq_iff)
  have flag: "fst (readFlashFlag L l1) = FLASH_LOG_FLAG"
    using flag_reads [OF L l [unfolded s]] by (simp add: readFlashFlag_def eq)
  have scan: "log_scan L (lcall Log_lock l1) 0 = length cur"
    using scan_finds [OF L l [unfolded s], of 0] log_scan_cong [OF eq(2)] by simp
  have size: "length cur < FLASH_LOG_SIZE" "g_flashLogLen l = of_nat (length cur)"
    using l by (simp_all add: s log_holds_def)
  have i: "initFlashLog L (l\<lparr>g_flashLogLen := n\<rparr>) = (lcall Log_unlock (lcall Log_lock l1))\<lparr>g_flashLogLen := g_flashLogLen l\<rparr>"
    using size by (simp add: initFlashLog_def getFlashSavedLogLen_def flag scan Let_def flip: l1_def)
  show ?thesis unfolding i by (rule log_holds_congr [OF l]) (simp_all add: l1_def)
qed

text \<open>On a flash without the flag the log starts empty.\<close>

lemma first_start_of_log:
  assumes L: "flash_log_works z L" and l: "fst (readFlashFlag L l) \<noteq> FLASH_LOG_FLAG" "g_flashLogLen l = 0"
  shows "log_holds z (initFlashLog L l) ([], [])"
proof -
  define l1 where "l1 = lcall Log_unlock (lcall (Log_flash (Flash_erase FLASH_LOG_OFFSET 30)) (lcall Log_lock (lcall Log_mutex_new l)))"
  have "log_bytes L (lcall Log_mutex_new l) = log_bytes L l" by (simp add: log_bytes_def fun_eq_iff)
  then have i: "initFlashLog L l = writeFlashLogFlag l1"
    using l(1) by (simp add: initFlashLog_def getFlashSavedLogLen_def readFlashFlag_def clearAllFlashLog_def l1_def)
  have info: "flash_bytes z (log_flash_calls (logTrace (writeFlashLogFlag l1))) FLASH_LOG_INFO_OFFSET 8 = log_info 0"
    by (rule flash_bytes_eqI) (simp_all add: log_info_def flag_stores l1_def l(2))
  show ?thesis unfolding i by (simp add: log_holds_def info log_info_def flag_stores) (simp add: l1_def)
qed

section \<open>Showing the log\<close>

text \<open>What was sent over UDP, in order.\<close>

fun sent_text :: "sdk_call list \<Rightarrow> u8 list" where
  "sent_text [] = []"
| "sent_text (Socket_sendto fd p ip bs # tr) = sent_text tr @ bs"
| "sent_text (_ # tr) = sent_text tr"

definition log_open :: "device \<Rightarrow> bool" where
  "log_open d \<longleftrightarrow> getDeviceConnectInfo DHPC_OK_BIT d \<and> devIpAddr (globalData d) \<notin> {0, 0xFFFFFFFF}"

lemma udp_log_sends:
  assumes "log_open d"
  obtains d' where "lum_sendUdpLog E (bs @ rest) (length bs) d = Some (True, d')" "log_open d'"
    "sent_text (trace d') = sent_text (trace d) @ bs"
  using assms
  by (auto simp: lum_sendUdpLog_def getDeviceIpAddress_def log_open_def rds_def call_def getDeviceConnectInfo_def
    intro!: that)

lemma show_blocks_sends:
  assumes L: "flash_log_works z L"
  shows "off \<le> m \<Longrightarrow> m \<le> MAX_FLASH_SIZE \<Longrightarrow> n = 256 \<Longrightarrow> log_open d \<Longrightarrow>
    \<exists>d' tr. show_blocks E L (of_nat off) n (of_nat m) (d, l) = Some (d', l\<lparr>logTrace := tr\<rparr>) \<and> log_open d'
      \<and> log_flash_calls tr = log_flash_calls (logTrace l)
      \<and> sent_text (trace d') = sent_text (trace d) @ flash_bytes z (log_flash_calls (logTrace l)) off (m - off)"
proof (induction "m - off" arbitrary: off d l rule: less_induct)
  case less
  have small: "x < 2 ^ 32 \<Longrightarrow> unat (of_nat x :: u32) = x" for x
    by (simp add: unsigned_of_nat take_bit_nat_eq_self)
  have at: "unat (of_nat off :: u32) = off" "unat (of_nat m :: u32) = m" "unat (of_nat off + 256 :: u32) = off + 256"
    using less.prems small [of off] small [of m] small [of "off + 256"] by simp_all
  show ?case
  proof (cases "off < m")
    case False
    then have "\<not> (of_nat off :: u32) < of_nat m" using at by (simp add: word_less_nat_alt)
    then show ?thesis using less.prems False
      by (subst show_blocks.simps) (auto simp: flash_bytes_def intro: exI [of _ "logTrace l"])
  next
    case True
    define k where "k = min 256 (m - off)"
    have k: "0 < k" "off + k \<le> m" "k \<le> 256" using True by (auto simp: k_def)
    define got where "got = flash_bytes z (log_flash_calls (logTrace l)) off k"
    have got: "length got = k" "got \<noteq> []" using k by (auto simp: got_def simp flip: length_greater_0_conv)
    have lt: "(of_nat off :: u32) < of_nat m" using True at by (simp add: word_less_nat_alt)
    define len :: u32 where "len = (if (of_nat off :: u32) + 256 > of_nat m then of_nat m - of_nat off else 256)"
    have len: "unat len = k" "k < 256 \<longrightarrow> off + k = m"
      using True at by (auto simp: len_def k_def word_less_nat_alt unat_sub word_le_nat_alt)
    obtain d1 where d1: "lum_sendUdpLog E (got @ replicate (258 - k) 0) k d = Some (True, d1)" "log_open d1"
      "sent_text (trace d1) = sent_text (trace d) @ got"
      using udp_log_sends [OF less.prems(4), of E got "replicate (258 - k) 0"] got(1) by metis
    define l1 where "l1 = lcall (Log_sleep 50) l"
    have n: "(if (of_nat off :: u32) + 256 > of_nat m then of_nat m - of_nat off else n) = len"
      by (simp add: len_def less.prems(3))
    have bytes: "log_bytes L l (unat (of_nat off :: u32)) (unat len) = got"
      by (simp add: log_bytes_works [OF L] at(1) len(1) got_def)
    have step: "show_blocks E L (of_nat off) n (of_nat m) (d, l) = show_blocks E L (of_nat (off + k)) len (of_nat m) (d1, l1)"
      unfolding show_blocks.simps [of E L "of_nat off" n "of_nat m" "(d, l)"] n Let_def snd_conv fst_conv bytes
      using lt got d1(1) by (simp add: l1_def)
    have "\<exists>d' tr. show_blocks E L (of_nat (off + k)) len (of_nat m) (d1, l1) = Some (d', l1\<lparr>logTrace := tr\<rparr>) \<and> log_open d'
      \<and> log_flash_calls tr = log_flash_calls (logTrace l1)
      \<and> sent_text (trace d') = sent_text (trace d1) @ flash_bytes z (log_flash_calls (logTrace l1)) (off + k) (m - (off + k))"
    proof (cases "k < 256")
      case True
      then show ?thesis using len(2) d1(2)
        by (subst show_blocks.simps) (auto simp: flash_bytes_def intro: exI [of _ "logTrace l1"])
    next
      case False
      then have "unat len = unat (256 :: u32)" using len(1) k by simp
      then have "len = 256" by (rule unsigned_word_eqI)
      then show ?thesis
        using less.hyps [of "off + k" d1 l1] k True less.prems d1(2) by simp
    qed
    moreover have "flash_bytes z (log_flash_calls (logTrace l)) off (m - off)
        = got @ flash_bytes z (log_flash_calls (logTrace l)) (off + k) (m - (off + k))"
      using flash_bytes_append [of z _ off k "m - (off + k)"] k by (simp add: got_def)
    ultimately show ?thesis unfolding step by (auto simp: d1(3) l1_def lcall_def)
  qed
qed

lemma show_sends:
  assumes "flash_log_works z L" "off + k \<le> MAX_FLASH_SIZE" "log_open d"
  obtains d' tr where "showFlashLog E L (of_nat off) (of_nat k) (d, l) = Some (d', l\<lparr>logTrace := tr\<rparr>)" "log_open d'"
    "log_flash_calls tr = log_flash_calls (logTrace l)"
    "sent_text (trace d') = sent_text (trace d) @ flash_bytes z (log_flash_calls (logTrace l)) off k"
  using show_blocks_sends [OF assms(1), of off "off + k" 256 d E l] assms(2,3)
  by (auto simp: showFlashLog_def)

lemma thread_sends:
  assumes L: "flash_log_works z L" and l: "log_holds z l (cur, bak)" and d: "log_open d"
  shows "\<exists>d' l'. readFlashLogThread E L (d, l) = Some (d', l') \<and> sent_text (trace d') = sent_text (trace d) @ bak @ cur"
proof -
  let ?tr = "log_flash_calls (logTrace l)"
  have size: "length bak < FLASH_LOG_SIZE" "length cur < FLASH_LOG_SIZE" "g_flashLogLen l = of_nat (length cur)"
    and areas: "flash_bytes z ?tr FLASH_BAK_LOG_OFFSET (length bak) = bak" "flash_bytes z ?tr FLASH_LOG_OFFSET (length cur) = cur"
    using l by (auto simp: log_holds_def intro!: flash_bytes_eqI)
  obtain d1 tr1 where one: "(if (of_nat (length bak) :: u32) \<noteq> 0
      then showFlashLog E L FLASH_BAK_LOG_OFFSET (of_nat (length bak)) (d, l) else Some (d, l)) = Some (d1, l\<lparr>logTrace := tr1\<rparr>)"
    "log_open d1" "log_flash_calls tr1 = ?tr" "sent_text (trace d1) = sent_text (trace d) @ bak"
  proof (cases "(of_nat (length bak) :: u32) = 0")
    case True
    moreover have "unat (of_nat (length bak) :: u32) = length bak"
      using size(1) by (simp add: unsigned_of_nat take_bit_nat_eq_self)
    ultimately have "bak = []" by simp
    then show ?thesis using that [of d "logTrace l"] d by simp
  next
    case False
    then show ?thesis
      using show_sends [OF L _ d, of FLASH_BAK_LOG_OFFSET "length bak" E l] size(1) areas(1) that by auto
  qed
  obtain d2 tr2 where two: "showFlashLog E L (of_nat FLASH_LOG_OFFSET) (of_nat (length cur)) (d1, l\<lparr>logTrace := tr1\<rparr>)
      = Some (d2, l\<lparr>logTrace := tr2\<rparr>)" "sent_text (trace d2) = sent_text (trace d1) @ cur"
  proof (rule show_sends [OF L _ one(2), of FLASH_LOG_OFFSET "length cur" E "l\<lparr>logTrace := tr1\<rparr>"])
    show "FLASH_LOG_OFFSET + length cur \<le> MAX_FLASH_SIZE" using size(2) by simp
  qed (use that areas(2) one(3) in simp)
  show ?thesis
    using one two(1) flag_reads [OF L l]
    by (simp add: readFlashLogThread_def Let_def size(3) two(2) split: if_splits)
qed

text \<open>
  Property C31: the log in flash refines the abstract log.  From a flash that holds a log and its
  backup, any entries are appended, the device restarts, finds the length of its log again, and
  shows the log: it sends exactly the backup and the log of the abstract \<open>log_append\<close>, which is
  the end of everything that was ever logged, without a gap, and reading stays within the areas.
\<close>

theorem flash_log_shows_latest:
  "flash_log_works z L \<Longrightarrow> log_holds z l (cur, bak) \<Longrightarrow> \<forall>bs \<in> set es. log_entry bs \<Longrightarrow> log_open d \<Longrightarrow>
   (cur', bak') = fold log_append es (cur, bak) \<Longrightarrow>
   l' = initFlashLog L ((fold (saveFlashLog L) es l)\<lparr>g_flashLogLen := 0\<rparr>) \<Longrightarrow>
   log_holds z l' (cur', bak') \<and> (\<exists>old. old @ bak' @ cur' = bak @ cur @ concat es)
   \<and> (\<exists>d' l''. readFlashLogThread E L (d, l') = Some (d', l'')
        \<and> sent_text (trace d') = sent_text (trace d) @ bak' @ cur')"
proof -
  assume L: "flash_log_works z L" and l: "log_holds z l (cur, bak)" and es: "\<forall>bs \<in> set es. log_entry bs"
    and d: "log_open d" and s: "(cur', bak') = fold log_append es (cur, bak)"
    and l': "l' = initFlashLog L ((fold (saveFlashLog L) es l)\<lparr>g_flashLogLen := 0\<rparr>)"
  have h: "log_holds z l' (cur', bak')" unfolding l' s by (rule init_holds [OF L saves_hold [OF L l es]])
  show ?thesis
    using h thread_sends [OF L h d] log_append_recent [of es cur bak] by (simp flip: s)
qed

text \<open>A flash fresh from the factory, and a connected device.\<close>

definition erased_log_sdk :: flash_log_sdk where
  "erased_log_sdk = \<lparr>log_read = flash_bytes (\<lambda>_. 0xFF), log_written = (\<lambda>_ _ bs. int (length bs)),
     log_stack = (\<lambda>_. replicate 258 0)\<rparr>"

definition connected_device :: device where
  "connected_device = setDeviceConnectInfo DHPC_OK_BIT True (upd_global (\<lambda>g. g\<lparr>devIpAddr := 0x0A01A8C0\<rparr>) power_on)"

theorem flash_log_shows_latest_witness:
  "\<exists>d' l''. readFlashLogThread plain_sdk erased_log_sdk (connected_device, initFlashLog erased_log_sdk
        ((fold (saveFlashLog erased_log_sdk) [ascii ''one'', ascii ''two'']
           (initFlashLog erased_log_sdk \<lparr>g_flashLogLen = 0, logTrace = []\<rparr>))\<lparr>g_flashLogLen := 0\<rparr>)) = Some (d', l'')
     \<and> sent_text (trace d') = sent_text (trace connected_device) @ ascii ''onetwo''"
proof -
  have L: "flash_log_works (\<lambda>_. 0xFF) erased_log_sdk"
    by (simp add: flash_log_works_def flash_works_def erased_log_sdk_def)
  have erased: "flash_bytes (\<lambda>_. 0xFF) [] FLASH_LOG_INFO_OFFSET 8 = replicate 8 0xFF"
    by (rule flash_bytes_eqI) simp_all
  have first: "log_holds (\<lambda>_. 0xFF) (initFlashLog erased_log_sdk \<lparr>g_flashLogLen = 0, logTrace = []\<rparr>) ([], [])"
    by (rule first_start_of_log [OF L])
      (simp_all add: readFlashFlag_def log_bytes_works [OF L] erased word_at_def of_le32_ones)
  have es: "\<forall>bs \<in> set [ascii ''one'', ascii ''two'']. log_entry bs" by (simp add: log_entry_def ascii_def)
  have d: "log_open connected_device"
    by (simp add: log_open_def connected_device_def getDeviceConnectInfo_def setDeviceConnectInfo_def upd_global_def)
  have s: "(ascii ''one'' @ ascii ''two'', []) = fold log_append [ascii ''one'', ascii ''two''] ([], [])"
    by (simp add: log_append_def ascii_def)
  show ?thesis
    using flash_log_shows_latest [OF L first es d s refl, of plain_sdk] by (simp add: ascii_def)
qed
end
