(* ===== verification/Dimmer.thy ===== *)
theory Dimmer
  imports Message_Properties
begin

text \<open>
  The dimmer for lamps (the parts of \<open>deviceGpio.c\<close> under \<open>LIGHT_CHENGE_SUPPORT\<close>, product
  \<open>P7_Config.h\<close>).  The lamp is dimmed by the phase of the mains: after each zero crossing a hardware
  timer waits a time that depends on the level, then the gate is driven for one millisecond.  Two
  keys change the level, seven LEDs show it.
\<close>

abbreviation (input) "MAX_LIGHT_LEVEL \<equiv> 7"
abbreviation (input) "LIGHT_DIM_BASE_TIME \<equiv> 1000"
abbreviation (input) "LIGHT_DIM_SHUTDOWN_TIME \<equiv> 1000"
abbreviation (input) "LIGHT_DIM_LEVEL_GAP \<equiv> 1200"
abbreviation (input) "LIGHT_KEY_DEBOUNCE \<equiv> 30"

section \<open>State\<close>

datatype light_dim_status = GET_AC_FREQ | ZERO_DETECT | SHUT_DOWN_DIM

datatype dim_pin = HFGPIO_F_KEY_UP | HFGPIO_F_KEY_DOWN | HFGPIO_F_ZERO_DETECTER

datatype dim_call =
    Led_pin nat bool | Gate bool | Zero_irq bool
  | Dim_timer_create nat | Dim_timer nat
  | Dim_key_create dim_pin nat | Dim_key_timer dim_pin nat | Dim_configure dim_pin

text \<open>
  The last field but one is the hardware timer of the SDK: the time until it expires, in
  microseconds, when it runs.
\<close>

record dimmer =
  g_lightLevel :: u8
  lightHWTimerHandle :: bool
  g_lightDimStatus :: light_dim_status
  g_acFrequrence :: u8
  g_hwTimerperiod :: u32
  lightKeyupTimerHandle :: bool
  lightKeydownTimerHandle :: bool
  dimTimerDue :: "nat option"
  dimTrace :: "dim_call list"

record dimmer_sdk =
  dim_pin_is_high :: "dim_call list \<Rightarrow> dim_pin \<Rightarrow> bool"
  dim_configured :: "dim_call list \<Rightarrow> dim_pin \<Rightarrow> bool"

definition dimmer_power_on :: dimmer where
  "dimmer_power_on = \<lparr>g_lightLevel = 0, lightHWTimerHandle = False, g_lightDimStatus = GET_AC_FREQ,
     g_acFrequrence = 0, g_hwTimerperiod = 0, lightKeyupTimerHandle = False, lightKeydownTimerHandle = False,
     dimTimerDue = None, dimTrace = []\<rparr>"

definition dcall :: "dim_call \<Rightarrow> dimmer \<Rightarrow> dimmer" where
  "dcall c l = l\<lparr>dimTrace := c # dimTrace l\<rparr>"

definition dim_timer :: "nat \<Rightarrow> dimmer \<Rightarrow> dimmer" where
  "dim_timer n l = (dcall (Dim_timer n) l)\<lparr>dimTimerDue := Some n\<rparr>"

section \<open>Level and keys\<close>

text \<open>A LED is lit by a low level of its pin; LED \<open>i\<close> is lit when the level is at least \<open>i\<close>.\<close>

definition lum_lightChangeLevel :: "u8 \<Rightarrow> dimmer \<Rightarrow> dimmer" where
  "lum_lightChangeLevel level l =
     (if level \<noteq> g_lightLevel l
      then let l1 = fold (\<lambda>i. dcall (Led_pin (i + 1) (\<not> i < unat level))) [0..<7] (l\<lparr>g_lightLevel := level\<rparr>)
           in l1\<lparr>g_hwTimerperiod := of_int (LIGHT_DIM_BASE_TIME
                   + (MAX_LIGHT_LEVEL - uint level) * LIGHT_DIM_LEVEL_GAP)\<rparr>
      else l)"

definition lum_lightLedInit :: "dimmer \<Rightarrow> dimmer" where
  "lum_lightLedInit l = fold (\<lambda>i. dcall (Led_pin (i + 1) True)) [0..<7] l"

definition lum_lightKeyUpTimerCallback :: "dimmer_sdk \<Rightarrow> dimmer \<Rightarrow> dimmer" where
  "lum_lightKeyUpTimerCallback K l =
     (if dim_pin_is_high K (dimTrace l) HFGPIO_F_KEY_UP then l
      else if g_lightLevel l < MAX_LIGHT_LEVEL then lum_lightChangeLevel (g_lightLevel l + 1) l else l)"

definition lum_lightKeyUpIrq :: "dimmer \<Rightarrow> dimmer" where
  "lum_lightKeyUpIrq l =
     (if g_lightDimStatus l = GET_AC_FREQ \<or> g_lightLevel l = 0 then l
      else dcall (Dim_key_timer HFGPIO_F_KEY_UP LIGHT_KEY_DEBOUNCE)
        (if lightKeyupTimerHandle l then l
         else (dcall (Dim_key_create HFGPIO_F_KEY_UP LIGHT_KEY_DEBOUNCE) l)\<lparr>lightKeyupTimerHandle := True\<rparr>))"

definition lum_lightKeyDownTimerCallback :: "dimmer_sdk \<Rightarrow> dimmer \<Rightarrow> dimmer" where
  "lum_lightKeyDownTimerCallback K l =
     (if dim_pin_is_high K (dimTrace l) HFGPIO_F_KEY_DOWN then l
      else if g_lightLevel l > 1 then lum_lightChangeLevel (g_lightLevel l - 1) l else l)"

definition lum_lightKeyDownIrq :: "dimmer \<Rightarrow> dimmer" where
  "lum_lightKeyDownIrq l =
     (if g_lightDimStatus l = GET_AC_FREQ then l
      else dcall (Dim_key_timer HFGPIO_F_KEY_DOWN LIGHT_KEY_DEBOUNCE)
        (if lightKeydownTimerHandle l then l
         else (dcall (Dim_key_create HFGPIO_F_KEY_DOWN LIGHT_KEY_DEBOUNCE) l)\<lparr>lightKeydownTimerHandle := True\<rparr>))"

section \<open>The gate\<close>

definition lum_lightDimShutdown :: "dimmer \<Rightarrow> dimmer" where
  "lum_lightDimShutdown l = (dim_timer LIGHT_DIM_SHUTDOWN_TIME l)\<lparr>g_lightDimStatus := SHUT_DOWN_DIM\<rparr>"

definition lum_lightHwTimerCallback :: "dimmer \<Rightarrow> dimmer" where
  "lum_lightHwTimerCallback l =
     (case g_lightDimStatus l of
        ZERO_DETECT \<Rightarrow> lum_lightDimShutdown (dcall (Gate True) l)
      | SHUT_DOWN_DIM \<Rightarrow> dcall (Gate False) l
      | GET_AC_FREQ \<Rightarrow> let l1 = l\<lparr>g_lightDimStatus := ZERO_DETECT\<rparr>
          in if g_lightLevel l1 = 0 then dcall (Zero_irq False) l1 else l1)"

definition lum_lightHWTimerInit :: "bool \<Rightarrow> dimmer \<Rightarrow> dimmer" where
  "lum_lightHWTimerInit bGetFreq l =
     (let l1 = (if lightHWTimerHandle l then l
                else (dcall (Dim_timer_create 110000) l)\<lparr>lightHWTimerHandle := True\<rparr>)
      in if bGetFreq then dim_timer 2000000 (l1\<lparr>g_lightDimStatus := GET_AC_FREQ, g_acFrequrence := 0\<rparr>)
         else (if g_lightLevel l1 > 0 then dim_timer (unat (g_hwTimerperiod l1)) l1 else l1)
                \<lparr>g_lightDimStatus := ZERO_DETECT\<rparr>)"

definition lum_ACZeroDetectIrq :: "dimmer \<Rightarrow> dimmer" where
  "lum_ACZeroDetectIrq l =
     (if g_lightDimStatus l \<noteq> GET_AC_FREQ then lum_lightHWTimerInit False l
      else l\<lparr>g_acFrequrence := g_acFrequrence l + 1\<rparr>)"

definition lum_lightChangeIRQInit :: "dimmer_sdk \<Rightarrow> dimmer \<Rightarrow> dimmer" where
  "lum_lightChangeIRQInit K l =
     (let l1 = dcall (Dim_configure HFGPIO_F_KEY_UP) l
      in if \<not> dim_configured K (dimTrace l) HFGPIO_F_KEY_UP then l1
      else let l2 = dcall (Dim_configure HFGPIO_F_KEY_DOWN) l1
      in if \<not> dim_configured K (dimTrace l1) HFGPIO_F_KEY_DOWN then l2
      else dcall (Dim_configure HFGPIO_F_ZERO_DETECTER) l2)"

text \<open>What \<open>initDevicePin\<close> adds for this product.\<close>

definition init_dimmer :: "dimmer_sdk \<Rightarrow> dimmer \<Rightarrow> dimmer" where
  "init_dimmer K l = lum_lightHWTimerInit True (lum_lightChangeIRQInit K (lum_lightLedInit l))"

section \<open>The switch\<close>

definition dimmer_status :: "dimmer \<Rightarrow> switch_status" where
  "dimmer_status l = (if g_lightLevel l > 0 then SWITCH_OPEN else SWITCH_CLOSE)"

text \<open>\<open>setSwitchStatus\<close> of this product.\<close>

definition set_dimmer_switch ::
    "sdk \<Rightarrow> switch_status \<Rightarrow> switch_pin_flag \<Rightarrow> device \<times> dimmer \<Rightarrow> (device \<times> dimmer) option" where
  "set_dimmer_switch E action switchFlag s =
     (let switchStatus = dimmer_status (snd s);
          l1 = lum_lightChangeLevel (if action = SWITCH_OPEN then MAX_LIGHT_LEVEL else 0) (snd s);
          l2 = (if g_lightDimStatus l1 \<noteq> GET_AC_FREQ then dcall (Zero_irq (action = SWITCH_OPEN)) l1 else l1)
      in if action \<noteq> switchStatus
         then do {
           (_, d) \<leftarrow> insertLocalMsgToList E MSG_LOCAL_EVENT
             (Some (gpio_change_report action switchFlag)) 8 MSG_CMD_REPORT_GPIO_CHANGE (fst s);
           Some (d, l2)
         } else Some (fst s, l2))"

section \<open>Level, LEDs and delay\<close>

fun led_lit :: "dim_call list \<Rightarrow> nat \<Rightarrow> bool" where
  "led_lit [] i = False"
| "led_lit (Led_pin j high # tr) i = (if j = i then \<not> high else led_lit tr i)"
| "led_lit (_ # tr) i = led_lit tr i"

text \<open>The delay after a zero crossing, in microseconds.\<close>

definition dim_delay :: "u8 \<Rightarrow> nat" where
  "dim_delay level = LIGHT_DIM_BASE_TIME + (MAX_LIGHT_LEVEL - unat level) * LIGHT_DIM_LEVEL_GAP"

definition level_shown :: "dimmer \<Rightarrow> bool" where
  "level_shown l \<longleftrightarrow> g_lightLevel l \<le> MAX_LIGHT_LEVEL
     \<and> (\<forall>i. led_lit (dimTrace l) i \<longleftrightarrow> 1 \<le> i \<and> i \<le> unat (g_lightLevel l))
     \<and> (0 < g_lightLevel l \<longrightarrow> unat (g_hwTimerperiod l) = dim_delay (g_lightLevel l))"

definition level_part :: "dimmer \<Rightarrow> u8 \<times> (nat \<Rightarrow> bool) \<times> u32" where
  "level_part l = (g_lightLevel l, led_lit (dimTrace l), g_hwTimerperiod l)"

lemma level_part_shown: "level_part l' = level_part l \<Longrightarrow> level_shown l' = level_shown l"
  by (simp add: level_part_def level_shown_def)

lemma level_part_calls [simp]:
  "level_part (dim_timer n l) = level_part l"
  "level_part (l\<lparr>g_lightDimStatus := st\<rparr>) = level_part l" "level_part (l\<lparr>g_acFrequrence := n'\<rparr>) = level_part l"
  "level_part (l\<lparr>lightHWTimerHandle := b\<rparr>) = level_part l" "level_part (l\<lparr>lightKeyupTimerHandle := b\<rparr>) = level_part l"
  "level_part (l\<lparr>lightKeydownTimerHandle := b\<rparr>) = level_part l" "level_part (l\<lparr>dimTimerDue := k\<rparr>) = level_part l"
  "level_part (dcall (Gate b) l) = level_part l" "level_part (dcall (Zero_irq b) l) = level_part l"
  "level_part (dcall (Dim_timer_create n) l) = level_part l" "level_part (dcall (Dim_key_create p n) l) = level_part l"
  "level_part (dcall (Dim_key_timer p n) l) = level_part l" "level_part (dcall (Dim_configure p) l) = level_part l"
  by (simp_all add: level_part_def dim_timer_def dcall_def fun_eq_iff)

lemma leds_written:
  "level_part (fold (\<lambda>i. dcall (Led_pin (i + 1) (P i))) [0..<n] l) =
   (g_lightLevel l, \<lambda>i. if 1 \<le> i \<and> i \<le> n then \<not> P (i - 1) else led_lit (dimTrace l) i, g_hwTimerperiod l)"
proof (induction n)
  case (Suc n)
  then show ?case by (auto simp: level_part_def dcall_def fun_eq_iff)
qed (simp add: level_part_def fun_eq_iff)

lemma change_level_shown:
  assumes "level_shown l" "level \<le> MAX_LIGHT_LEVEL"
  shows "level_shown (lum_lightChangeLevel level l)"
proof (cases "level = g_lightLevel l")
  case False
  have small: "unat level \<le> 7" using assms(2) by (simp add: word_le_nat_alt)
  define l1 where "l1 = fold (\<lambda>i. dcall (Led_pin (i + 1) (\<not> i < unat level))) [0..<7] (l\<lparr>g_lightLevel := level\<rparr>)"
  have l1: "g_lightLevel l1 = level" "led_lit (dimTrace l1) i = (if 1 \<le> i \<and> i \<le> 7 then i - 1 < unat level else led_lit (dimTrace l) i)" for i
    using leds_written [of "\<lambda>i. \<not> i < unat level" 7 "l\<lparr>g_lightLevel := level\<rparr>"]
    by (simp_all add: level_part_def l1_def)
  have old: "\<not> led_lit (dimTrace l) i" if "\<not> (1 \<le> i \<and> i \<le> 7)" for i
    using assms(1) that by (auto simp: level_shown_def word_le_nat_alt)
  have delay: "LIGHT_DIM_BASE_TIME + (MAX_LIGHT_LEVEL - uint level) * LIGHT_DIM_LEVEL_GAP = int (dim_delay level)"
    using small by (simp add: dim_delay_def of_nat_diff)
  have "dim_delay level < 2 ^ 32" by (simp add: dim_delay_def)
  then have "unat (of_nat (dim_delay level) :: u32) = dim_delay level"
    by (simp add: unsigned_of_nat take_bit_nat_eq_self)
  then have "unat (of_int (LIGHT_DIM_BASE_TIME + (MAX_LIGHT_LEVEL - uint level) * LIGHT_DIM_LEVEL_GAP) :: u32) = dim_delay level"
    unfolding delay of_int_of_nat_eq .
  then show ?thesis
    using False small assms(2) l1 old
    unfolding lum_lightChangeLevel_def Let_def l1_def [symmetric] by (auto simp: level_shown_def)
qed (use assms in \<open>simp add: lum_lightChangeLevel_def\<close>)

section \<open>The states of the dimmer\<close>

inductive dim_step :: "sdk \<Rightarrow> dimmer_sdk \<Rightarrow> device \<times> dimmer \<Rightarrow> device \<times> dimmer \<Rightarrow> bool" for E K where
  switch: "set_dimmer_switch E a p s = Some s' \<Longrightarrow> dim_step E K s s'"
| up_edge: "dim_step E K (d, l) (d, lum_lightKeyUpIrq l)"
| up_debounced: "dim_step E K (d, l) (d, lum_lightKeyUpTimerCallback K l)"
| down_edge: "dim_step E K (d, l) (d, lum_lightKeyDownIrq l)"
| down_debounced: "dim_step E K (d, l) (d, lum_lightKeyDownTimerCallback K l)"
| zero_crossing: "dim_step E K (d, l) (d, lum_ACZeroDetectIrq l)"
| hw_timer: "dim_step E K (d, l) (d, lum_lightHwTimerCallback (l\<lparr>dimTimerDue := None\<rparr>))"
| other: "dim_step E K (d, l) (d', l)"

lemma level_shown_step:
  assumes "dim_step E K s s'" "level_shown (snd s)"
  shows "level_shown (snd s')"
proof -
  have same: "level_shown l'" if "level_part l' = level_part (snd s)" for l'
    using level_part_shown [OF that] assms(2) by simp
  show ?thesis using assms(1)
  proof cases
    case (switch a p)
    have "level_shown (lum_lightChangeLevel (if a = SWITCH_OPEN then 7 else 0) (snd s))"
      by (rule change_level_shown [OF assms(2)]) (simp add: word_le_nat_alt)
    moreover have "level_part (snd s') = level_part (lum_lightChangeLevel (if a = SWITCH_OPEN then 7 else 0) (snd s))"
      using switch by (auto simp: set_dimmer_switch_def Let_def split: if_splits bind_splits)
    ultimately show ?thesis using level_part_shown by blast
  next
    case (up_debounced d l)
    have "l1 + 1 \<le> 7" if "l1 < 7" for l1 :: u8
      using that by (simp add: inc_le)
    then show ?thesis using assms(2) up_debounced
      by (auto simp: lum_lightKeyUpTimerCallback_def intro: change_level_shown)
  next
    case (down_debounced d l)
    have "l1 - 1 \<le> 7" if "1 < l1" "l1 \<le> 7" for l1 :: u8
      using that by (simp add: word_le_nat_alt word_less_nat_alt unat_sub)
    then show ?thesis using assms(2) down_debounced
      by (auto simp: lum_lightKeyDownTimerCallback_def level_shown_def [of l] intro!: change_level_shown)
  qed (use same in \<open>auto simp: lum_lightKeyUpIrq_def lum_lightKeyDownIrq_def lum_ACZeroDetectIrq_def
        lum_lightHWTimerInit_def lum_lightHwTimerCallback_def lum_lightDimShutdown_def Let_def
        split: light_dim_status.splits\<close>)
qed


section \<open>The pulses of the gate\<close>

fun gate_high :: "dim_call list \<Rightarrow> bool" where
  "gate_high [] = False"
| "gate_high (Gate b # tr) = b"
| "gate_high (_ # tr) = gate_high tr"

text \<open>
  Time passes: the timer expires as often as it does before \<open>t\<close> microseconds are over, at most \<open>n\<close>
  times.  A half wave of the mains of \<open>H\<close> microseconds begins with a zero crossing.
\<close>

primrec advance :: "nat \<Rightarrow> nat \<Rightarrow> dimmer \<Rightarrow> dimmer" where
  "advance 0 t l = l"
| "advance (Suc n) t l = (case dimTimerDue l of
     None \<Rightarrow> l
   | Some k \<Rightarrow> if k < t then advance n (t - k) (lum_lightHwTimerCallback (l\<lparr>dimTimerDue := None\<rparr>))
       else l\<lparr>dimTimerDue := Some (k - t)\<rparr>)"

abbreviation "half_wave H l \<equiv> advance 3 H (lum_ACZeroDetectIrq l)"

definition dimming :: "nat \<Rightarrow> dimmer \<Rightarrow> bool" where
  "dimming T l \<longleftrightarrow> g_lightDimStatus l \<noteq> GET_AC_FREQ \<and> 0 < g_lightLevel l \<and> unat (g_hwTimerperiod l) = T"

lemma gate_calls [simp]:
  "gate_high (dimTrace (dcall (Gate b) l)) = b" "gate_high (dimTrace (dim_timer n l)) = gate_high (dimTrace l)"
  "gate_high (dimTrace (dcall (Dim_timer_create n) l)) = gate_high (dimTrace l)"
  "dimTimerDue (dim_timer n l) = Some n" "dimTimerDue (dcall c l) = dimTimerDue l"
  "g_lightDimStatus (dcall c l) = g_lightDimStatus l" "g_lightDimStatus (dim_timer n l) = g_lightDimStatus l"
  "g_lightLevel (dcall c l) = g_lightLevel l" "g_lightLevel (dim_timer n l) = g_lightLevel l"
  "g_hwTimerperiod (dcall c l) = g_hwTimerperiod l" "g_hwTimerperiod (dim_timer n l) = g_hwTimerperiod l"
  by (simp_all add: dcall_def dim_timer_def)

lemma crossing:
  assumes "dimming T l"
  shows "dimTimerDue (lum_ACZeroDetectIrq l) = Some T" "g_lightDimStatus (lum_ACZeroDetectIrq l) = ZERO_DETECT"
    "gate_high (dimTrace (lum_ACZeroDetectIrq l)) = gate_high (dimTrace l)" "dimming T (lum_ACZeroDetectIrq l)"
  using assms by (simp_all add: dimming_def lum_ACZeroDetectIrq_def lum_lightHWTimerInit_def Let_def)

lemma half_wave_stages:
  assumes "dimming T l"
  shows "dimming T (half_wave t l)"
    "gate_high (dimTrace (half_wave t l)) = (if t \<le> T then gate_high (dimTrace l) else t \<le> T + 1000)"
proof -
  define l1 where "l1 = lum_ACZeroDetectIrq l"
  note c = crossing [OF assms, folded l1_def]
  have three: "(3 :: nat) = Suc (Suc (Suc 0))" by simp
  have "dimming T (half_wave t l)
      \<and> gate_high (dimTrace (half_wave t l)) = (if t \<le> T then gate_high (dimTrace l) else t \<le> T + 1000)"
    unfolding l1_def [symmetric] three
    using c by (auto simp: lum_lightHwTimerCallback_def lum_lightDimShutdown_def dimming_def)
  then show "dimming T (half_wave t l)"
    "gate_high (dimTrace (half_wave t l)) = (if t \<le> T then gate_high (dimTrace l) else t \<le> T + 1000)" by blast+
qed

text \<open>
  Property C33: the pulses of the gate.  If the pulse, one millisecond after the delay \<open>T\<close>, ends
  within a half wave of \<open>H\<close> microseconds, then in every half wave the gate is driven exactly from
  \<open>T\<close> to \<open>T + 1000\<close>: so for all levels at 50 Hz.  But if the pulse begins in the half wave and ends
  after it, as at level 1 with mains of 60 Hz, the next zero crossing restarts the timer that would
  have ended the pulse: after the first half wave the gate is driven all the time and the lamp is
  as bright as it can be.
\<close>

theorem gate_pulses:
  "dimming T l \<Longrightarrow> \<not> gate_high (dimTrace l) \<Longrightarrow> t \<le> H \<Longrightarrow> l' = half_wave t (((\<lambda>l. half_wave H l) ^^ n) l) \<Longrightarrow>
   (T + 1000 < H \<longrightarrow> gate_high (dimTrace l') = (T < t \<and> t \<le> T + 1000))
   \<and> (T < H \<and> H \<le> T + 1000 \<and> 0 < n \<longrightarrow> gate_high (dimTrace l'))"
proof -
  assume l: "dimming T l" "\<not> gate_high (dimTrace l)" and t: "t \<le> H"
    and l': "l' = half_wave t (((\<lambda>l. half_wave H l) ^^ n) l)"
  let ?ln = "((\<lambda>l. half_wave H l) ^^ n) l"
  have d: "dimming T ?ln" by (induction n) (use l half_wave_stages(1) in auto)
  have low: "\<not> gate_high (dimTrace ?ln)" if "T + 1000 < H"
  proof (cases n)
    case (Suc k)
    have "dimming T (((\<lambda>l. half_wave H l) ^^ k) l)" by (induction k) (use l half_wave_stages(1) in auto)
    then show ?thesis using half_wave_stages(2) [of T "((\<lambda>l. half_wave H l) ^^ k) l" H] that by (simp add: Suc)
  qed (use l in simp)
  have high: "gate_high (dimTrace ?ln)" if H: "T < H" "H \<le> T + 1000" and n: "0 < n"
  proof -
    obtain k where k: "n = Suc k" using n by (cases n) auto
    have "dimming T (((\<lambda>l. half_wave H l) ^^ k) l)" by (induction k) (use l half_wave_stages(1) in auto)
    then show ?thesis using half_wave_stages(2) [of T "((\<lambda>l. half_wave H l) ^^ k) l" H] H by (simp add: k)
  qed
  show ?thesis
    using half_wave_stages(2) [OF d, of t] low high t by (auto simp: l')
qed

text \<open>Level 1, at 60 Hz.\<close>

definition level_one :: dimmer where
  "level_one = dimmer_power_on\<lparr>g_lightLevel := 1, g_hwTimerperiod := 8200, g_lightDimStatus := ZERO_DETECT\<rparr>"

theorem gate_pulses_witness:
  "gate_high (dimTrace (half_wave 4000 (((\<lambda>l. half_wave 8333 l) ^^ 1) level_one)))
   \<and> \<not> gate_high (dimTrace (half_wave 4000 (((\<lambda>l. half_wave 10000 l) ^^ 1) level_one)))"
proof -
  have l: "dimming 8200 level_one" "\<not> gate_high (dimTrace level_one)"
    by (simp_all add: dimming_def level_one_def dimmer_power_on_def)
  show ?thesis
    using gate_pulses [OF l _ refl, of 4000 8333 1] gate_pulses [OF l _ refl, of 4000 10000 1] by simp
qed


section \<open>A key press that meets a request\<close>

fun zero_detection :: "dim_call list \<Rightarrow> bool option" where
  "zero_detection [] = None"
| "zero_detection (Zero_irq b # tr) = Some b"
| "zero_detection (_ # tr) = zero_detection tr"

lemma zero_detection_level: "zero_detection (dimTrace (lum_lightChangeLevel level l)) = zero_detection (dimTrace l)"
proof -
  have "zero_detection (dimTrace (fold (\<lambda>i. dcall (Led_pin (i + 1) (P i))) xs l)) = zero_detection (dimTrace l)" for P xs l
    by (induction xs arbitrary: l) (simp_all add: dcall_def)
  then show ?thesis by (simp add: lum_lightChangeLevel_def Let_def)
qed

text \<open>
  The key for more light is ignored while the lamp is off, but that is checked at the
  edge only.  When the lamp is switched off by a request within the 30 ms in which the key is
  debounced, the level becomes 1 and the device reports itself as switched on, with the detection
  of the zero crossings disabled: the lamp stays dark.
\<close>

theorem key_after_switching_off:
  "g_lightDimStatus l \<noteq> GET_AC_FREQ \<Longrightarrow> set_dimmer_switch E SWITCH_CLOSE p (d, lum_lightKeyUpIrq l) = Some (d', l1) \<Longrightarrow>
   \<not> dim_pin_is_high K (dimTrace l1) HFGPIO_F_KEY_UP \<Longrightarrow> l2 = lum_lightKeyUpTimerCallback K l1 \<Longrightarrow>
   dimmer_status l1 = SWITCH_CLOSE \<and> dimmer_status l2 = SWITCH_OPEN \<and> g_lightLevel l2 = 1
   \<and> zero_detection (dimTrace l2) = Some False"
proof -
  assume l: "g_lightDimStatus l \<noteq> GET_AC_FREQ" and off: "set_dimmer_switch E SWITCH_CLOSE p (d, lum_lightKeyUpIrq l) = Some (d', l1)"
    and key: "\<not> dim_pin_is_high K (dimTrace l1) HFGPIO_F_KEY_UP" and l2: "l2 = lum_lightKeyUpTimerCallback K l1"
  have level: "g_lightLevel (lum_lightChangeLevel k l) = k \<and> g_lightDimStatus (lum_lightChangeLevel k l) = g_lightDimStatus l" for k l
  proof -
    have "g_lightDimStatus (fold (\<lambda>i. dcall (Led_pin (i + 1) (P i))) xs l) = g_lightDimStatus l
        \<and> g_lightLevel (fold (\<lambda>i. dcall (Led_pin (i + 1) (P i))) xs l) = g_lightLevel l" for P xs l
      by (induction xs arbitrary: l) simp_all
    then show ?thesis by (simp add: lum_lightChangeLevel_def Let_def)
  qed
  have st: "g_lightDimStatus (lum_lightKeyUpIrq l) \<noteq> GET_AC_FREQ" using l by (simp add: lum_lightKeyUpIrq_def)
  have l1: "l1 = dcall (Zero_irq False) (lum_lightChangeLevel 0 (lum_lightKeyUpIrq l))"
    using off st level by (auto simp: set_dimmer_switch_def Let_def split: if_splits bind_splits)
  then have zero: "g_lightLevel l1 = 0" "zero_detection (dimTrace l1) = Some False" by (simp_all add: level) (simp add: dcall_def)
  have "l2 = lum_lightChangeLevel 1 l1" using key zero(1) by (simp add: l2 lum_lightKeyUpTimerCallback_def)
  then show ?thesis using zero by (simp add: dimmer_status_def level zero_detection_level)
qed

theorem key_after_switching_off_witness:
  "\<exists>d' l1. set_dimmer_switch plain_sdk SWITCH_CLOSE SWITCH_PIN_1 (power_on, lum_lightKeyUpIrq level_one) = Some (d', l1)
     \<and> dimmer_status (lum_lightKeyUpTimerCallback \<lparr>dim_pin_is_high = \<lambda>_ _. False, dim_configured = \<lambda>_ _. True\<rparr> l1) = SWITCH_OPEN"
proof -
  have st: "g_lightDimStatus level_one \<noteq> GET_AC_FREQ" by (simp add: level_one_def)
  have on: "dimmer_status (lum_lightKeyUpIrq level_one) = SWITCH_OPEN"
    by (simp add: dimmer_status_def lum_lightKeyUpIrq_def level_one_def)
  obtain r d' where q: "insertLocalMsgToList plain_sdk MSG_LOCAL_EVENT (Some (gpio_change_report SWITCH_CLOSE SWITCH_PIN_1)) 8
      MSG_CMD_REPORT_GPIO_CHANGE power_on = Some (r, d')"
    by (rule insertLocalMsgToList_msgs [OF msgs_power_on, of "Some (gpio_change_report SWITCH_CLOSE SWITCH_PIN_1)" 8 plain_sdk
        MSG_LOCAL_EVENT MSG_CMD_REPORT_GPIO_CHANGE]) auto
  obtain l1 where run: "set_dimmer_switch plain_sdk SWITCH_CLOSE SWITCH_PIN_1 (power_on, lum_lightKeyUpIrq level_one) = Some (d', l1)"
    using q on by (simp add: set_dimmer_switch_def Let_def)
  from key_after_switching_off [OF st run, of "\<lparr>dim_pin_is_high = \<lambda>_ _. False, dim_configured = \<lambda>_ _. True\<rparr>"] run
  show ?thesis by simp
qed
end
