(* ===== verification/Lamp.thy ===== *)
theory Lamp
  imports Message_Properties
begin

text \<open>
  The lamp with adjustable brightness and colour (the parts of \<open>deviceGpio.c\<close> and \<open>itoCommon.c\<close> under
  \<open>CHANGE_BRIGHTNESS_SUPPORT\<close> and \<open>COLOR_TEMPERATURE_SUPPORT\<close>, product \<open>P8_Config.h\<close>).  Two LEDs, white
  and yellow, are driven by pulse width; their shares are computed from a brightness and a
  temperature of up to 100.  While the device is not connected the lamp blinks.
\<close>

abbreviation (input) "SMARTLINK_BRIGHT_LEVEL \<equiv> 5"
abbreviation (input) "DEFAULT_TEMP_LEVEL \<equiv> 50"
abbreviation (input) "DEFAULT_BRIGHT_LEVEL \<equiv> 50"

section \<open>State\<close>

datatype light_status_indication = LIGHT_LED_CLOSE | LIGHT_LED_OPEN | LIGHT_NOT_UNCONNECT | LIGHT_SMARTLINK

datatype lamp_pin = HFGPIO_F_LED_BRIGHTNESS | HFGPIO_F_COLOR_TEMP | HFGPIO_F_BRIGHT_CHANGE | HFGPIO_F_TEMP_CHANGE

datatype lamp_call =
    Pwm_enable lamp_pin nat u8 | Pwm_disable lamp_pin | Lamp_pin_low lamp_pin
  | Blink_create nat | Blink_period nat | Blink_stop | Blink_delete
  | Lamp_key_create lamp_pin nat | Lamp_key_timer lamp_pin nat | Lamp_configure lamp_pin
  | Levels_saved u8 u8

text \<open>\<open>LIGHT_LET_INFO\<close>, the two levels of the configuration, and the timers.\<close>

record lamp =
  ledOpen :: u8
  ledStatus :: light_status_indication
  brightsLevel :: u8
  tempLevel :: u8
  g_lightLedStatusTimer :: bool
  lightBrightTimerHandle :: bool
  lightTempTimerHandle :: bool
  lampTrace :: "lamp_call list"

record lamp_sdk =
  lamp_pin_is_high :: "lamp_call list \<Rightarrow> lamp_pin \<Rightarrow> bool"
  lamp_configured :: "lamp_call list \<Rightarrow> lamp_pin \<Rightarrow> bool"

definition pcall :: "lamp_call \<Rightarrow> lamp \<Rightarrow> lamp" where
  "pcall c l = l\<lparr>lampTrace := c # lampTrace l\<rparr>"

definition lamp_power_on :: lamp where
  "lamp_power_on = \<lparr>ledOpen = 0, ledStatus = LIGHT_LED_CLOSE, brightsLevel = DEFAULT_BRIGHT_LEVEL,
     tempLevel = DEFAULT_TEMP_LEVEL, g_lightLedStatusTimer = False, lightBrightTimerHandle = False,
     lightTempTimerHandle = False, lampTrace = []\<rparr>"

section \<open>The two levels\<close>

definition lum_setTemperatureLevel :: "u8 \<Rightarrow> lamp \<Rightarrow> lamp" where
  "lum_setTemperatureLevel t l = pcall (Levels_saved (brightsLevel l) t) (l\<lparr>tempLevel := t\<rparr>)"

definition lum_setBrightnessLevel :: "u8 \<Rightarrow> lamp \<Rightarrow> lamp" where
  "lum_setBrightnessLevel b l = pcall (Levels_saved b (tempLevel l)) (l\<lparr>brightsLevel := b\<rparr>)"

section \<open>The LEDs\<close>

definition set_pwm :: "lamp_pin \<Rightarrow> u8 \<Rightarrow> lamp \<Rightarrow> lamp" where
  "set_pwm led level l =
     (if level = 0 then pcall (Lamp_pin_low led) (pcall (Pwm_disable led) l) else pcall (Pwm_enable led 400 level) l)"

text \<open>Products of type \<open>int\<close>; a quotient of C is rounded towards zero.\<close>

definition percent :: "int \<Rightarrow> u8" where
  "percent x = of_int (sgn x * (\<bar>x\<bar> div 100))"

definition lum_setLightLedStatus :: "u8 \<Rightarrow> u8 \<Rightarrow> lamp \<Rightarrow> lamp" where
  "lum_setLightLedStatus b t l =
     (let whiteLedLevel = percent (uint b * uint t);
          yellowLevel = percent (uint b * (100 - uint t))
      in set_pwm HFGPIO_F_COLOR_TEMP yellowLevel (set_pwm HFGPIO_F_LED_BRIGHTNESS whiteLedLevel l))"

definition lum_startLightLedStatusTimer :: "lamp \<Rightarrow> lamp" where
  "lum_startLightLedStatusTimer l =
     (let l1 = (if g_lightLedStatusTimer l then l
                else (pcall (Blink_create 5000) l)\<lparr>ledOpen := 0, g_lightLedStatusTimer := True\<rparr>)
      in pcall (Blink_period (if ledStatus l1 = LIGHT_NOT_UNCONNECT then 2000 else 150)) l1)"

definition lum_stopLightLedStatusTimer :: "lamp \<Rightarrow> lamp" where
  "lum_stopLightLedStatusTimer l =
     (if g_lightLedStatusTimer l
      then (pcall Blink_delete (pcall Blink_stop l))\<lparr>g_lightLedStatusTimer := False\<rparr> else l)"

definition lum_lightLedStatusTimerCallback :: "lamp \<Rightarrow> lamp" where
  "lum_lightLedStatusTimerCallback l = lum_startLightLedStatusTimer
     (if ledOpen l = 0
      then (lum_setLightLedStatus SMARTLINK_BRIGHT_LEVEL SMARTLINK_BRIGHT_LEVEL l)\<lparr>ledOpen := 1\<rparr>
      else (lum_setLightLedStatus 1 1 l)\<lparr>ledOpen := 0\<rparr>)"

definition lum_setLedLightStatus :: "light_status_indication \<Rightarrow> lamp \<Rightarrow> lamp" where
  "lum_setLedLightStatus letStatus l =
     (let l0 = l\<lparr>ledStatus := letStatus\<rparr>;
          l1 = (if letStatus = LIGHT_LED_OPEN \<or> letStatus = LIGHT_LED_CLOSE then lum_stopLightLedStatusTimer l0 else l0)
      in case letStatus of
           LIGHT_LED_OPEN \<Rightarrow> (lum_setLightLedStatus (brightsLevel l1) (tempLevel l1) l1)\<lparr>ledOpen := 1\<rparr>
         | LIGHT_LED_CLOSE \<Rightarrow> (lum_setLightLedStatus 0 0 l1)\<lparr>ledOpen := 0\<rparr>
         | LIGHT_NOT_UNCONNECT \<Rightarrow> lum_startLightLedStatusTimer l1
         | LIGHT_SMARTLINK \<Rightarrow> lum_startLightLedStatusTimer l1)"

section \<open>The keys\<close>

definition lum_wifiLightBrightKeyTimerCallback :: "lamp_sdk \<Rightarrow> lamp \<Rightarrow> lamp" where
  "lum_wifiLightBrightKeyTimerCallback K l =
     (if lamp_pin_is_high K (lampTrace l) HFGPIO_F_BRIGHT_CHANGE then l
      else let b1 = brightsLevel l + 5; b = (if b1 > 100 then 0 else b1)
           in lum_setLightLedStatus b (tempLevel l) (lum_setBrightnessLevel b l))"

definition lum_wifiLightBrightKeyIrq :: "lamp \<Rightarrow> lamp" where
  "lum_wifiLightBrightKeyIrq l = pcall (Lamp_key_timer HFGPIO_F_BRIGHT_CHANGE 30)
     (if lightBrightTimerHandle l then l
      else (pcall (Lamp_key_create HFGPIO_F_BRIGHT_CHANGE 30) l)\<lparr>lightBrightTimerHandle := True\<rparr>)"

definition lum_wifiLightTempKeyTimerCallback :: "lamp_sdk \<Rightarrow> lamp \<Rightarrow> lamp" where
  "lum_wifiLightTempKeyTimerCallback K l =
     (if lamp_pin_is_high K (lampTrace l) HFGPIO_F_TEMP_CHANGE then l
      else let t1 = tempLevel l + 20; t = (if t1 > 100 then 0 else t1)
           in lum_setLightLedStatus (brightsLevel l) t (lum_setTemperatureLevel t l))"

definition lum_wifiLightTempKeyIrq :: "lamp \<Rightarrow> lamp" where
  "lum_wifiLightTempKeyIrq l = pcall (Lamp_key_timer HFGPIO_F_TEMP_CHANGE 30)
     (if lightTempTimerHandle l then l
      else (pcall (Lamp_key_create HFGPIO_F_TEMP_CHANGE 30) l)\<lparr>lightTempTimerHandle := True\<rparr>)"

definition lum_wifiLightLedInit :: "lamp_sdk \<Rightarrow> lamp \<Rightarrow> lamp" where
  "lum_wifiLightLedInit K l =
     (let l1 = lum_setLedLightStatus LIGHT_NOT_UNCONNECT (l\<lparr>ledOpen := 0\<rparr>);
          l2 = pcall (Lamp_configure HFGPIO_F_BRIGHT_CHANGE) l1
      in if \<not> lamp_configured K (lampTrace l1) HFGPIO_F_BRIGHT_CHANGE then l2
         else pcall (Lamp_configure HFGPIO_F_TEMP_CHANGE) l2)"

section \<open>The switch\<close>

definition lamp_status :: "lamp \<Rightarrow> switch_status" where
  "lamp_status l = (if ledOpen l \<noteq> 0 then SWITCH_OPEN else SWITCH_CLOSE)"

text \<open>\<open>setSwitchStatus\<close> of this product.\<close>

definition set_lamp_switch ::
    "sdk \<Rightarrow> switch_status \<Rightarrow> switch_pin_flag \<Rightarrow> device \<times> lamp \<Rightarrow> (device \<times> lamp) option" where
  "set_lamp_switch E action switchFlag s =
     (let switchStatus = lamp_status (snd s);
          l1 = lum_setLedLightStatus (if action = SWITCH_OPEN then LIGHT_LED_OPEN else LIGHT_LED_CLOSE) (snd s)
      in if action \<noteq> switchStatus
         then do {
           (_, d) \<leftarrow> insertLocalMsgToList E MSG_LOCAL_EVENT
             (Some (gpio_change_report action switchFlag)) 8 MSG_CMD_REPORT_GPIO_CHANGE (fst s);
           Some (d, l1)
         } else Some (fst s, l1))"

section \<open>What the lamp shows\<close>

text \<open>The duty of a LED in percent, as the last call left it.\<close>

fun duty :: "lamp_call list \<Rightarrow> lamp_pin \<Rightarrow> nat" where
  "duty [] p = 0"
| "duty (Pwm_enable q f level # tr) p = (if q = p then unat level else duty tr p)"
| "duty (Pwm_disable q # tr) p = (if q = p then 0 else duty tr p)"
| "duty (_ # tr) p = duty tr p"

definition lamp_shines :: "lamp \<Rightarrow> nat \<Rightarrow> nat \<Rightarrow> bool" where
  "lamp_shines l b t \<longleftrightarrow> duty (lampTrace l) HFGPIO_F_LED_BRIGHTNESS = b * t div 100
     \<and> duty (lampTrace l) HFGPIO_F_COLOR_TEMP = b * (100 - t) div 100"

text \<open>Everything that happens to the lamp: the keys, the timers, the network and the requests.\<close>

inductive lamp_step :: "lamp_sdk \<Rightarrow> lamp \<Rightarrow> lamp \<Rightarrow> bool" for K where
  status: "lamp_step K l (lum_setLedLightStatus st l)"
| blink: "g_lightLedStatusTimer l \<Longrightarrow> lamp_step K l (lum_lightLedStatusTimerCallback l)"
| bright_edge: "lamp_step K l (lum_wifiLightBrightKeyIrq l)"
| bright_key: "lamp_step K l (lum_wifiLightBrightKeyTimerCallback K l)"
| temp_edge: "lamp_step K l (lum_wifiLightTempKeyIrq l)"
| temp_key: "lamp_step K l (lum_wifiLightTempKeyTimerCallback K l)"

definition lamp_ok :: "lamp \<Rightarrow> bool" where
  "lamp_ok l \<longleftrightarrow> brightsLevel l \<le> 100 \<and> tempLevel l \<le> 100
     \<and> (g_lightLedStatusTimer l \<longleftrightarrow> ledStatus l \<in> {LIGHT_NOT_UNCONNECT, LIGHT_SMARTLINK})
     \<and> (ledStatus l = LIGHT_LED_OPEN \<longrightarrow> ledOpen l = 1 \<and> lamp_shines l (unat (brightsLevel l)) (unat (tempLevel l)))
     \<and> (ledStatus l = LIGHT_LED_CLOSE \<longrightarrow> ledOpen l = 0)"

subsection \<open>Each operation\<close>

lemma trace_pcall [simp]: "lampTrace (pcall c l) = c # lampTrace l"
  by (simp add: pcall_def)

lemma pcall_fields [simp]:
  "ledOpen (pcall c l) = ledOpen l" "ledStatus (pcall c l) = ledStatus l"
  "brightsLevel (pcall c l) = brightsLevel l" "tempLevel (pcall c l) = tempLevel l"
  "g_lightLedStatusTimer (pcall c l) = g_lightLedStatusTimer l"
  by (simp_all add: pcall_def)

lemma set_pwm_fields [simp]:
  "ledOpen (set_pwm p x l) = ledOpen l" "ledStatus (set_pwm p x l) = ledStatus l"
  "brightsLevel (set_pwm p x l) = brightsLevel l" "tempLevel (set_pwm p x l) = tempLevel l"
  "g_lightLedStatusTimer (set_pwm p x l) = g_lightLedStatusTimer l"
  by (simp_all add: set_pwm_def)

lemma light_fields [simp]:
  "ledOpen (lum_setLightLedStatus b t l) = ledOpen l" "ledStatus (lum_setLightLedStatus b t l) = ledStatus l"
  "brightsLevel (lum_setLightLedStatus b t l) = brightsLevel l" "tempLevel (lum_setLightLedStatus b t l) = tempLevel l"
  "g_lightLedStatusTimer (lum_setLightLedStatus b t l) = g_lightLedStatusTimer l"
  by (simp_all add: lum_setLightLedStatus_def Let_def)

lemma duty_set_pwm: "duty (lampTrace (set_pwm p x l)) q = (if q = p then unat x else duty (lampTrace l) q)"
  by (simp add: set_pwm_def)

lemma unat_percent:
  assumes "b \<le> 100" "t \<le> 100"
  shows "unat (percent (int b * int t)) = b * t div 100"
proof -
  have "b * t \<le> 100 * 100" using assms by (rule mult_le_mono)
  then have "b * t div 100 \<le> 100" by simp
  moreover have "percent (int b * int t) = of_nat (b * t div 100)"
  proof -
    have q: "int b * int t div 100 = int (b * t div 100)" by (simp add: zdiv_int)
    show ?thesis
    proof (cases "b = 0 \<or> t = 0")
      case False
      then have "percent (int b * int t) = of_int (int b * int t div 100)"
        by (simp add: percent_def sgn_mult abs_mult)
      then show ?thesis unfolding q by simp
    qed (auto simp: percent_def)
  qed
  ultimately show ?thesis by (simp add: unsigned_of_nat take_bit_nat_eq_self)
qed

lemma light_shines:
  assumes "b \<le> 100" "t \<le> 100"
  shows "lamp_shines (lum_setLightLedStatus b t l) (unat b) (unat t)"
proof -
  have b: "unat b \<le> 100" and t: "unat t \<le> 100" using assms by (simp_all add: word_le_nat_alt)
  have "100 - uint t = int (100 - unat t)" using t by (simp add: of_nat_diff)
  then show ?thesis
    using unat_percent [OF b t] unat_percent [OF b, of "100 - unat t"]
    by (simp add: lamp_shines_def lum_setLightLedStatus_def Let_def duty_set_pwm)
qed

lemma lamp_shines_trace: "duty (lampTrace l') = duty (lampTrace l) \<Longrightarrow> lamp_shines l' b t = lamp_shines l b t"
  by (simp add: lamp_shines_def)

lemma start_blink_fields [simp]:
  "ledStatus (lum_startLightLedStatusTimer l) = ledStatus l"
  "brightsLevel (lum_startLightLedStatusTimer l) = brightsLevel l" "tempLevel (lum_startLightLedStatusTimer l) = tempLevel l"
  "g_lightLedStatusTimer (lum_startLightLedStatusTimer l)"
  by (simp_all add: lum_startLightLedStatusTimer_def Let_def)

lemma stop_blink_fields [simp]:
  "ledOpen (lum_stopLightLedStatusTimer l) = ledOpen l" "ledStatus (lum_stopLightLedStatusTimer l) = ledStatus l"
  "brightsLevel (lum_stopLightLedStatusTimer l) = brightsLevel l" "tempLevel (lum_stopLightLedStatusTimer l) = tempLevel l"
  "\<not> g_lightLedStatusTimer (lum_stopLightLedStatusTimer l)"
  by (simp_all add: lum_stopLightLedStatusTimer_def)

lemma level_wrapped: "(if x > 100 then 0 else x) \<le> (100 :: u8)"
  by (simp add: not_less)

lemma bright_key_ok:
  assumes "lamp_ok l"
  shows "lamp_ok (lum_wifiLightBrightKeyTimerCallback K l)"
proof (cases "lamp_pin_is_high K (lampTrace l) HFGPIO_F_BRIGHT_CHANGE")
  case False
  define b where "b = (if brightsLevel l + 5 > 100 then 0 else brightsLevel l + 5)"
  define l1 where "l1 = lum_setBrightnessLevel b l"
  have b: "b \<le> 100" unfolding b_def by (rule level_wrapped)
  have t: "tempLevel l \<le> 100" using assms by (simp add: lamp_ok_def)
  have "lum_wifiLightBrightKeyTimerCallback K l = lum_setLightLedStatus b (tempLevel l) l1"
    using False by (simp add: lum_wifiLightBrightKeyTimerCallback_def Let_def b_def l1_def)
  moreover have "brightsLevel l1 = b" "tempLevel l1 = tempLevel l" "ledOpen l1 = ledOpen l" "ledStatus l1 = ledStatus l"
      "g_lightLedStatusTimer l1 = g_lightLedStatusTimer l"
    by (simp_all add: l1_def lum_setBrightnessLevel_def)
  ultimately show ?thesis using assms b light_shines [OF b t, of l1] by (simp add: lamp_ok_def)
qed (simp add: lum_wifiLightBrightKeyTimerCallback_def assms)

lemma temp_key_ok:
  assumes "lamp_ok l"
  shows "lamp_ok (lum_wifiLightTempKeyTimerCallback K l)"
proof (cases "lamp_pin_is_high K (lampTrace l) HFGPIO_F_TEMP_CHANGE")
  case False
  define t where "t = (if tempLevel l + 20 > 100 then 0 else tempLevel l + 20)"
  define l1 where "l1 = lum_setTemperatureLevel t l"
  have t: "t \<le> 100" unfolding t_def by (rule level_wrapped)
  have b: "brightsLevel l \<le> 100" using assms by (simp add: lamp_ok_def)
  have "lum_wifiLightTempKeyTimerCallback K l = lum_setLightLedStatus (brightsLevel l) t l1"
    using False by (simp add: lum_wifiLightTempKeyTimerCallback_def Let_def t_def l1_def)
  moreover have "brightsLevel l1 = brightsLevel l" "tempLevel l1 = t" "ledOpen l1 = ledOpen l" "ledStatus l1 = ledStatus l"
      "g_lightLedStatusTimer l1 = g_lightLedStatusTimer l"
    by (simp_all add: l1_def lum_setTemperatureLevel_def)
  ultimately show ?thesis using assms t light_shines [OF b t, of l1] by (simp add: lamp_ok_def)
qed (simp add: lum_wifiLightTempKeyTimerCallback_def assms)

lemma status_ok:
  assumes "lamp_ok l"
  shows "lamp_ok (lum_setLedLightStatus st l)"
proof -
  define l1 where "l1 = lum_stopLightLedStatusTimer (l\<lparr>ledStatus := LIGHT_LED_OPEN\<rparr>)"
  have "brightsLevel l1 \<le> 100" "tempLevel l1 \<le> 100" using assms by (simp_all add: l1_def lamp_ok_def)
  from light_shines [OF this, of l1] have "lamp_ok ((lum_setLightLedStatus (brightsLevel l1) (tempLevel l1) l1)\<lparr>ledOpen := 1\<rparr>)"
    using assms by (simp add: lamp_ok_def lamp_shines_def) (simp add: l1_def)
  then show ?thesis using assms
    by (cases st) (simp_all add: lum_setLedLightStatus_def Let_def l1_def lamp_ok_def)
qed

lemma blink_ok:
  assumes "lamp_ok l" "g_lightLedStatusTimer l"
  shows "lamp_ok (lum_lightLedStatusTimerCallback l)"
  using assms by (auto simp: lamp_ok_def lum_lightLedStatusTimerCallback_def)

lemma edges_ok:
  assumes "lamp_ok l"
  shows "lamp_ok (lum_wifiLightBrightKeyIrq l)" "lamp_ok (lum_wifiLightTempKeyIrq l)"
  using assms by (simp_all add: lamp_ok_def lamp_shines_def lum_wifiLightBrightKeyIrq_def lum_wifiLightTempKeyIrq_def)

lemma lamp_step_ok: "lamp_step K l l' \<Longrightarrow> lamp_ok l \<Longrightarrow> lamp_ok l'"
  by (induction rule: lamp_step.induct)
     (simp_all add: status_ok blink_ok edges_ok bright_key_ok temp_key_ok)

text \<open>The lamp after \<open>initDevicePin\<close>, with the levels of the saved configuration.\<close>

definition lamp_started :: "lamp_sdk \<Rightarrow> u8 \<Rightarrow> u8 \<Rightarrow> lamp" where
  "lamp_started K b t = lum_wifiLightLedInit K (lamp_power_on\<lparr>brightsLevel := b, tempLevel := t\<rparr>)"

lemma lamp_starts_ok:
  assumes "b \<le> 100" "t \<le> 100"
  shows "lamp_ok (lamp_started K b t)"
proof -
  have "lamp_ok (lum_setLedLightStatus LIGHT_NOT_UNCONNECT (lamp_power_on\<lparr>brightsLevel := b, tempLevel := t, ledOpen := 0\<rparr>))"
    using assms by (intro status_ok) (simp add: lamp_ok_def lamp_power_on_def)
  then show ?thesis by (simp add: lamp_started_def lum_wifiLightLedInit_def Let_def lamp_ok_def lamp_shines_def)
qed

lemma lamp_reachable_ok: "(lamp_step K)\<^sup>*\<^sup>* l l' \<Longrightarrow> lamp_ok l \<Longrightarrow> lamp_ok l'"
  by (induction rule: rtranclp_induct) (simp_all add: lamp_step_ok)



text \<open>
  The keys do not look whether the lamp is switched on.  A press of the brightness key
  on a lamp that was switched off lights it with the next level, while the device goes on reporting
  the lamp as switched off, also to the request that would switch it off.
\<close>

theorem key_lights_closed_lamp:
  "brightsLevel l \<le> 95 \<Longrightarrow> tempLevel l \<le> 100 \<Longrightarrow> l1 = lum_setLedLightStatus LIGHT_LED_CLOSE l \<Longrightarrow>
   \<not> lamp_pin_is_high K (lampTrace l1) HFGPIO_F_BRIGHT_CHANGE \<Longrightarrow> l2 = lum_wifiLightBrightKeyTimerCallback K l1 \<Longrightarrow>
   lamp_status l2 = SWITCH_CLOSE \<and> lamp_shines l2 (unat (brightsLevel l) + 5) (unat (tempLevel l))"
proof -
  assume b: "brightsLevel l \<le> 95" and t: "tempLevel l \<le> 100" and l1: "l1 = lum_setLedLightStatus LIGHT_LED_CLOSE l"
    and key: "\<not> lamp_pin_is_high K (lampTrace l1) HFGPIO_F_BRIGHT_CHANGE" and l2: "l2 = lum_wifiLightBrightKeyTimerCallback K l1"
  have n: "unat (brightsLevel l + 5) = unat (brightsLevel l) + 5" and le: "brightsLevel l + 5 \<le> 100"
    using b by (simp_all add: word_le_nat_alt unat_word_ariths)
  have "brightsLevel l1 = brightsLevel l" "tempLevel l1 = tempLevel l" "ledOpen l1 = 0"
    by (simp_all add: l1 lum_setLedLightStatus_def Let_def)
  then show ?thesis using key light_shines [OF le t, of "lum_setBrightnessLevel (brightsLevel l + 5) l1"] n le
    by (simp add: l2 lum_wifiLightBrightKeyTimerCallback_def Let_def lamp_status_def lum_setBrightnessLevel_def not_less [symmetric])
qed

theorem key_lights_closed_lamp_witness:
  "lamp_shines (lum_wifiLightBrightKeyTimerCallback \<lparr>lamp_pin_is_high = \<lambda>_ _. False, lamp_configured = \<lambda>_ _. True\<rparr>
     (lum_setLedLightStatus LIGHT_LED_CLOSE lamp_power_on)) 55 50"
proof -
  have "brightsLevel lamp_power_on = 50" "tempLevel lamp_power_on = 50" by (simp_all add: lamp_power_on_def)
  then show ?thesis
    using key_lights_closed_lamp [of lamp_power_on _ "\<lparr>lamp_pin_is_high = \<lambda>_ _. False, lamp_configured = \<lambda>_ _. True\<rparr>", OF _ _ refl _ refl]
    by simp
qed
end
