(* ===== verification/Wall_Socket.thy ===== *)
theory Wall_Socket
  imports Message_Properties
begin

text \<open>
  The wall socket (product \<open>P1_Config.h\<close>): the buzzer, which rings while the device is being configured
  (\<open>deviceGpio.c\<close>, \<open>deviceMisc.c\<close> under \<open>BUZZER_RING_SUPPORT\<close>), the switch wired to the device, which
  is debounced by polling (\<open>asyncMessage.c\<close> under \<open>EXTRA_SWITCH_SUPPORT\<close>), and the timer by which a
  device without a key offers to be configured (\<open>DEVICE_NO_KEY\<close>).  The values that \<open>lum_getSystemTime\<close>
  returns and the level of the switch are arguments of the operations that read them.
\<close>

abbreviation (input) "MAX_KEY_STILL_COUNT \<equiv> 10"

section \<open>State\<close>

datatype buzzer_status = BUZZER_CLOSE | BUZZER_OPEN

record buzzer_ring_data =
  maxRingTimes :: u8
  ringPeriod :: u16
  stopPeriod :: u16
  pRindPeriod :: "u16 list"

definition buzzerRingPeriod :: "u16 list" where
  "buzzerRingPeriod = [250, 250, 0]"

definition buzzerRingData :: buzzer_ring_data where
  "buzzerRingData = \<lparr>maxRingTimes = 3, ringPeriod = 30, stopPeriod = 5, pRindPeriod = buzzerRingPeriod\<rparr>"

datatype wall_call =
    Buzzer_pwm nat nat | Buzzer_pwm_off | Buzzer_low | Wall_sleep int
  | Ring_create int | Ring_stop | Ring_delete | Ring_period int
  | Extra_configure | Offer_create nat | Offer_period nat | Offer_delete

text \<open>
  \<open>BUZZER_RING_INFO\<close> is the part up to \<open>pRingData\<close>, whose null pointer is \<open>None\<close>.  \<open>ringDue\<close> is the
  period with which the timer of the SDK was last started.
\<close>

record wall =
  g_buzzer_status :: buzzer_status
  ringPeriodIndex :: u8
  curTimes :: u8
  ringStop :: bool
  startTime :: u32
  pRingData :: "buzzer_ring_data option"
  buzzerRingTimer :: bool
  ringDue :: int
  checkSmarkLinkTimer :: bool
  g_oldExtraketStatus :: bool
  keyStillCount :: u8
  wallTrace :: "wall_call list"

definition wcall :: "wall_call \<Rightarrow> wall \<Rightarrow> wall" where
  "wcall c w = w\<lparr>wallTrace := c # wallTrace w\<rparr>"

definition wall_power_on :: wall where
  "wall_power_on = \<lparr>g_buzzer_status = BUZZER_CLOSE, ringPeriodIndex = 0, curTimes = 0, ringStop = False, startTime = 0,
     pRingData = None, buzzerRingTimer = False, ringDue = 0, checkSmarkLinkTimer = False,
     g_oldExtraketStatus = False, keyStillCount = 0, wallTrace = []\<rparr>"

section \<open>The buzzer\<close>

definition initBuzzerStatus :: "wall \<Rightarrow> wall" where
  "initBuzzerStatus w = (wcall Buzzer_low w)\<lparr>g_buzzer_status := BUZZER_CLOSE\<rparr>"

definition setBuzzerStatus :: "buzzer_status \<Rightarrow> wall \<Rightarrow> wall" where
  "setBuzzerStatus buzzerStatus w =
     (if buzzerStatus = BUZZER_OPEN then (wcall (Buzzer_pwm 1500 50) w)\<lparr>g_buzzer_status := BUZZER_OPEN\<rparr>
      else (wcall Buzzer_low (wcall Buzzer_pwm_off w))\<lparr>g_buzzer_status := BUZZER_CLOSE\<rparr>)"

definition switchBuzzerStatus :: "wall \<Rightarrow> wall" where
  "switchBuzzerStatus w =
     setBuzzerStatus (if g_buzzer_status w = BUZZER_OPEN then BUZZER_CLOSE else BUZZER_OPEN) w"

definition buzzerRingNotice :: "int \<Rightarrow> int \<Rightarrow> int \<Rightarrow> wall \<Rightarrow> wall" where
  "buzzerRingNotice ring stop ringTims w =
     wcall Buzzer_low (wcall Buzzer_pwm_off
       (((\<lambda>v. wcall (Wall_sleep stop) (setBuzzerStatus BUZZER_CLOSE
            (wcall (Wall_sleep ring) (setBuzzerStatus BUZZER_OPEN v)))) ^^ nat ringTims) w))"

definition initBuzzerRingInfo :: "buzzer_ring_data \<Rightarrow> u32 \<Rightarrow> wall \<Rightarrow> wall" where
  "initBuzzerRingInfo pRindData now w =
     w\<lparr>ringPeriodIndex := 0, curTimes := 0, startTime := now, pRingData := Some pRindData, ringStop := False\<rparr>"

text \<open>
  The period until the next expiry, \<open>-1\<close> when the ringing is over.  The clock is read once on entry
  and, when the ringing is started, once more.  An index past the end of the table is an error.
\<close>

definition getBuzzerRingPeriod :: "buzzer_ring_data option \<Rightarrow> u32 \<Rightarrow> u32 \<Rightarrow> wall \<Rightarrow> (int \<times> wall) option" where
  "getBuzzerRingPeriod initRingData curTime now w =
     (let w1 = (case initRingData of
                  Some r \<Rightarrow> wcall Buzzer_low (setBuzzerStatus BUZZER_CLOSE (initBuzzerRingInfo r now w))
                | None \<Rightarrow> if ringStop w then w\<lparr>ringStop := False, startTime := curTime, ringPeriodIndex := 0\<rparr> else w)
      in case pRingData w1 of None \<Rightarrow> None | Some r \<Rightarrow>
         if curTime - startTime w1 > ucast (ringPeriod r)
         then let w2 = w1\<lparr>curTimes := curTimes w1 + 1\<rparr>;
                  (period, w3) = (if curTimes w2 \<ge> maxRingTimes r then (-1, w2)
                                  else (uint (stopPeriod r) * 1000, w2\<lparr>ringStop := True\<rparr>))
              in Some (period, wcall Buzzer_low (setBuzzerStatus BUZZER_CLOSE w3))
         else if unat (ringPeriodIndex w1) \<ge> length (pRindPeriod r) then None
         else let i = (if pRindPeriod r ! unat (ringPeriodIndex w1) = 0 then 0 else ringPeriodIndex w1)
              in Some (uint (pRindPeriod r ! unat i), w1\<lparr>ringPeriodIndex := i + 1\<rparr>))"

definition ring_timer :: "int \<Rightarrow> wall \<Rightarrow> wall" where
  "ring_timer period w = (wcall (Ring_period period) w)\<lparr>ringDue := period\<rparr>"

definition deleteBuzzerRingTimer :: "wall \<Rightarrow> wall" where
  "deleteBuzzerRingTimer w =
     (if buzzerRingTimer w then (wcall Ring_delete (wcall Ring_stop w))\<lparr>buzzerRingTimer := False\<rparr> else w)"

definition smartlinkTimerCallback :: "u32 \<Rightarrow> wall \<Rightarrow> wall option" where
  "smartlinkTimerCallback curTime w =
     (if \<not> buzzerRingTimer w then Some w
      else do {
        (preiod, w1) \<leftarrow> getBuzzerRingPeriod None curTime curTime w;
        Some (if preiod > 0
              then ring_timer preiod
                     (if preiod \<noteq> uint (stopPeriod buzzerRingData) * 1000 then switchBuzzerStatus w1 else w1)
              else deleteBuzzerRingTimer w1)
      })"

text \<open>What \<open>deviceEnterSmartLink\<close> and \<open>systemEventCallbackSmarkLink\<close> do for this product.\<close>

definition enter_smartlink_ring :: "u32 \<Rightarrow> u32 \<Rightarrow> wall \<Rightarrow> wall option" where
  "enter_smartlink_ring curTime now w = do {
     (period, w1) \<leftarrow> getBuzzerRingPeriod (Some buzzerRingData) curTime now w;
     let w2 = switchBuzzerStatus w1;
     let w3 = (if buzzerRingTimer w2 then w2 else (wcall (Ring_create period) w2)\<lparr>buzzerRingTimer := True\<rparr>);
     Some (ring_timer period w3)
   }"

definition smartlink_done_ring :: "system_event \<Rightarrow> wall \<Rightarrow> wall" where
  "smartlink_done_ring ev w = (if ev = HFE_SMTLK_OK then setBuzzerStatus BUZZER_CLOSE (deleteBuzzerRingTimer w) else w)"

section \<open>The switch wired to the device\<close>

definition lum_extraKeyInit :: "bool \<Rightarrow> wall \<Rightarrow> wall" where
  "lum_extraKeyInit high w =
     (wcall Extra_configure w)\<lparr>keyStillCount := MAX_KEY_STILL_COUNT + 1, g_oldExtraketStatus := high\<rparr>"

definition lum_checkExtraKey :: "sdk \<Rightarrow> bool \<Rightarrow> device \<times> wall \<Rightarrow> (device \<times> wall) option" where
  "lum_checkExtraKey E curExtraKeyStatus s =
     (let (d, w) = s
      in if curExtraKeyStatus \<noteq> g_oldExtraketStatus w
         then Some (d, w\<lparr>keyStillCount := 0, g_oldExtraketStatus := curExtraKeyStatus\<rparr>)
         else if keyStillCount w < MAX_KEY_STILL_COUNT then Some (d, w\<lparr>keyStillCount := keyStillCount w + 1\<rparr>)
         else if keyStillCount w = MAX_KEY_STILL_COUNT
         then do {
           d1 \<leftarrow> changeSwitchStatus E SWITCH_PIN_1 d;
           Some (d1, w\<lparr>keyStillCount := keyStillCount w + 1\<rparr>)
         } else Some (d, w))"

section \<open>The offer to be configured\<close>

text \<open>
  The callback sleeps between the deletion of the timer and the reset of its handle; the two parts
  are two definitions, since other threads run in between.
\<close>

definition checkSmartLinkTimerCallback_start :: "device \<times> wall \<Rightarrow> device \<times> wall" where
  "checkSmartLinkTimerCallback_start s = (changeDeviceLockedStatus False (fst s), wcall Offer_delete (snd s))"

definition checkSmartLinkTimerCallback_end :: "sdk \<Rightarrow> device \<times> wall \<Rightarrow> device \<times> wall" where
  "checkSmartLinkTimerCallback_end E s =
     (sendSmartLinkCmd E (fst s), (wcall (Wall_sleep 200) (snd s))\<lparr>checkSmarkLinkTimer := False\<rparr>)"

definition cancelCheckSmartLinkTimer :: "wall \<Rightarrow> wall" where
  "cancelCheckSmartLinkTimer w =
     (if checkSmarkLinkTimer w then (wcall Offer_delete w)\<lparr>checkSmarkLinkTimer := False\<rparr> else w)"

definition checkNeedEnterSmartLink :: "wall \<Rightarrow> wall" where
  "checkNeedEnterSmartLink w = wcall (Offer_period 30000)
     (if checkSmarkLinkTimer w then w else (wcall (Offer_create 30000) w)\<lparr>checkSmarkLinkTimer := True\<rparr>)"

section \<open>The ringing ends\<close>

text \<open>
  The timer of the SDK expires after the period it was started with; times are in milliseconds, the
  clock of the device counts the seconds.
\<close>

definition ring_expiry :: "int \<times> wall \<Rightarrow> (int \<times> wall) option" where
  "ring_expiry x = (let t = fst x + ringDue (snd x)
     in map_option (Pair t) (smartlinkTimerCallback (of_int (t div 1000)) (snd x)))"

primrec ring_run :: "nat \<Rightarrow> int \<times> wall \<Rightarrow> (int \<times> wall) option" where
  "ring_run 0 x = Some x"
| "ring_run (Suc n) x = do { y \<leftarrow> ring_expiry x; ring_run n y }"

lemma ring_run_add: "ring_run (m + n) x = do { y \<leftarrow> ring_run m x; ring_run n y }"
  by (induction m arbitrary: x) (auto split: bind_splits)

lemma wcall_fields [simp]:
  "g_buzzer_status (wcall c w) = g_buzzer_status w" "ringPeriodIndex (wcall c w) = ringPeriodIndex w"
  "curTimes (wcall c w) = curTimes w" "ringStop (wcall c w) = ringStop w" "startTime (wcall c w) = startTime w"
  "pRingData (wcall c w) = pRingData w" "buzzerRingTimer (wcall c w) = buzzerRingTimer w" "ringDue (wcall c w) = ringDue w"
  by (simp_all add: wcall_def)

lemma setBuzzerStatus_fields [simp]:
  "g_buzzer_status (setBuzzerStatus b w) = b" "ringPeriodIndex (setBuzzerStatus b w) = ringPeriodIndex w"
  "curTimes (setBuzzerStatus b w) = curTimes w" "ringStop (setBuzzerStatus b w) = ringStop w"
  "startTime (setBuzzerStatus b w) = startTime w" "pRingData (setBuzzerStatus b w) = pRingData w"
  "buzzerRingTimer (setBuzzerStatus b w) = buzzerRingTimer w" "ringDue (setBuzzerStatus b w) = ringDue w"
  by (cases b; simp add: setBuzzerStatus_def)+

text \<open>The device rings for the \<open>c + 1\<close>st time, since \<open>s\<close>.\<close>

definition ringing :: "int \<Rightarrow> nat \<Rightarrow> int \<times> wall \<Rightarrow> bool" where
  "ringing s c x \<longleftrightarrow> (case x of (t, w) \<Rightarrow> buzzerRingTimer w \<and> pRingData w = Some buzzerRingData \<and> \<not> ringStop w
     \<and> startTime w = of_int (s div 1000) \<and> curTimes w = of_nat c \<and> ringDue w = 250
     \<and> (ringPeriodIndex w = 1 \<or> ringPeriodIndex w = 2))"

definition pausing :: "nat \<Rightarrow> wall \<Rightarrow> bool" where
  "pausing c w \<longleftrightarrow> buzzerRingTimer w \<and> pRingData w = Some buzzerRingData \<and> ringStop w \<and> curTimes w = of_nat c
     \<and> ringDue w = 5000 \<and> g_buzzer_status w = BUZZER_CLOSE"

definition silent :: "wall \<Rightarrow> bool" where
  "silent w \<longleftrightarrow> \<not> buzzerRingTimer w \<and> g_buzzer_status w = BUZZER_CLOSE"

lemma seconds_since:
  assumes "0 \<le> b - a" "b - a < 1000"
  shows "(of_int b :: u32) - of_int a > 30 \<longleftrightarrow> b - a > 30"
proof -
  have "(of_int b :: u32) - of_int a = of_int (b - a)" by simp
  moreover have "uint (of_int (b - a) :: u32) = b - a"
    using assms by (simp del: of_int_diff add: uint_word_of_int)
  ultimately show ?thesis by (simp add: word_less_def)
qed

lemma ring_data [simp]:
  "maxRingTimes buzzerRingData = 3" "ringPeriod buzzerRingData = 30" "stopPeriod buzzerRingData = 5"
  "pRindPeriod buzzerRingData = [250, 250, 0]"
  by (simp_all add: buzzerRingData_def buzzerRingPeriod_def)

lemma ring_goes_on:
  assumes r: "ringing s c (t, w)" and time: "s \<le> t" "(t + 250) div 1000 - s div 1000 \<le> 30"
  shows "\<exists>w'. ring_expiry (t, w) = Some (t + 250, w') \<and> ringing s c (t + 250, w')"
proof -
  have "0 \<le> (t + 250) div 1000 - s div 1000" using time(1) by (simp add: zdiv_mono1)
  then have "\<not> (of_int ((t + 250) div 1000) :: u32) - of_int (s div 1000) > 30"
    using seconds_since [of "(t + 250) div 1000" "s div 1000"] time(2) by simp
  with r show ?thesis
    by (auto simp: ring_expiry_def smartlinkTimerCallback_def getBuzzerRingPeriod_def ringing_def Let_def
        ring_timer_def switchBuzzerStatus_def)
qed

lemma ring_is_over:
  assumes r: "ringing s c (t, w)" and time: "s \<le> t" "(t + 250) div 1000 - s div 1000 = 31" and c: "c < 3"
  shows "\<exists>w'. ring_expiry (t, w) = Some (t + 250, w') \<and> (if c = 2 then silent w' else pausing (c + 1) w')"
proof -
  have over: "(of_int ((t + 250) div 1000) :: u32) - of_int (s div 1000) > 30"
    using seconds_since [of "(t + 250) div 1000" "s div 1000"] time(2) by simp
  have few: "\<not> (3 :: u8) \<le> 1" "\<not> (3 :: u8) \<le> 2" by (simp_all add: word_le_nat_alt)
  from c consider "c = 0" | "c = 1" | "c = 2" by linarith
  then show ?thesis using r over few
    by cases (auto simp: ring_expiry_def smartlinkTimerCallback_def getBuzzerRingPeriod_def ringing_def Let_def
        ring_timer_def silent_def pausing_def deleteBuzzerRingTimer_def)
qed

lemma ring_time:
  assumes "s = 1000 * q + r" "s + 250 * int k + 250 < 1000 * q + 31000"
  shows "r + 250 * int (Suc k) < 31000"
  using assms by simp

lemma ring_steps:
  assumes "0 \<le> r" "r + 250 * int n < 31000"
  shows "n < 124"
  using assms by linarith

lemma ring_lasts:
  assumes c: "c < 3"
  shows "ringing s c (s + 250 * int k, w) \<Longrightarrow> k < 124 \<Longrightarrow> s mod 1000 + 250 * int k < 31000 \<Longrightarrow>
    \<exists>n t w'. n \<le> 124 - k \<and> ring_run n (s + 250 * int k, w) = Some (t, w') \<and> s + 30000 < t \<and> t \<le> s + 31000
      \<and> (if c = 2 then silent w' else pausing (c + 1) w')"
proof (induction "124 - k" arbitrary: k w)
  case 0
  then show ?case by simp
next
  case (Suc m)
  define t where "t = s + 250 * int k"
  have st: "s \<le> t" by (simp add: t_def)
  have s: "s = 1000 * (s div 1000) + s mod 1000" by simp
  have le: "(t + 250) div 1000 - s div 1000 \<le> 31"
  proof -
    have "t + 250 < 1000 * (s div 1000) + 32000" using Suc.prems(3) s unfolding t_def by linarith
    then show ?thesis by linarith
  qed
  show ?case
  proof (cases "(t + 250) div 1000 - s div 1000 \<le> 30")
    case True
    then have before: "t + 250 < 1000 * (s div 1000) + 31000" by linarith
    have next_k: "s mod 1000 + 250 * int (Suc k) < 31000"
      by (rule ring_time [OF s before [unfolded t_def]])
    have k: "Suc k < 124"
      by (rule ring_steps [OF _ next_k]) simp
    obtain w1 where w1: "ring_expiry (t, w) = Some (t + 250, w1)" "ringing s c (t + 250, w1)"
      using ring_goes_on [OF _ st True] Suc.prems(1) by (auto simp: t_def)
    have t1: "t + 250 = s + 250 * int (Suc k)" by (simp add: t_def)
    have m: "m = 124 - Suc k" using Suc.hyps(2) by simp
    obtain n t' w' where n: "n \<le> 124 - Suc k" "ring_run n (t + 250, w1) = Some (t', w')" "s + 30000 < t'" "t' \<le> s + 31000"
        "if c = 2 then silent w' else pausing (c + 1) w'"
      using Suc.hyps(1) [OF m _ k next_k, of w1] w1(2) unfolding t1 by blast
    have "ring_run (Suc n) (t, w) = Some (t', w')" using w1(1) n(2) by simp
    moreover have "Suc n \<le> 124 - k" using n(1) k by simp
    ultimately show ?thesis using n(3-5) unfolding t_def by blast
  next
    case False
    then have e: "(t + 250) div 1000 - s div 1000 = 31" using le by simp
    obtain w' where w': "ring_expiry (t, w) = Some (t + 250, w')" "if c = 2 then silent w' else pausing (c + 1) w'"
      using ring_is_over [OF _ st e c] Suc.prems(1) by (auto simp: t_def)
    have lo: "s + 30000 < t + 250"
    proof -
      have "1000 * (s div 1000) + 31000 \<le> t + 250" using e by linarith
      moreover have "s mod 1000 < 1000" by simp
      ultimately show ?thesis using s by linarith
    qed
    have hi: "t + 250 \<le> s + 31000" using Suc.prems(2) by (simp add: t_def)
    have "ring_run (Suc 0) (t, w) = Some (t + 250, w')" using w'(1) by simp
    moreover have "Suc 0 \<le> 124 - k" using Suc.prems(2) by simp
    ultimately show ?thesis using w'(2) lo hi unfolding t_def by blast
  qed
qed

lemma pause_ends:
  assumes "pausing c w"
  shows "\<exists>w'. ring_expiry (t, w) = Some (t + 5000, w') \<and> ringing (t + 5000) c (t + 5000, w')"
  using assms by (auto simp: ring_expiry_def smartlinkTimerCallback_def getBuzzerRingPeriod_def pausing_def ringing_def
      Let_def ring_timer_def switchBuzzerStatus_def)

lemma ring_runs_out:
  assumes "c < 3" "ringing s c (s, w)"
  shows "\<exists>n t w'. n \<le> 124 \<and> ring_run n (s, w) = Some (t, w') \<and> s + 30000 < t \<and> t \<le> s + 31000
      \<and> (if c = 2 then silent w' else pausing (c + 1) w')"
proof -
  have "s mod 1000 + 250 * int 0 < 31000"
  proof -
    have "s mod 1000 < 1000" by simp
    then show ?thesis by linarith
  qed
  then show ?thesis using ring_lasts [OF assms(1), where k = 0] assms(2) by simp
qed

lemma ring_again:
  assumes "c < 3" "pausing c w"
  shows "\<exists>n t' w'. n \<le> 125 \<and> ring_run n (t, w) = Some (t', w') \<and> t + 35000 < t' \<and> t' \<le> t + 36000
      \<and> (if c = 2 then silent w' else pausing (c + 1) w')"
proof -
  obtain w1 where w1: "ring_expiry (t, w) = Some (t + 5000, w1)" "ringing (t + 5000) c (t + 5000, w1)"
    using pause_ends [OF assms(2)] by blast
  obtain n t' w' where n: "n \<le> 124" "ring_run n (t + 5000, w1) = Some (t', w')" "t + 5000 + 30000 < t'" "t' \<le> t + 5000 + 31000"
      "if c = 2 then silent w' else pausing (c + 1) w'"
    using ring_runs_out [OF assms(1) w1(2)] by blast
  have "ring_run (Suc n) (t, w) = Some (t', w')" using w1(1) n(2) by simp
  then show ?thesis using n by (intro exI [of _ "Suc n"]) auto
qed


text \<open>
  The clock is read twice on entry, first as the current time and then as the time the
  ringing started.  When the second reading is one second later, the difference wraps around and the
  first ringing counts as over: the buzzer is left switched on without a break for five seconds, and
  only two ringings are left.
\<close>

theorem ring_start_at_full_second:
  "\<exists>w1. enter_smartlink_ring t (t + 1) w = Some w1 \<and> g_buzzer_status w1 = BUZZER_OPEN \<and> ringDue w1 = 5000
     \<and> curTimes w1 = 1 \<and> ringStop w1 \<and> buzzerRingTimer w1"
proof -
  have "t - (t + 1) = (- 1 :: u32)" by simp
  moreover have "(30 :: u32) < - 1" by (simp add: word_less_def unsigned_minus_1_eq_mask mask_eq_exp_minus_1)
  moreover have "\<not> (3 :: u8) \<le> 1" by (simp add: word_le_nat_alt)
  ultimately show ?thesis
    by (simp add: enter_smartlink_ring_def getBuzzerRingPeriod_def initBuzzerRingInfo_def Let_def switchBuzzerStatus_def
        ring_timer_def)
qed

section \<open>The switch is debounced\<close>

text \<open>The readings of the switch since the thread started; the first one is that of \<open>lum_extraKeyInit\<close>.\<close>

fun extra_key_run :: "sdk \<Rightarrow> bool list \<Rightarrow> device \<times> wall \<Rightarrow> (device \<times> wall) option" where
  "extra_key_run E [] s = Some s"
| "extra_key_run E (high # hs) s = do { s1 \<leftarrow> lum_checkExtraKey E high s; extra_key_run E hs s1 }"

lemma extra_key_run_snoc: "extra_key_run E (hs @ [h]) s = do { s1 \<leftarrow> extra_key_run E hs s; lum_checkExtraKey E h s1 }"
  by (induction hs arbitrary: s) (auto split: bind_splits)

text \<open>How long the last reading has been the same, as the counter holds it.\<close>

definition still_for :: "bool list \<Rightarrow> wall \<Rightarrow> bool" where
  "still_for hs w \<longleftrightarrow> hs \<noteq> [] \<and> g_oldExtraketStatus w = last hs
     \<and> (if \<forall>h \<in> set hs. h = last hs then keyStillCount w = 11
        else \<exists>us n. hs = us @ replicate n (last hs) \<and> us \<noteq> [] \<and> last us \<noteq> last hs \<and> 0 < n
               \<and> keyStillCount w = of_nat (min 11 (n - 1)))"

definition settled :: "bool list \<Rightarrow> bool \<Rightarrow> bool" where
  "settled hs h \<longleftrightarrow> (\<exists>us. hs @ [h] = us @ replicate 12 h \<and> us \<noteq> [] \<and> last us \<noteq> h)"

lemma run_of_equal_unique:
  assumes "us @ replicate n h = vs @ replicate m h" "us \<noteq> []" "last us \<noteq> h" "vs \<noteq> []" "last vs \<noteq> h"
  shows "n = m"
proof -
  have run: "length (takeWhile (\<lambda>x. x = h) (rev (ws @ replicate k h))) = k" if ws: "ws \<noteq> []" "last ws \<noteq> h" for ws k
  proof -
    have A: "takeWhile (\<lambda>x. x = h) (replicate k h @ last ws # rev (butlast ws)) = replicate k h"
      using ws(2) by (induction k) simp_all
    have B: "rev ws = last ws # rev (butlast ws)" using ws(1) by (cases ws rule: rev_cases) simp_all
    show ?thesis unfolding rev_append rev_replicate B A by simp
  qed
  show ?thesis using run [OF assms(2,3), of n] run [OF assms(4,5), of m] assms(1) by simp
qed

lemma settled_after_run:
  assumes "hs = us @ replicate n h" "us \<noteq> []" "last us \<noteq> h"
  shows "settled hs h \<longleftrightarrow> n = 11"
proof -
  have snoc: "hs @ [h] = us @ replicate (Suc n) h" using assms(1) by (simp add: replicate_append_same)
  show ?thesis
  proof
    assume "settled hs h"
    then obtain vs where "hs @ [h] = vs @ replicate 12 h" "vs \<noteq> []" "last vs \<noteq> h" by (auto simp: settled_def)
    then have "Suc n = 12" using run_of_equal_unique [of us "Suc n" h vs 12] assms(2,3) snoc by simp
    then show "n = 11" by simp
  next
    assume "n = 11"
    then have "hs @ [h] = us @ replicate 12 h" using snoc by simp
    then show "settled hs h" using assms(2,3) unfolding settled_def by blast
  qed
qed

lemma not_settled_always: "\<forall>x \<in> set hs. x = h \<Longrightarrow> \<not> settled hs h"
proof
  assume all: "\<forall>x \<in> set hs. x = h" and "settled hs h"
  then obtain us where us: "hs @ [h] = us @ replicate 12 h" "us \<noteq> []" "last us \<noteq> h" by (auto simp: settled_def)
  have "last us \<in> set (hs @ [h])" unfolding us(1) using us(2) by simp
  then show False using all us(3) by auto
qed

lemma not_settled_change: "hs \<noteq> [] \<Longrightarrow> last hs \<noteq> h \<Longrightarrow> \<not> settled hs h"
proof
  assume hs: "hs \<noteq> []" "last hs \<noteq> h" and "settled hs h"
  then obtain us where "hs @ [h] = (us @ replicate 11 h) @ [h]"
    by (auto simp: settled_def numeral_eq_Suc replicate_append_same)
  then have "last hs = h" by (auto simp: numeral_eq_Suc)
  then show False using hs by simp
qed

lemma still_for_run_of:
  assumes "still_for hs w" "\<not> (\<forall>x \<in> set hs. x = last hs)"
  shows "\<exists>us n. hs = us @ replicate n (last hs) \<and> us \<noteq> [] \<and> last us \<noteq> last hs \<and> 0 < n
    \<and> keyStillCount w = of_nat (min 11 (n - 1))"
  using assms by (simp only: still_for_def if_False)

lemma still_forI:
  assumes "hs \<noteq> []" "g_oldExtraketStatus w = last hs" "\<not> (\<forall>x \<in> set hs. x = last hs)"
    "\<exists>us n. hs = us @ replicate n (last hs) \<and> us \<noteq> [] \<and> last us \<noteq> last hs \<and> 0 < n
      \<and> keyStillCount w = of_nat (min 11 (n - 1))"
  shows "still_for hs w"
  using assms by (simp only: still_for_def if_False simp_thms)

lemma still_for_step:
  assumes "still_for hs w" "lum_checkExtraKey E h (d, w) = Some (d', w')"
  shows "still_for (hs @ [h]) w'"
proof (cases "h = last hs")
  case same: True
  show ?thesis
  proof (cases "\<forall>x \<in> set hs. x = last hs")
    case True
    then have "keyStillCount w = 11" "g_oldExtraketStatus w = h" using assms(1) same by (simp_all add: still_for_def)
    then have "w' = w" using assms(2) by (auto simp: lum_checkExtraKey_def)
    then show ?thesis using assms(1) True same by (simp add: still_for_def)
  next
    case False
    then obtain us n where u: "hs = us @ replicate n h" "us \<noteq> []" "last us \<noteq> h" "0 < n"
        "keyStillCount w = of_nat (min 11 (n - 1))"
      using still_for_run_of [OF assms(1) False, folded same] by blast
    have held: "g_oldExtraketStatus w = h" using assms(1) same by (simp only: still_for_def)
    have count: "keyStillCount w' = of_nat (min 11 n)"
    proof -
      consider "n - 1 < 10" | "n - 1 = 10" | "n - 1 \<ge> 11" by linarith
      then show ?thesis
      proof cases
        case 1
        then have "keyStillCount w < 10" using u(5) by (simp add: word_less_nat_alt unsigned_of_nat take_bit_nat_eq_self)
        moreover have "of_nat (n - 1) + 1 = (of_nat n :: u8)" using u(4) by (metis Suc_pred' of_nat_Suc add.commute)
        ultimately show ?thesis using assms(2) u(5) held 1 by (auto simp: lum_checkExtraKey_def min_def)
      next
        case 2
        then show ?thesis using assms(2) u(5) held by (auto simp: lum_checkExtraKey_def split: bind_splits)
      next
        case 3
        then show ?thesis using assms(2) u(5) held by (auto simp: lum_checkExtraKey_def)
      qed
    qed
    have old: "g_oldExtraketStatus w' = h"
      using assms(2) held by (auto simp: lum_checkExtraKey_def split: if_splits bind_splits)
    have snoc: "hs @ [h] = us @ replicate (Suc n) h" using u(1) by (simp add: replicate_append_same)
    have "last us \<in> set (hs @ [h])" using u(1,2) by simp
    then have "\<not> (\<forall>x \<in> set (hs @ [h]). x = last (hs @ [h]))" using u(3) by auto
    moreover have "\<exists>us n. hs @ [h] = us @ replicate n (last (hs @ [h])) \<and> us \<noteq> [] \<and> last us \<noteq> last (hs @ [h]) \<and> 0 < n
        \<and> keyStillCount w' = of_nat (min 11 (n - 1))"
      using snoc u(2,3) count by (intro exI [of _ us] exI [of _ "Suc n"]) simp
    moreover have "hs @ [h] \<noteq> []" "g_oldExtraketStatus w' = last (hs @ [h])" using old by simp_all
    ultimately show ?thesis by (rule still_forI [rotated 2])
  qed
next
  case False
  have hs: "hs \<noteq> []" "g_oldExtraketStatus w = last hs" using assms(1) by (simp_all add: still_for_def)
  then have w': "w' = w\<lparr>keyStillCount := 0, g_oldExtraketStatus := h\<rparr>"
    using assms(2) False by (simp add: lum_checkExtraKey_def)
  have "last hs \<in> set (hs @ [h])" using hs(1) by simp
  then have "\<not> (\<forall>x \<in> set (hs @ [h]). x = last (hs @ [h]))" using False by auto
  moreover have "\<exists>us n. hs @ [h] = us @ replicate n (last (hs @ [h])) \<and> us \<noteq> [] \<and> last us \<noteq> last (hs @ [h]) \<and> 0 < n
      \<and> keyStillCount w' = of_nat (min 11 (n - 1))"
    using hs(1) False w' by (intro exI [of _ hs] exI [of _ "Suc 0"]) simp
  moreover have "hs @ [h] \<noteq> []" "g_oldExtraketStatus w' = last (hs @ [h])" using w' by simp_all
  ultimately show ?thesis by (rule still_forI [rotated 2])
qed

lemma still_for_run:
  "extra_key_run E hs (d0, lum_extraKeyInit h0 w0) = Some (d, w) \<Longrightarrow> still_for (h0 # hs) w"
proof (induction hs arbitrary: d w rule: rev_induct)
  case Nil
  then show ?case by (auto simp: lum_extraKeyInit_def still_for_def wcall_def)
next
  case (snoc h hs)
  then obtain d1 w1 where "extra_key_run E hs (d0, lum_extraKeyInit h0 w0) = Some (d1, w1)"
      "lum_checkExtraKey E h (d1, w1) = Some (d, w)"
    by (auto simp: extra_key_run_snoc split: bind_splits)
  then show ?case using snoc.IH still_for_step [of "h0 # hs" w1 E h d1 d w] by simp
qed

text \<open>
  Property C37: the polled switch is debounced as intended.  After any readings since the start, the
  next reading toggles the socket exactly when it is the twelfth equal reading in a row after a
  change; a bounce starts the count again, and the position the switch had at the start does not
  toggle anything.
\<close>

theorem extra_key_debounced:
  "extra_key_run E hs (d0, lum_extraKeyInit h0 w0) = Some (d, w) \<Longrightarrow>
   map_option fst (lum_checkExtraKey E h (d, w)) =
     (if settled (h0 # hs) h then changeSwitchStatus E SWITCH_PIN_1 d else Some d)"
proof -
  assume "extra_key_run E hs (d0, lum_extraKeyInit h0 w0) = Some (d, w)"
  then have st: "still_for (h0 # hs) w" by (rule still_for_run)
  then have old: "g_oldExtraketStatus w = last (h0 # hs)" by (simp only: still_for_def)
  show ?thesis
  proof (cases "h = last (h0 # hs)")
    case False
    then show ?thesis using old not_settled_change [of "h0 # hs" h] by (auto simp: lum_checkExtraKey_def)
  next
    case same: True
    show ?thesis
    proof (cases "\<forall>x \<in> set (h0 # hs). x = h")
      case True
      then have "keyStillCount w = 11" using st unfolding still_for_def same [symmetric] by simp
      then show ?thesis using old same not_settled_always [OF True] by (simp add: lum_checkExtraKey_def)
    next
      case False
      then obtain us n where u: "h0 # hs = us @ replicate n h" "us \<noteq> []" "last us \<noteq> h" "0 < n"
          "keyStillCount w = of_nat (min 11 (n - 1))"
        using still_for_run_of [OF st, folded same] by blast
      have "unat (keyStillCount w) = min 11 (n - 1)"
        by (simp add: u(5) unsigned_of_nat take_bit_nat_eq_self)
      then have "keyStillCount w = 10 \<longleftrightarrow> n = 11" "keyStillCount w < 10 \<longleftrightarrow> n < 11"
        using u(4) by (auto simp: word_less_nat_alt word_unat_eq_iff)
      then show ?thesis using old same settled_after_run [OF u(1-3)]
        by (auto simp: lum_checkExtraKey_def split: bind_splits)
    qed
  qed
qed

theorem extra_key_debounced_witness:
  "map_option fst (lum_checkExtraKey plain_sdk True
     (power_on, (lum_extraKeyInit False wall_power_on)\<lparr>keyStillCount := 10, g_oldExtraketStatus := True\<rparr>)) =
   changeSwitchStatus plain_sdk SWITCH_PIN_1 power_on"
proof -
  have ones: "replicate 11 True = [True, True, True, True, True, True, True, True, True, True, True]"
    by (simp add: numeral_eq_Suc)
  have run: "extra_key_run plain_sdk (replicate 11 True) (power_on, lum_extraKeyInit False wall_power_on) =
      Some (power_on, (lum_extraKeyInit False wall_power_on)\<lparr>keyStillCount := 10, g_oldExtraketStatus := True\<rparr>)"
    unfolding ones by (simp add: lum_checkExtraKey_def lum_extraKeyInit_def wcall_def)
  have "False # replicate 11 True @ [True] = [False] @ replicate 12 True" by (simp add: numeral_eq_Suc)
  then have "settled (False # replicate 11 True) True" unfolding settled_def
    by (intro exI [of _ "[False]"]) simp
  then show ?thesis using extra_key_debounced [OF run, of True] by simp
qed

section \<open>The request to be configured\<close>

text \<open>
  The app's request is answered, and a message of the device to itself is to start the
  configuration; only a product without a key compiles the handler of that message.
\<close>

definition localEnterSmartLink :: "sdk \<Rightarrow> msg_node_body \<Rightarrow> device \<Rightarrow> device option" where
  "localEnterSmartLink E pNode d = do {
     d1 \<leftarrow> (case pData pNode of None \<Rightarrow> Some d
           | Some bs \<Rightarrow> do {
               reason \<leftarrow> rd bs 0;
               Some (if reason = ENTER_SMARTLINK_BY_NETWORK then lum_setFactorySmartlink True d else d)
             });
     Some (sendSmartLinkCmd E d1)
   }"

definition wall_dispatch :: "sdk \<Rightarrow> msg_node_body \<Rightarrow> device \<Rightarrow> device option" where
  "wall_dispatch E b d =
     (if cmdData b = MSG_CMD_LOCAL_ENTER_SMARTLINK then localEnterSmartLink E b d else dispatch E b d)"

lemma smartlink_answer:
  assumes q: "sends d q" and ok: "device_ok d" and m: "memory_left E" and p: "msgOrigin p \<noteq> MSG_LOCAL_EVENT"
    and mq: "msgs d mq" "length mq < 256"
  obtains d' d0 n b where "rebackEnterSmartLink E p d = Some d'" "msgs d' (mq @ [(nextAddr d, b)])"
    "b = local_msg MSG_LOCAL_EVENT (Some [ENTER_SMARTLINK_BY_NETWORK]) 1 MSG_CMD_LOCAL_ENTER_SMARTLINK"
    "sends d' (q @ [(nextAddr d + 1, n)])" "sends_packet 1 [0x66, 0] (snIndex p) p d0 n"
    "deviceConfigData d' = (deviceConfigData d)\<lparr>bLocked := 0\<rparr>" "keyData (globalData d0) = keyData (globalData d)"
    "macAddr (globalData d0) = macAddr (globalData d)"
proof -
  let ?b = "local_msg MSG_LOCAL_EVENT (Some [ENTER_SMARTLINK_BY_NETWORK]) 1 MSG_CMD_LOCAL_ENTER_SMARTLINK"
  obtain r d1 where i: "insertLocalMsgToList E MSG_LOCAL_EVENT (Some [ENTER_SMARTLINK_BY_NETWORK]) 1
        MSG_CMD_LOCAL_ENTER_SMARTLINK d = Some (r, d1)"
      "deviceConfigData d1 = deviceConfigData d" "msgs d1 (mq @ [(nextAddr d, ?b)])" "nextAddr d1 = nextAddr d + 1"
    using m by (auto simp: memory_left_def intro: insertLocalMsgToList_msgs [OF mq, of "Some [ENTER_SMARTLINK_BY_NETWORK]" 1 E
        MSG_LOCAL_EVENT MSG_CMD_LOCAL_ENTER_SMARTLINK])
  have core: "core d1 = core d" by (rule insertLocalMsgToList_core [OF i(1)])
  define d2 where "d2 = changeDeviceLockedStatus False d1"
  have d2: "deviceConfigData d2 = (deviceConfigData d)\<lparr>bLocked := 0\<rparr>" "globalData d2 = globalData d1" "msgList d2 = msgList d1"
      "sendList d2 = sendList d1" "nextAddr d2 = nextAddr d1"
    using i(2) by (auto simp: d2_def changeDeviceLockedStatus_def saveDeviceConfigData_def upd_config_def call_def Let_def)
  have s2: "sends d2 q" by (rule sends_more [OF _ _ q]) (simp_all add: d2 i(4) core_eqD(2) [OF core])
  have ok2: "keys_ok d2" "\<not> lum_getUdpLogFlag d2"
    using ok d2(1,2) core_eqD(11,13) [OF core] by (simp_all add: device_ok_def keys_ok_def lum_getUdpLogFlag_def)
  obtain n d' where r: "reply E [0x66, 0] p d2 = Some d'" "quiet d2 d'" "sends d' (q @ [(nextAddr d2, n)])"
      "sends_packet 1 [0x66, 0] (snIndex p) p d2 n"
    by (rule reply_queued [OF s2 ok2 _ _ p m, of "[0x66, 0]"]) simp_all
  have "rebackEnterSmartLink E p d = Some d'" using i(1) r(1) by (simp add: rebackEnterSmartLink_def d2_def)
  moreover have "msgs d' (mq @ [(nextAddr d, ?b)])" 
    using quiet_msgs [OF r(2)] i(3) msgs_cong [OF d2(3)] d2(5) by simp
  ultimately show ?thesis
    using r d2 i(4) quietD(1) [OF r(2)] core_eqD(11,13) [OF core] by (intro that [of d' ?b n d2]) simp_all
qed

text \<open>
  Property C36: a device with a key does not do what it confirms.  It answers the request to enter
  smartlink with success, unlocks itself, and queues the message that is to start smartlink; but the
  thread that takes this message from the list ignores it, in every state.  In a product without a
  key the same message saves the wish and starts smartlink.
\<close>

theorem smartlink_request_ignored:
  "sends d q \<Longrightarrow> device_ok d \<Longrightarrow> memory_left E \<Longrightarrow> msgOrigin p \<noteq> MSG_LOCAL_EVENT \<Longrightarrow> msgs d mq \<Longrightarrow> length mq < 256 \<Longrightarrow>
   \<exists>d' d0 n b. rebackEnterSmartLink E p d = Some d' \<and> deviceConfigData d' = (deviceConfigData d)\<lparr>bLocked := 0\<rparr>
     \<and> sends d' (q @ [(nextAddr d + 1, n)]) \<and> sends_packet 1 [0x66, REBACK_SUCCESS_MESSAGE] (snIndex p) p d0 n
     \<and> keyData (globalData d0) = keyData (globalData d) \<and> macAddr (globalData d0) = macAddr (globalData d)
     \<and> msgs d' (mq @ [(nextAddr d, b)])
     \<and> (\<forall>d2. dispatch E b d2 = Some d2 \<and> wall_dispatch E b d2 = Some (sendSmartLinkCmd E (lum_setFactorySmartlink True d2)))"
proof -
  assume a: "sends d q" "device_ok d" "memory_left E" "msgOrigin p \<noteq> MSG_LOCAL_EVENT" "msgs d mq" "length mq < 256"
  obtain d' d0 n b where r: "rebackEnterSmartLink E p d = Some d'" "msgs d' (mq @ [(nextAddr d, b)])"
      "b = local_msg MSG_LOCAL_EVENT (Some [ENTER_SMARTLINK_BY_NETWORK]) 1 MSG_CMD_LOCAL_ENTER_SMARTLINK"
      "sends d' (q @ [(nextAddr d + 1, n)])" "sends_packet 1 [0x66, 0] (snIndex p) p d0 n"
      "deviceConfigData d' = (deviceConfigData d)\<lparr>bLocked := 0\<rparr>" "keyData (globalData d0) = keyData (globalData d)"
      "macAddr (globalData d0) = macAddr (globalData d)"
    by (rule smartlink_answer [OF a])
  have "cmdData b = MSG_CMD_LOCAL_ENTER_SMARTLINK" "pData b = Some [ENTER_SMARTLINK_BY_NETWORK, 0, 0]"
    by (simp_all add: r(3) local_msg_def)
  then have "dispatch E b d2 = Some d2 \<and> wall_dispatch E b d2 = Some (sendSmartLinkCmd E (lum_setFactorySmartlink True d2))" for d2
    by (simp add: dispatch_def wall_dispatch_def localEnterSmartLink_def rd_def)
  then show ?thesis using r by blast
qed

theorem smartlink_request_ignored_witness:
  "\<exists>d' b. rebackEnterSmartLink plain_sdk (udp_message [0x66]) power_on = Some d' \<and> msgs d' [(nextAddr power_on, b)]
     \<and> dispatch plain_sdk b d' = Some d'"
proof -
  have few: "length ([] :: (nat \<times> msg_node_body) list) < 256" by simp
  show ?thesis
    using smartlink_request_ignored [OF sends_power_on device_ok_power_on memory_left_plain udp_message_carries(2)
        msgs_power_on few, of "[0x66]"] unfolding append_Nil by blast
qed
end
